(* ===== verification/Prelude.thy ===== *)
theory Prelude
  imports Main "HOL-Library.Word" "HOL-Library.List_Lexorder" "HOL-Library.Multiset"
    "HOL-Library.AList"
begin

text \<open>
  The vocabulary every component of the de-MLS development shares.

  \<^item> Machine types: bytes, byte strings (\<^verbatim>\<open>Vec<u8>\<close>, ordered
    lexicographically as Rust orders them), \<^verbatim>\<open>u32\<close> and \<^verbatim>\<open>u64\<close> words,
    with the saturating operations and the big-endian encodings the source uses.
  \<^item> Fallible code: a result is a sum, \<open>Inl\<close> the error; fallible code with
    state returns the result \<^emph>\<open>and\<close> the state, because a Rust \<^verbatim>\<open>&mut self\<close>
    method that leaves through \<^verbatim>\<open>?\<close> keeps the mutations made before it.
  \<^item> Containers: \<^verbatim>\<open>IndexMap\<close> and \<^verbatim>\<open>HashMap\<close> as association lists with
    distinct keys. For an \<^verbatim>\<open>IndexMap\<close> the list order is the insertion order the
    source relies on; for a \<^verbatim>\<open>HashMap\<close> it stands for the iteration order, which
    the source leaves unspecified: statements range over every list.
\<close>

named_theorems result_simps \<open>evaluation of result plumbing\<close>
named_theorems map_simps \<open>lookups in association-list maps\<close>

section \<open>Machine types\<close>

type_synonym byte = "8 word"
type_synonym bytes = "byte list"
type_synonym u32 = "32 word"
type_synonym u64 = "64 word"

text \<open>\<^verbatim>\<open>u32::saturating_add\<close> and \<^verbatim>\<open>u64::saturating_sub\<close>.\<close>

definition saturating_add_u32 :: "u32 \<Rightarrow> u32 \<Rightarrow> u32" where
  "saturating_add_u32 a b = (if unat a + unat b < 2 ^ 32 then a + b else - 1)"

definition saturating_sub_u64 :: "u64 \<Rightarrow> u64 \<Rightarrow> u64" where
  "saturating_sub_u64 a b = (if b \<le> a then a - b else 0)"

definition saturating_add_u64 :: "u64 \<Rightarrow> u64 \<Rightarrow> u64" where
  "saturating_add_u64 a b = (if unat a + unat b < 2 ^ 64 then a + b else - 1)"

text \<open>\<^verbatim>\<open>i64\<close> values are integers kept in range; \<^verbatim>\<open>i64::saturating_add\<close> clamps.\<close>

type_synonym i64 = int

definition i64_min :: i64 where "i64_min = - (2 ^ 63)"
definition i64_max :: i64 where "i64_max = 2 ^ 63 - 1"

definition in_i64 :: "int \<Rightarrow> bool" where
  "in_i64 x \<longleftrightarrow> i64_min \<le> x \<and> x \<le> i64_max"

definition saturating_add_i64 :: "i64 \<Rightarrow> i64 \<Rightarrow> i64" where
  "saturating_add_i64 a b = max i64_min (min i64_max (a + b))"

lemma unat_saturating_add_u32: "unat (saturating_add_u32 a b) = min (unat a + unat b) (2 ^ 32 - 1)"
  by (auto simp: saturating_add_u32_def unat_word_ariths unsigned_minus_1_eq_mask mask_eq_exp_minus_1)

lemma saturating_sub_u64_eq_0: "saturating_sub_u64 a b = 0 \<longleftrightarrow> a \<le> b"
  by (auto simp: saturating_sub_u64_def)

lemma unat_saturating_sub_u64: "unat (saturating_sub_u64 a b) = unat a - unat b"
  by (auto simp: saturating_sub_u64_def unat_sub word_le_nat_alt)

lemma in_i64_saturating_add [simp]: "in_i64 (saturating_add_i64 a b)"
  by (auto simp: saturating_add_i64_def in_i64_def i64_min_def i64_max_def)

lemma saturating_add_i64_exact: "in_i64 (a + b) \<Longrightarrow> saturating_add_i64 a b = a + b"
  by (auto simp: saturating_add_i64_def in_i64_def)

text \<open>\<^verbatim>\<open>to_be_bytes\<close> and \<^verbatim>\<open>from_be_bytes\<close>.\<close>

definition u32_to_be_bytes :: "u32 \<Rightarrow> bytes" where
  "u32_to_be_bytes w = map (\<lambda>n. ucast (drop_bit n w)) [24, 16, 8, 0]"

definition u64_to_be_bytes :: "u64 \<Rightarrow> bytes" where
  "u64_to_be_bytes w = map (\<lambda>n. ucast (drop_bit n w)) [56, 48, 40, 32, 24, 16, 8, 0]"

fun u32_from_be_bytes :: "bytes \<Rightarrow> u32 option" where
  "u32_from_be_bytes [a, b, c, d] =
     Some (word_of_nat (unat a * 2 ^ 24 + unat b * 2 ^ 16 + unat c * 2 ^ 8 + unat d))"
| "u32_from_be_bytes _ = None"

lemma length_u32_to_be_bytes [simp]: "length (u32_to_be_bytes w) = 4"
  by (simp add: u32_to_be_bytes_def)

lemma nat_base256:
  assumes "(n::nat) < 4294967296"
  shows "n div 16777216 mod 256 * 16777216 + n div 65536 mod 256 * 65536 +
     n div 256 mod 256 * 256 + n mod 256 = n"
proof -
  have a: "n div 16777216 < 256" using assms by (simp add: div_less_iff_less_mult)
  have b: "n div 65536 div 256 = n div 16777216" and c: "n div 256 div 256 = n div 65536"
    by (simp_all add: div_mult2_eq [symmetric])
  show ?thesis
    using mod_less [OF a] div_mult_mod_eq [of "n div 65536" 256] div_mult_mod_eq [of "n div 256" 256]
      div_mult_mod_eq [of n 256]
    unfolding b c by linarith
qed

lemma unat_byte_of: "unat (ucast (drop_bit n (w::u32)) :: byte) = unat w div 2 ^ n mod 256"
proof -
  have "unat (drop_bit n w) = unat w div 2 ^ n"
    using unsigned_less [where 'a = nat, of w]
    by (simp only: unsigned_drop_bit_eq take_bit_nat_eq_self drop_bit_eq_div [of n "unat w"])
  then show ?thesis
    by (simp only: unsigned_ucast_eq take_bit_eq_mod) simp
qed

lemma u32_be_bytes_roundtrip [simp]: "u32_from_be_bytes (u32_to_be_bytes w) = Some w"
proof -
  have "unat w < 4294967296" using unsigned_less [of w] by simp
  then have "unat w div 2 ^ 24 mod 256 * 2 ^ 24 + unat w div 2 ^ 16 mod 256 * 2 ^ 16 +
     unat w div 2 ^ 8 mod 256 * 2 ^ 8 + unat w div 2 ^ 0 mod 256 = unat w"
    using nat_base256 [of "unat w"] by simp
  then show ?thesis
    unfolding u32_to_be_bytes_def list.map u32_from_be_bytes.simps unat_byte_of
    by (simp only: word_of_nat_eq_iff option.inject) simp
qed

lemma nat_base256_digits:
  assumes "(a::nat) < 256" "b < 256" "c < 256" "d < 256"
  defines "n \<equiv> a * 16777216 + b * 65536 + c * 256 + d"
  shows "n div 16777216 mod 256 = a" "n div 65536 mod 256 = b" "n div 256 mod 256 = c"
    "n mod 256 = d" "n < 4294967296"
proof -
  have n1: "n = (a * 65536 + b * 256 + c) * 256 + d"
    and n2: "n = (a * 256 + b) * 65536 + (c * 256 + d)"
    and n3: "n = a * 16777216 + (b * 65536 + c * 256 + d)"
    unfolding n_def by simp_all
  have "n div 256 = (a * 256 + b) * 256 + c" using assms n1 by simp
  then have "n div 256 mod 256 = c mod 256" by (simp only: mod_mult_self3)
  then show "n div 256 mod 256 = c" using assms by simp
  have "n div 65536 = a * 256 + b" using assms unfolding n2 by (simp add: div_mult_self3)
  then show "n div 65536 mod 256 = b" using assms by (simp add: mod_mult_self3)
  have "n div 16777216 = a" using assms unfolding n3 by (simp add: div_mult_self3)
  then show "n div 16777216 mod 256 = a" using assms by simp
  have "n mod 256 = d mod 256" unfolding n1 by (simp only: mod_mult_self3)
  then show "n mod 256 = d" using assms by simp
  show "n < 4294967296" using assms unfolding n_def by linarith
qed

lemma u32_to_be_of_bytes:
  "u32_to_be_bytes (word_of_nat (unat a * 2 ^ 24 + unat b * 2 ^ 16 + unat c * 2 ^ 8 + unat d)) =
     [a, b, c, d]"
proof -
  let ?n = "unat a * 16777216 + unat b * 65536 + unat c * 256 + unat d"
  have lt: "unat x < 256" for x :: byte using unsigned_less [of x] by simp
  note dg = nat_base256_digits [OF lt [of a] lt [of b] lt [of c] lt [of d]]
  have n: "unat (word_of_nat ?n :: u32) = ?n"
    using dg(5) by (simp only: unat_of_nat) simp
  have "unat (ucast (drop_bit 24 (word_of_nat ?n :: u32)) :: byte) = unat a"
    "unat (ucast (drop_bit 16 (word_of_nat ?n :: u32)) :: byte) = unat b"
    "unat (ucast (drop_bit 8 (word_of_nat ?n :: u32)) :: byte) = unat c"
    "unat (ucast (drop_bit 0 (word_of_nat ?n :: u32)) :: byte) = unat d"
    unfolding unat_byte_of n using dg by simp_all
  then have "map (\<lambda>k. ucast (drop_bit k (word_of_nat ?n :: u32)) :: byte) [24, 16, 8, 0] = [a, b, c, d]"
    unfolding list.map by (simp only: unsigned_word_eqI list.inject simp_thms)
  then show ?thesis unfolding u32_to_be_bytes_def by simp
qed

lemma u32_from_be_bytes_Some:
  assumes "u32_from_be_bytes bs = Some w"
  shows "bs = u32_to_be_bytes w"
  using assms
proof (cases bs rule: u32_from_be_bytes.cases)
  case (1 a b c d)
  with assms have "w = word_of_nat (unat a * 2 ^ 24 + unat b * 2 ^ 16 + unat c * 2 ^ 8 + unat d)"
    by simp
  with 1 show ?thesis by (simp only: u32_to_be_of_bytes)
qed simp_all

lemma u32_from_be_bytes_None: "length bs \<noteq> 4 \<Longrightarrow> u32_from_be_bytes bs = None"
  by (cases bs rule: u32_from_be_bytes.cases) auto

lemma inj_u32_to_be_bytes: "inj u32_to_be_bytes"
  by (metis injI option.inject u32_be_bytes_roundtrip)

section \<open>Decimal rendering\<close>

text \<open>What \<^verbatim>\<open>format!\<close> prints for integers.\<close>

fun show_nat :: "nat \<Rightarrow> string" where
  "show_nat n = (if n < 10 then [char_of (48 + n)] else show_nat (n div 10) @ [char_of (48 + n mod 10)])"

declare show_nat.simps [simp del]

definition show_int :: "int \<Rightarrow> string" where
  "show_int i = (if i < 0 then CHR ''-'' # show_nat (nat (- i)) else show_nat (nat i))"

section \<open>Results\<close>

definition result_then :: "'e + 'a \<Rightarrow> ('a \<Rightarrow> 'e + 'b) \<Rightarrow> 'e + 'b" where
  "result_then r k = (case r of Inl e \<Rightarrow> Inl e | Inr x \<Rightarrow> k x)"

text \<open>
  The \<^verbatim>\<open>?\<close> operator on a stateful fallible computation: stop at an error with the
  state reached so far, otherwise go on with the value and the new state.
\<close>

definition try_then ::
  "('e + 'a) \<times> 's \<Rightarrow> ('a \<Rightarrow> 's \<Rightarrow> ('e + 'b) \<times> 's) \<Rightarrow> ('e + 'b) \<times> 's" where
  "try_then r k = (case r of (Inl e, s) \<Rightarrow> (Inl e, s) | (Inr x, s) \<Rightarrow> k x s)"

text \<open>\<^verbatim>\<open>Option::ok_or\<close> and \<^verbatim>\<open>Result::ok\<close>.\<close>

definition ok_or :: "'a option \<Rightarrow> 'e \<Rightarrow> 'e + 'a" where
  "ok_or x e = (case x of None \<Rightarrow> Inl e | Some y \<Rightarrow> Inr y)"

definition result_ok :: "'e + 'a \<Rightarrow> 'a option" where
  "result_ok r = (case r of Inl _ \<Rightarrow> None | Inr x \<Rightarrow> Some x)"

definition is_ok :: "'e + 'a \<Rightarrow> bool" where
  "is_ok r \<longleftrightarrow> (case r of Inl _ \<Rightarrow> False | Inr _ \<Rightarrow> True)"

lemma result_then_simps [simp]:
  "result_then (Inl e) k = Inl e" "result_then (Inr x) k = k x"
  by (simp_all add: result_then_def)

lemma try_then_simps [simp]:
  "try_then (Inl e, s) k = (Inl e, s)" "try_then (Inr x, s) k = k x s"
  by (simp_all add: try_then_def)

lemma ok_or_simps [simp]: "ok_or None e = Inl e" "ok_or (Some x) e = Inr x"
  by (simp_all add: ok_or_def)

lemma result_ok_simps [simp]: "result_ok (Inl e) = None" "result_ok (Inr x) = Some x"
  by (simp_all add: result_ok_def)

lemma is_ok_simps [simp]: "\<not> is_ok (Inl e)" "is_ok (Inr x)"
  by (simp_all add: is_ok_def)

lemma result_then_eq_Inr: "result_then r k = Inr y \<longleftrightarrow> (\<exists>x. r = Inr x \<and> k x = Inr y)"
  by (cases r) auto

lemma try_then_eq_Inr:
  "try_then r k = (Inr y, s') \<longleftrightarrow> (\<exists>x s. r = (Inr x, s) \<and> k x s = (Inr y, s'))"
  by (cases r rule: prod.exhaust, rename_tac a b, case_tac a) auto

lemma try_then_split:
  "P (try_then r k) \<longleftrightarrow>
     (\<forall>e s. r = (Inl e, s) \<longrightarrow> P (Inl e, s)) \<and> (\<forall>x s. r = (Inr x, s) \<longrightarrow> P (k x s))"
  by (cases r rule: prod.exhaust, rename_tac a b, case_tac a) auto

text \<open>A loop of fallible stateful steps, left at the first error.\<close>

fun try_fold :: "('x \<Rightarrow> 's \<Rightarrow> ('e + unit) \<times> 's) \<Rightarrow> 'x list \<Rightarrow> 's \<Rightarrow> ('e + unit) \<times> 's" where
  "try_fold f [] s = (Inr (), s)"
| "try_fold f (x # xs) s = try_then (f x s) (\<lambda>_ s'. try_fold f xs s')"

lemma try_fold_invariant:
  assumes "\<And>x s. P s \<Longrightarrow> P (snd (f x s))" and "P s"
  shows "P (snd (try_fold f xs s))"
  using assms(2)
proof (induction xs arbitrary: s)
  case (Cons x xs)
  show ?case using Cons.IH assms(1) [OF Cons.prems, of x]
    by (cases "f x s" rule: prod.exhaust, rename_tac r t, case_tac r) auto
qed simp

lemma try_fold_append:
  "try_fold f (xs @ ys) s = try_then (try_fold f xs s) (\<lambda>_ s'. try_fold f ys s')"
proof (induction xs arbitrary: s)
  case (Cons x xs)
  then show ?case
    by (cases "f x s" rule: prod.exhaust, rename_tac r t, case_tac r) auto
qed simp

section \<open>Association-list maps\<close>

type_synonym ('k, 'v) imap = "('k \<times> 'v) list"

definition imap_ok :: "('k, 'v) imap \<Rightarrow> bool" where
  "imap_ok m \<longleftrightarrow> distinct (map fst m)"

definition imap_get :: "('k, 'v) imap \<Rightarrow> 'k \<Rightarrow> 'v option" where
  "imap_get m k = map_of m k"

text \<open>\<^verbatim>\<open>insert\<close>: an existing key keeps its position, a new one goes last.\<close>

definition imap_insert :: "'k \<Rightarrow> 'v \<Rightarrow> ('k, 'v) imap \<Rightarrow> ('k, 'v) imap" where
  "imap_insert k v m = AList.update k v m"

definition imap_remove :: "'k \<Rightarrow> ('k, 'v) imap \<Rightarrow> ('k, 'v) imap" where
  "imap_remove k m = AList.delete k m"

definition imap_contains :: "('k, 'v) imap \<Rightarrow> 'k \<Rightarrow> bool" where
  "imap_contains m k \<longleftrightarrow> imap_get m k \<noteq> None"

definition imap_values :: "('k, 'v) imap \<Rightarrow> 'v list" where
  "imap_values m = map snd m"

text \<open>\<^verbatim>\<open>retain\<close>.\<close>

definition imap_retain :: "('k \<Rightarrow> 'v \<Rightarrow> bool) \<Rightarrow> ('k, 'v) imap \<Rightarrow> ('k, 'v) imap" where
  "imap_retain P m = filter (\<lambda>(k, v). P k v) m"

lemma imap_get_insert [simp, map_simps]:
  "imap_get (imap_insert k v m) k' = (if k' = k then Some v else imap_get m k')"
  by (simp add: imap_get_def imap_insert_def update_conv)

lemma imap_get_remove [simp, map_simps]:
  "imap_get (imap_remove k m) k' = (if k' = k then None else imap_get m k')"
  by (simp add: imap_get_def imap_remove_def delete_conv)

lemma imap_get_Nil [simp, map_simps]: "imap_get [] k = None"
  by (simp add: imap_get_def)

lemma imap_get_Cons [map_simps]:
  "imap_get ((k, v) # m) k' = (if k' = k then Some v else imap_get m k')"
  by (simp add: imap_get_def)

lemma imap_ok_Nil [simp]: "imap_ok []"
  by (simp add: imap_ok_def)

lemma imap_ok_insert [simp]: "imap_ok (imap_insert k v m) = imap_ok m"
  by (induction m) (auto simp: imap_ok_def imap_insert_def dom_update)

lemma imap_ok_remove [simp]: "imap_ok m \<Longrightarrow> imap_ok (imap_remove k m)"
  by (simp add: imap_ok_def imap_remove_def distinct_delete)

lemma imap_ok_retain [simp]: "imap_ok m \<Longrightarrow> imap_ok (imap_retain P m)"
  by (simp add: imap_ok_def imap_retain_def distinct_map_filter)

lemma imap_get_SomeD: "imap_get m k = Some v \<Longrightarrow> (k, v) \<in> set m"
  by (simp add: imap_get_def map_of_SomeD)

lemma imap_get_iff_mem: "imap_ok m \<Longrightarrow> imap_get m k = Some v \<longleftrightarrow> (k, v) \<in> set m"
  by (simp add: imap_ok_def imap_get_def)

lemma imap_contains_iff [map_simps]: "imap_contains m k \<longleftrightarrow> k \<in> fst ` set m"
  by (simp add: imap_contains_def imap_get_def map_of_eq_None_iff)

lemma imap_get_None_iff: "imap_get m k = None \<longleftrightarrow> k \<notin> fst ` set m"
  by (simp add: imap_get_def map_of_eq_None_iff)

lemma imap_get_retain [map_simps]:
  "imap_ok m \<Longrightarrow> imap_get (imap_retain P m) k =
     (case imap_get m k of Some v \<Rightarrow> if P k v then Some v else None | None \<Rightarrow> None)"
proof (induction m)
  case (Cons x m)
  then show ?case
    by (cases x) (auto simp: imap_get_def imap_retain_def imap_ok_def map_of_eq_None_iff
        split: option.splits dest!: map_of_SomeD intro: rev_image_eqI)
qed (simp add: imap_retain_def)

lemma imap_insert_new: "\<not> imap_contains m k \<Longrightarrow> imap_insert k v m = m @ [(k, v)]"
  by (induction m) (auto simp: imap_insert_def imap_contains_iff)

lemma imap_retain_append: "imap_retain P (m @ n) = imap_retain P m @ imap_retain P n"
  by (simp add: imap_retain_def)

lemma set_imap_retain [simp]: "set (imap_retain P m) = {(k, v). (k, v) \<in> set m \<and> P k v}"
  by (auto simp: imap_retain_def)

lemma imap_remove_eq_retain: "imap_remove k m = imap_retain (\<lambda>k' _. k' \<noteq> k) m"
  by (auto simp: imap_remove_def imap_retain_def AList.delete_eq case_prod_beta intro!: filter_cong)

lemma set_imap_insert_subset: "set (imap_insert k v m) \<subseteq> insert (k, v) (set m)"
  by (induction m) (auto simp: imap_insert_def)

lemma set_imap_remove_subset: "set (imap_remove k m) \<subseteq> set m"
  by (auto simp: imap_remove_eq_retain)

end
