(* ===== verification/Ordering.thy ===== *)
theory Ordering
  imports Prelude
begin

text \<open>
  Rust's comparators and its stable \<^verbatim>\<open>sort_by\<close>.

  A comparator returns a value of \<^verbatim>\<open>std::cmp::Ordering\<close>; \<^verbatim>\<open>then_with\<close> breaks
  ties lexicographically. The locale \<open>total_cmp\<close> is the contract \<^verbatim>\<open>sort_by\<close> asks of
  its comparator (reflexive, antisymmetric up to reversal, transitive); inside it the
  result of sorting is shown to be an ordered permutation that depends only on the
  multiset of the input as soon as the comparator separates its elements. That is the
  fact on which every peer deriving the same steward list and the same winning commit
  rests. \<open>strict_cmp\<close> extends it with separation; both are interpreted on the byte
  order, and the components add their own comparators.
\<close>

section \<open>Comparators\<close>

datatype ordering = Less | Equal | Greater

fun reverse_ordering :: "ordering \<Rightarrow> ordering" where
  "reverse_ordering Less = Greater"
| "reverse_ordering Equal = Equal"
| "reverse_ordering Greater = Less"

text \<open>\<^verbatim>\<open>Ord::cmp\<close> of a linearly ordered type and \<^verbatim>\<open>Ordering::then_with\<close>.\<close>

definition ord_cmp :: "'a::linorder \<Rightarrow> 'a \<Rightarrow> ordering" where
  "ord_cmp a b = (if a < b then Less else if a = b then Equal else Greater)"

fun then_with :: "ordering \<Rightarrow> ordering \<Rightarrow> ordering" where
  "then_with Equal o2 = o2"
| "then_with o1 _ = o1"

lemma then_with_eq_Equal [simp]: "then_with a b = Equal \<longleftrightarrow> a = Equal \<and> b = Equal"
  by (cases a) auto

lemma then_with_eq_Greater:
  "then_with a b = Greater \<longleftrightarrow> a = Greater \<or> (a = Equal \<and> b = Greater)"
  by (cases a) auto

lemma reverse_then_with [simp]:
  "reverse_ordering (then_with a b) = then_with (reverse_ordering a) (reverse_ordering b)"
  by (cases a) auto

lemma reverse_ordering_eq_iff [simp]:
  "reverse_ordering a = Equal \<longleftrightarrow> a = Equal" "reverse_ordering a = Greater \<longleftrightarrow> a = Less"
  "reverse_ordering a = Less \<longleftrightarrow> a = Greater"
  by (cases a; simp)+

lemma ord_cmp_simps [simp]:
  "ord_cmp a b = Less \<longleftrightarrow> a < b" "ord_cmp a b = Equal \<longleftrightarrow> a = b"
  "ord_cmp a b = Greater \<longleftrightarrow> b < a"
  by (auto simp: ord_cmp_def)

section \<open>Stable sorting\<close>

fun insert_by :: "('a \<Rightarrow> 'a \<Rightarrow> ordering) \<Rightarrow> 'a \<Rightarrow> 'a list \<Rightarrow> 'a list" where
  "insert_by cmp x [] = [x]"
| "insert_by cmp x (y # ys) =
     (if cmp x y = Greater then y # insert_by cmp x ys else x # y # ys)"

fun sort_by :: "('a \<Rightarrow> 'a \<Rightarrow> ordering) \<Rightarrow> 'a list \<Rightarrow> 'a list" where
  "sort_by cmp [] = []"
| "sort_by cmp (x # xs) = insert_by cmp x (sort_by cmp xs)"

lemma mset_insert_by [simp]: "mset (insert_by cmp x xs) = add_mset x (mset xs)"
  by (induction xs) auto

lemma mset_sort_by [simp]: "mset (sort_by cmp xs) = mset xs"
  by (induction xs) auto

lemma set_sort_by [simp]: "set (sort_by cmp xs) = set xs"
  by (metis mset_sort_by set_mset_mset)

lemma length_sort_by [simp]: "length (sort_by cmp xs) = length xs"
  by (metis mset_sort_by size_mset)

lemma distinct_sort_by [simp]: "distinct (sort_by cmp xs) = distinct xs"
  by (metis mset_sort_by mset_eq_imp_distinct_iff)

lemma map_insert_by:
  assumes "\<And>a b. a \<in> insert x (set xs) \<Longrightarrow> b \<in> set xs \<Longrightarrow> cmp a b = cmp' (f a) (f b)"
  shows "map f (insert_by cmp x xs) = insert_by cmp' (f x) (map f xs)"
  using assms by (induction xs) auto

lemma map_sort_by:
  assumes "\<And>a b. a \<in> set xs \<Longrightarrow> b \<in> set xs \<Longrightarrow> cmp a b = cmp' (f a) (f b)"
  shows "map f (sort_by cmp xs) = sort_by cmp' (map f xs)"
  using assms
proof (induction xs)
  case (Cons x xs)
  have "map f (insert_by cmp x (sort_by cmp xs)) = insert_by cmp' (f x) (map f (sort_by cmp xs))"
    using Cons.prems by (intro map_insert_by) auto
  with Cons show ?case by simp
qed simp

section \<open>The comparator contract\<close>

locale total_cmp =
  fixes cmp :: "'a \<Rightarrow> 'a \<Rightarrow> ordering"
  assumes cmp_refl: "cmp x x = Equal"
    and cmp_rev: "cmp y x = reverse_ordering (cmp x y)"
    and cmp_trans: "cmp x y \<noteq> Greater \<Longrightarrow> cmp y z \<noteq> Greater \<Longrightarrow> cmp x z \<noteq> Greater"
begin

lemma cmp_linear: "cmp x y = Greater \<Longrightarrow> cmp y x \<noteq> Greater"
  by (simp add: cmp_rev [of y x])

lemma cmp_antisym: "cmp x y \<noteq> Greater \<Longrightarrow> cmp y x \<noteq> Greater \<Longrightarrow> cmp x y = Equal"
  by (cases "cmp x y") (simp_all add: cmp_rev [of y x])

lemma cmp_Equal_trans: "cmp x y = Equal \<Longrightarrow> cmp y z = Equal \<Longrightarrow> cmp x z = Equal"
  by (metis cmp_antisym cmp_rev cmp_trans ordering.distinct(5) reverse_ordering.simps(2))

lemma sorted_insert_by:
  "sorted_wrt (\<lambda>a b. cmp a b \<noteq> Greater) xs \<Longrightarrow>
   sorted_wrt (\<lambda>a b. cmp a b \<noteq> Greater) (insert_by cmp x xs)"
proof (induction xs)
  case (Cons y ys)
  have "set (insert_by cmp x ys) = insert x (set ys)"
    by (metis mset_insert_by set_mset_add_mset_insert set_mset_mset)
  with Cons show ?case
    by (auto simp: cmp_linear dest: cmp_trans)
qed simp

lemma sorted_sort_by: "sorted_wrt (\<lambda>a b. cmp a b \<noteq> Greater) (sort_by cmp xs)"
  by (induction xs) (simp_all add: sorted_insert_by)

lemma sorted_unique:
  assumes "sorted_wrt (\<lambda>a b. cmp a b \<noteq> Greater) xs"
    and "sorted_wrt (\<lambda>a b. cmp a b \<noteq> Greater) ys"
    and "mset xs = mset ys"
    and "\<And>a b. a \<in> set xs \<Longrightarrow> b \<in> set xs \<Longrightarrow> cmp a b = Equal \<Longrightarrow> a = b"
  shows "xs = ys"
  using assms
proof (induction xs arbitrary: ys)
  case (Cons x xs)
  then obtain y ys' where ys: "ys = y # ys'" by (cases ys) auto
  have sets: "set ys = insert x (set xs)" using Cons.prems(3) by (metis list.set(2) set_mset_mset)
  have "x = y \<or> (cmp x y \<noteq> Greater \<and> cmp y x \<noteq> Greater)"
    using Cons.prems(1,2) sets ys by auto
  then have "x = y" using Cons.prems(4) [of x y] cmp_antisym sets ys by auto
  moreover have "xs = ys'"
    using Cons.prems ys calculation by (intro Cons.IH) auto
  ultimately show ?case using ys by simp
qed simp

lemma sort_by_mset_cong:
  assumes "mset xs = mset ys"
    and "\<And>a b. a \<in> set xs \<Longrightarrow> b \<in> set xs \<Longrightarrow> cmp a b = Equal \<Longrightarrow> a = b"
  shows "sort_by cmp xs = sort_by cmp ys"
  using assms by (intro sorted_unique) (simp_all add: sorted_sort_by)

lemma sort_by_sorted: "sorted_wrt (\<lambda>a b. cmp a b \<noteq> Greater) xs \<Longrightarrow> sort_by cmp xs = xs"
proof (induction xs)
  case (Cons x xs)
  then show ?case by (cases xs) auto
qed simp

lemma sort_by_idem: "sort_by cmp (sort_by cmp xs) = sort_by cmp xs"
  by (simp add: sort_by_sorted sorted_sort_by)

lemma hd_sort_by_least:
  assumes "x \<in> set xs"
  shows "cmp (hd (sort_by cmp xs)) x \<noteq> Greater"
proof (cases "sort_by cmp xs")
  case Nil
  then show ?thesis using assms by (metis empty_iff empty_set set_sort_by)
next
  case (Cons y ys)
  then have "x = y \<or> x \<in> set ys" using assms set_sort_by [of cmp xs] by auto
  then show ?thesis using sorted_sort_by [of xs] Cons by (auto simp: cmp_refl)
qed

lemma sort_by_take:
  "sort_by cmp (take n (sort_by cmp xs)) = take n (sort_by cmp xs)"
  by (simp add: sort_by_sorted sorted_sort_by sorted_wrt_take)

end

locale strict_cmp = total_cmp +
  assumes cmp_separates: "cmp x y = Equal \<Longrightarrow> x = y"
begin

lemma cmp_eq_iff: "cmp x y = Equal \<longleftrightarrow> x = y"
  using cmp_refl cmp_separates by blast

lemma sort_by_mset: "mset xs = mset ys \<Longrightarrow> sort_by cmp xs = sort_by cmp ys"
  by (auto intro: sort_by_mset_cong cmp_separates)

lemma distinct_remdups_adj_sorted:
  "sorted_wrt (\<lambda>a b. cmp a b \<noteq> Greater) xs \<Longrightarrow> distinct (remdups_adj xs)"
proof (induction xs rule: remdups_adj.induct)
  case (3 x y xs)
  have "x \<notin> set xs" if "x \<noteq> y"
  proof
    assume "x \<in> set xs"
    then have "cmp x y \<noteq> Greater" "cmp y x \<noteq> Greater" using 3(3) by auto
    then show False using that cmp_antisym cmp_separates by blast
  qed
  with 3 show ?case by (auto split: if_splits)
qed simp_all

lemma sorted_remdups_adj:
  "sorted_wrt (\<lambda>a b. cmp a b \<noteq> Greater) xs \<Longrightarrow>
   sorted_wrt (\<lambda>a b. cmp a b \<noteq> Greater) (remdups_adj xs)"
  by (induction xs rule: remdups_adj.induct) auto

text \<open>Sorting and deduplicating compares two lists as sets.\<close>

lemma sort_dedup_eq_iff:
  "remdups_adj (sort_by cmp xs) = remdups_adj (sort_by cmp ys) \<longleftrightarrow> set xs = set ys"
proof
  assume "set xs = set ys"
  then have "mset (remdups_adj (sort_by cmp xs)) = mset (remdups_adj (sort_by cmp ys))"
    by (simp add: set_eq_iff_mset_eq_distinct [symmetric] distinct_remdups_adj_sorted sorted_sort_by)
  then show "remdups_adj (sort_by cmp xs) = remdups_adj (sort_by cmp ys)"
    by (intro sorted_unique) (auto simp: sorted_remdups_adj sorted_sort_by intro: cmp_separates)
qed (metis remdups_adj_set set_sort_by)

lemma sort_by_eq_iff_mset: "sort_by cmp xs = sort_by cmp ys \<longleftrightarrow> mset xs = mset ys"
  by (metis mset_sort_by sort_by_mset)

end

text \<open>Comparators are built by keys and tie-breaks; the contract is closed under both.\<close>

lemma strict_cmp_ord: "strict_cmp (ord_cmp :: 'a::linorder \<Rightarrow> 'a \<Rightarrow> ordering)"
  by unfold_locales (auto simp: ord_cmp_def split: if_splits)

interpretation byte_order: strict_cmp "ord_cmp :: bytes \<Rightarrow> bytes \<Rightarrow> ordering"
  by (rule strict_cmp_ord)

lemma total_cmp_ord: "total_cmp (ord_cmp :: 'a::linorder \<Rightarrow> 'a \<Rightarrow> ordering)"
  using strict_cmp_ord by (rule strict_cmp.axioms)

lemma total_cmp_key:
  assumes "total_cmp c"
  shows "total_cmp (\<lambda>x y. c (f x) (f y))"
  using assms unfolding total_cmp_def by blast

lemma total_cmp_reversed:
  assumes "total_cmp c"
  shows "total_cmp (\<lambda>x y. c y x)"
proof (rule total_cmp.intro)
  show "c x y = reverse_ordering (c y x)" for x y
    by (rule total_cmp.cmp_rev [OF assms])
  show "c x x = Equal" for x
    by (rule total_cmp.cmp_refl [OF assms])
  show "c y x \<noteq> Greater \<Longrightarrow> c z y \<noteq> Greater \<Longrightarrow> c z x \<noteq> Greater" for x y z
    by (rule total_cmp.cmp_trans [OF assms])
qed

lemma total_cmp_then:
  assumes c: "total_cmp c" and d: "total_cmp d"
  shows "total_cmp (\<lambda>x y. then_with (c x y) (d x y))"
proof
  show "then_with (c x x) (d x x) = Equal" for x
    by (simp add: total_cmp.cmp_refl [OF c] total_cmp.cmp_refl [OF d])
  show "then_with (c y x) (d y x) = reverse_ordering (then_with (c x y) (d x y))" for x y
    by (simp add: total_cmp.cmp_rev [OF c, of y x] total_cmp.cmp_rev [OF d, of y x])
  fix x y z
  assume "then_with (c x y) (d x y) \<noteq> Greater" "then_with (c y z) (d y z) \<noteq> Greater"
  then have c': "c x y \<noteq> Greater" "c y z \<noteq> Greater"
    and d': "c x y = Equal \<Longrightarrow> d x y \<noteq> Greater" "c y z = Equal \<Longrightarrow> d y z \<noteq> Greater"
    by (auto simp: then_with_eq_Greater)
  have "c x y = Equal \<and> c y z = Equal" if "c x z = Equal"
  proof -
    have "c z x = Equal" using that total_cmp.cmp_rev [OF c, of z x] by simp
    then show ?thesis
      using c' that total_cmp.cmp_antisym [OF c] total_cmp.cmp_trans [OF c]
      by (metis ordering.distinct(5))
  qed
  then show "then_with (c x z) (d x z) \<noteq> Greater"
    using c' d' total_cmp.cmp_trans [OF c, of x y z] total_cmp.cmp_trans [OF d, of x y z]
    by (auto simp: then_with_eq_Greater)
qed

lemma total_cmp_key_ord: "total_cmp (\<lambda>x y. ord_cmp (f x) (f y))"
  by (rule total_cmp_key [OF total_cmp_ord])

lemma total_cmp_key_ord_rev: "total_cmp (\<lambda>x y. ord_cmp (f y) (f x))"
  by (rule total_cmp_reversed [OF total_cmp_key_ord])

lemma strict_cmp_key_then:
  assumes "total_cmp c"
  shows "strict_cmp (\<lambda>x y. then_with (c (f x) (f y)) (ord_cmp x y))"
  using total_cmp_then [OF total_cmp_key [OF assms] total_cmp_ord]
  by (auto simp: strict_cmp_def strict_cmp_axioms_def)

end
