(* ===== verification/Messages.thy ===== *)
theory Messages
  imports Ordering
begin

text \<open>
  The data every part of the library exchanges: the error types (\<^verbatim>\<open>error.rs\<close>,
  \<^verbatim>\<open>mls_crypto/error.rs\<close>), the protobuf messages (\<^verbatim>\<open>protos/messages/v1\<close> and the
  consensus messages), the request constructors and the proposal classification
  (\<^verbatim>\<open>protos.rs\<close>, \<^verbatim>\<open>proposal_kind.rs\<close>), violation evidence and its score events
  (\<^verbatim>\<open>process_result.rs\<close>, \<^verbatim>\<open>peer_scoring/types.rs\<close>), member identifiers
  (\<^verbatim>\<open>mls_crypto/member_id.rs\<close>), the MLS operation results (\<^verbatim>\<open>mls_crypto/types.rs\<close>)
  and the shared helpers (\<^verbatim>\<open>conversation/util.rs\<close>).

  A message with a single field is represented by that field. SHA-256, the TLS decoder
  of key packages and the protobuf codec belong to other crates; they are the fields of
  the parameter record \<open>externals\<close>, and no property is assumed of them unless a theorem
  says so.
\<close>

section \<open>Errors\<close>

datatype mls_error =
    KeyPackageTls string
  | MlsMessageDeserialize string
  | ProtocolMessageError string
  | MlsMessageSerialize string
  | ProcessMessage string
  | CreateMessage string
  | MergeCommit string
  | MergePendingCommit string
  | CommitToPendingProposals string
  | ProposeAddMember string
  | ProposeRemoveMember string
  | NewGroup string
  | WelcomeError string
  | MlsStorage string
  | NoPendingStagedCommit string
  | UnknownLeafIndex u32

text \<open>The variants of the consensus crate's error that the source distinguishes.\<close>

datatype consensus_error =
    UserAlreadyVoted
  | SessionNotActive
  | SessionNotFound
  | ProposalExpired
  | ProposalAlreadyExist
  | OtherConsensusError string

datatype conversation_error =
    ConversationBlocked string
  | PartialFreeze
  | Mls mls_error
  | Consensus consensus_error
  | Message string
  | ScoreStorage string
  | NotASteward
  | NotInRecovery
  | NoProposals
  | InvalidConversationUpdateRequest
  | EmptyMembersList
  | MemberGone
  | AlreadyMember
  | InvalidConfigSize
  | InvalidConfig string
  | UnexpectedNonMlsProposals "u32 list"

section \<open>Protobuf messages\<close>

record consensus_vote =
  cv_vote_id :: u32
  cv_vote_owner :: bytes
  cv_proposal_id :: u32
  cv_timestamp :: u64
  cv_vote :: bool
  cv_parent_hash :: bytes
  cv_received_hash :: bytes
  cv_vote_hash :: bytes
  cv_signature :: bytes

record consensus_proposal =
  cp_name :: string
  cp_payload :: bytes
  cp_proposal_id :: u32
  cp_proposal_owner :: bytes
  cp_votes :: "consensus_vote list"
  cp_expected_voters_count :: u32
  cp_round :: u32
  cp_timestamp :: u64
  cp_expiration_timestamp :: u64
  cp_liveness_criteria_yes :: bool

datatype violation_type =
    ViolationUnspecified | BrokenCommitViolation | BrokenMlsProposalViolation
  | CensorshipInactivityViolation | ScoreBelowThreshold | Deadlock | MisbehavingCommitViolation

text \<open>The wire carries the type as an integer; unknown values are an error.\<close>

fun violation_code :: "violation_type \<Rightarrow> int" where
  "violation_code ViolationUnspecified = 0"
| "violation_code BrokenCommitViolation = 1"
| "violation_code BrokenMlsProposalViolation = 2"
| "violation_code CensorshipInactivityViolation = 3"
| "violation_code ScoreBelowThreshold = 4"
| "violation_code Deadlock = 5"
| "violation_code MisbehavingCommitViolation = 6"

definition violation_try_from :: "int \<Rightarrow> violation_type option" where
  "violation_try_from n =
     (if n = 0 then Some ViolationUnspecified
      else if n = 1 then Some BrokenCommitViolation
      else if n = 2 then Some BrokenMlsProposalViolation
      else if n = 3 then Some CensorshipInactivityViolation
      else if n = 4 then Some ScoreBelowThreshold
      else if n = 5 then Some Deadlock
      else if n = 6 then Some MisbehavingCommitViolation
      else None)"

lemma violation_try_from_code [simp]: "violation_try_from (violation_code v) = Some v"
  by (cases v) (simp_all add: violation_try_from_def)

record violation_evidence =
  ve_violation_type :: int
  ve_target_member_id :: bytes
  ve_evidence_payload :: bytes
  ve_epoch :: u64
  ve_creator_member_id :: bytes

record steward_election_proposal =
  se_proposed_stewards :: "bytes list"
  se_election_epoch :: u64
  se_retry_round :: u32

datatype request_payload =
    MemberInvite bytes
  | RemoveMember bytes
  | EmergencyCriteria "violation_evidence option"
  | StewardElection steward_election_proposal

type_synonym conversation_update_request = "request_payload option"

record commit_candidate =
  cc_conversation_id :: bytes
  cc_mls_proposals :: "bytes list"
  cc_commit_message :: bytes
  cc_steward_member_id :: bytes

record member_welcome =
  mw_welcome_bytes :: bytes
  mw_conversation_sync_bytes :: bytes
  mw_joiner_identities :: "bytes list"

record timing_config =
  tc_commit_batch_window_ms :: u64
  tc_freeze_duration_ms :: u64
  tc_proposal_expiration_ms :: u64
  tc_consensus_timeout_ms :: u64
  tc_retry_window_ms :: u64
  tc_backup_takeover_window_ms :: u64

record conversation_sync =
  sy_steward_members :: "bytes list"
  sy_election_epoch :: u64
  sy_sn_min :: u32
  sy_sn_max :: u32
  sy_allow_subset_candidates :: bool
  sy_peer_scores :: "(bytes \<times> i64) list"
  sy_timing :: "timing_config option"
  sy_retry_round :: u32
  sy_max_reelection_attempts :: u32
  sy_liveness_criteria_yes :: bool
  sy_threshold_peer_score :: i64
  sy_pending_update_max_epochs :: u32
  sy_unsettled_members :: "bytes list"
  sy_default_peer_score :: i64

datatype app_payload =
    ConversationMessage bytes string
  | BanRequest bytes string
  | ProposalPayload consensus_proposal
  | VoteMessage consensus_vote
  | VotePayload string u32 bytes u64
  | UserVote u32 bool string
  | ProposalAdded string "conversation_update_request option"
  | CommitCandidatePayload commit_candidate
  | ConversationSyncPayload conversation_sync
  | MemberWelcomePayload member_welcome
  | MembershipChange string bytes int
  | ConversationSyncRequest

type_synonym app_message = "app_payload option"

section \<open>Code of other crates\<close>

text \<open>
  SHA-256; the TLS decoding of a key package, with the signature key its leaf
  carries; the protobuf codec of the two messages the library encodes itself.
\<close>

record externals =
  x_sha256 :: "bytes \<Rightarrow> bytes"
  x_key_package_in :: "bytes \<Rightarrow> string + bytes"
  x_encode_app :: "app_message \<Rightarrow> bytes"
  x_decode_app :: "bytes \<Rightarrow> string + app_message"
  x_encode_request :: "conversation_update_request \<Rightarrow> bytes"
  x_decode_request :: "bytes \<Rightarrow> string + conversation_update_request"

text \<open>A concrete instance, on which the examples are evaluated.\<close>

definition demo_externals :: externals where
  "demo_externals =
     \<lparr>x_sha256 = (\<lambda>b. replicate 4 (sum_list b) @ b), x_key_package_in = (\<lambda>b. Inr b),
      x_encode_app = (\<lambda>_. []), x_decode_app = (\<lambda>_. Inl ''decode''),
      x_encode_request = (\<lambda>_. []), x_decode_request = (\<lambda>_. Inl ''decode'')\<rparr>"

definition signature_key_of_key_package :: "externals \<Rightarrow> bytes \<Rightarrow> mls_error + bytes" where
  "signature_key_of_key_package x key_package_bytes =
     (case x_key_package_in x key_package_bytes of
        Inl e \<Rightarrow> Inl (KeyPackageTls e)
      | Inr signature_key \<Rightarrow> Inr signature_key)"

section \<open>Request constructors and classification\<close>

definition remove_member_request :: "bytes \<Rightarrow> conversation_update_request" where
  "remove_member_request member_id = Some (RemoveMember member_id)"

definition member_invite_request :: "bytes \<Rightarrow> conversation_update_request" where
  "member_invite_request invite = Some (MemberInvite invite)"

definition steward_election_request ::
  "steward_election_proposal \<Rightarrow> conversation_update_request" where
  "steward_election_request election = Some (StewardElection election)"

fun produces_mls_action :: "conversation_update_request \<Rightarrow> bool" where
  "produces_mls_action (Some (MemberInvite _)) = True"
| "produces_mls_action (Some (RemoveMember _)) = True"
| "produces_mls_action _ = False"

datatype proposal_kind = CommitKind | StewardElectionKind | EmergencyKind

fun proposal_kind_ord :: "proposal_kind \<Rightarrow> nat" where
  "proposal_kind_ord CommitKind = 0"
| "proposal_kind_ord StewardElectionKind = 1"
| "proposal_kind_ord EmergencyKind = 2"

text \<open>The derived order of the enum: its discriminants.\<close>

instantiation proposal_kind :: linorder
begin

definition less_eq_proposal_kind :: "proposal_kind \<Rightarrow> proposal_kind \<Rightarrow> bool" where
  "less_eq_proposal_kind a b \<longleftrightarrow> proposal_kind_ord a \<le> proposal_kind_ord b"

definition less_proposal_kind :: "proposal_kind \<Rightarrow> proposal_kind \<Rightarrow> bool" where
  "less_proposal_kind a b \<longleftrightarrow> proposal_kind_ord a < proposal_kind_ord b"

instance
proof
  show "a = b" if "a \<le> b" "b \<le> a" for a b :: proposal_kind
    using that by (cases a; cases b) (simp_all add: less_eq_proposal_kind_def)
qed (auto simp: less_eq_proposal_kind_def less_proposal_kind_def)

end

fun proposal_kind_of :: "conversation_update_request \<Rightarrow> proposal_kind" where
  "proposal_kind_of (Some (EmergencyCriteria _)) = EmergencyKind"
| "proposal_kind_of (Some (StewardElection _)) = StewardElectionKind"
| "proposal_kind_of _ = CommitKind"

definition is_emergency :: "proposal_kind \<Rightarrow> bool" where
  "is_emergency k \<longleftrightarrow> k = EmergencyKind"

definition is_steward_election :: "proposal_kind \<Rightarrow> bool" where
  "is_steward_election k \<longleftrightarrow> k = StewardElectionKind"

definition is_mls_producing :: "proposal_kind \<Rightarrow> bool" where
  "is_mls_producing k \<longleftrightarrow> k = CommitKind"

definition is_governance :: "proposal_kind \<Rightarrow> bool" where
  "is_governance k \<longleftrightarrow> \<not> is_mls_producing k"

lemma produces_mls_action_kind: "produces_mls_action r \<Longrightarrow> is_mls_producing (proposal_kind_of r)"
  by (cases r rule: produces_mls_action.cases) (simp_all add: is_mls_producing_def)

section \<open>Score events and violation evidence\<close>

datatype score_event =
    BrokenCommit | BrokenMlsProposal | CensorshipInactivity
  | EmergencyYesCreator | EmergencyNoCreator
  | SuccessfulCommit | HonestCommitAttempt | MisbehavingCommit

record score_op =
  op_member_id :: bytes
  op_event :: score_event

text \<open>String literals become their bytes; \<^verbatim>\<open>i64::to_le_bytes\<close>.\<close>

definition string_bytes :: "string \<Rightarrow> bytes" where
  "string_bytes = map of_char"

definition i64_to_le_bytes :: "i64 \<Rightarrow> bytes" where
  "i64_to_le_bytes v = map (\<lambda>i. word_of_int (v div 2 ^ (8 * i))) [0..<8]"

definition violation_evidence_of ::
  "violation_type \<Rightarrow> bytes \<Rightarrow> u64 \<Rightarrow> bytes \<Rightarrow> violation_evidence" where
  "violation_evidence_of v target epoch payload =
     \<lparr>ve_violation_type = violation_code v, ve_target_member_id = target,
      ve_evidence_payload = payload, ve_epoch = epoch, ve_creator_member_id = []\<rparr>"

definition broken_commit :: "bytes \<Rightarrow> u64 \<Rightarrow> bytes \<Rightarrow> violation_evidence" where
  "broken_commit = violation_evidence_of BrokenCommitViolation"

definition broken_mls_proposal :: "bytes \<Rightarrow> u64 \<Rightarrow> bytes \<Rightarrow> violation_evidence" where
  "broken_mls_proposal = violation_evidence_of BrokenMlsProposalViolation"

definition score_below_threshold :: "bytes \<Rightarrow> u64 \<Rightarrow> i64 \<Rightarrow> violation_evidence" where
  "score_below_threshold target epoch current_score =
     violation_evidence_of ScoreBelowThreshold target epoch (i64_to_le_bytes current_score)"

definition misbehaving_commit :: "bytes \<Rightarrow> u64 \<Rightarrow> bytes \<Rightarrow> violation_evidence" where
  "misbehaving_commit = violation_evidence_of MisbehavingCommitViolation"

definition deadlock_evidence :: "u64 \<Rightarrow> violation_evidence" where
  "deadlock_evidence epoch = violation_evidence_of Deadlock [] epoch []"

definition with_creator :: "bytes \<Rightarrow> violation_evidence \<Rightarrow> violation_evidence" where
  "with_creator creator ev = ev\<lparr>ve_creator_member_id := creator\<rparr>"

definition into_update_request ::
  "violation_evidence \<Rightarrow> conversation_error + conversation_update_request" where
  "into_update_request ev =
     (if ve_creator_member_id ev = [] then Inl InvalidConversationUpdateRequest
      else Inr (Some (EmergencyCriteria (Some ev))))"

definition target_score_event :: "violation_evidence \<Rightarrow> score_event option" where
  "target_score_event ev =
     (case violation_try_from (ve_violation_type ev) of
        Some BrokenCommitViolation \<Rightarrow> Some BrokenCommit
      | Some BrokenMlsProposalViolation \<Rightarrow> Some BrokenMlsProposal
      | Some CensorshipInactivityViolation \<Rightarrow> Some CensorshipInactivity
      | Some MisbehavingCommitViolation \<Rightarrow> Some MisbehavingCommit
      | _ \<Rightarrow> None)"

definition target_score_op :: "violation_evidence \<Rightarrow> score_op option" where
  "target_score_op ev =
     (case target_score_event ev of
        None \<Rightarrow> None
      | Some e \<Rightarrow> Some \<lparr>op_member_id = ve_target_member_id ev, op_event = e\<rparr>)"

section \<open>Members and MLS operation results\<close>

text \<open>OpenMLS's \<^verbatim>\<open>Member\<close>; the leaf index is a \<^verbatim>\<open>u32\<close>.\<close>

record member =
  mbr_index :: u32
  mbr_credential :: bytes
  mbr_encryption_key :: bytes
  mbr_signature_key :: bytes

record member_id =
  mid_leaf :: u32
  mid_tag :: bytes

definition member_id_from :: "member \<Rightarrow> member_id" where
  "member_id_from m = \<lparr>mid_leaf = mbr_index m, mid_tag = mbr_signature_key m\<rparr>"

definition member_id_of :: "u32 \<Rightarrow> bytes" where
  "member_id_of index = u32_to_be_bytes index"

definition leaf_index_of :: "bytes \<Rightarrow> u32 option" where
  "leaf_index_of member_id = u32_from_be_bytes member_id"

record membership_delta =
  md_added :: "member list"
  md_removed :: "member_id list"

definition empty_delta :: membership_delta where
  "empty_delta = \<lparr>md_added = [], md_removed = []\<rparr>"

datatype mls_commit_input = AddInput bytes | RemoveInput bytes

datatype mls_proposal_output = AddOutput bytes | RemoveOutput bytes

datatype mls_message_kind = ProposalMessageKind | CommitMessageKind | OtherMessageKind

record decrypted_message =
  dm_payload :: bytes
  dm_member :: member

datatype staged_candidate_result =
    Staged (staged_sender: bytes) (staged_self_removed: bool)
      (staged_actions: "mls_proposal_output list")
  | Aborted
  | BundleSenderMismatch bytes

record commit_artifacts =
  ca_proposals :: "bytes list"
  ca_commit :: bytes
  ca_welcome :: "bytes option"

section \<open>Outcomes of processing a packet\<close>

datatype noop_reason =
    UnknownAppMessage | FastPathRejected | BanTargetNotMember | DecryptIgnored
  | NoApprovedProposals | AlreadyCommitted | EmptyCandidatePayload | EmptyStewardMemberId
  | WireKindMismatch | DuplicateBufferedHash | CandidateBufferFull | CandidateStashedEarly
  | EmptyWelcomePayload | DuplicateWelcomeBroadcast

datatype process_result =
    AppMessageResult app_message member
  | ProposalResult consensus_proposal
  | VoteResult consensus_vote
  | LeaveConversation
  | MembershipChangeReceived conversation_update_request
  | ConversationUpdated
  | CommitCandidateReceived bytes
  | ConversationSyncReceived conversation_sync
  | ConversationSyncRequested bytes
  | WelcomeBroadcastReceived member_welcome
  | Noop noop_reason

text \<open>\<^verbatim>\<open>TryFrom<AppMessage>\<close>; it never fails.\<close>

fun process_result_of_app :: "app_message \<Rightarrow> process_result" where
  "process_result_of_app (Some (ProposalPayload proposal)) = ProposalResult proposal"
| "process_result_of_app (Some (VoteMessage vote)) = VoteResult vote"
| "process_result_of_app (Some (BanRequest member_id _)) =
     MembershipChangeReceived (remove_member_request member_id)"
| "process_result_of_app (Some (ConversationSyncPayload sync)) = ConversationSyncReceived sync"
| "process_result_of_app _ = Noop UnknownAppMessage"

datatype consensus_event =
    ConsensusReached u32 bool u64
  | ConsensusFailed u32 u64

datatype vote_outcome = OutcomeUnspecified | OutcomeAccepted | OutcomeRejected

fun outcome_of_event :: "consensus_event \<Rightarrow> vote_outcome" where
  "outcome_of_event (ConsensusReached _ True _) = OutcomeAccepted"
| "outcome_of_event (ConsensusReached _ False _) = OutcomeRejected"
| "outcome_of_event (ConsensusFailed _ _) = OutcomeUnspecified"

section \<open>Cross-cutting helpers\<close>

text \<open>The first four bytes of the digest; a digest shorter than that would be a panic.\<close>

definition self_leave_proposal_id :: "externals \<Rightarrow> bytes \<Rightarrow> u32" where
  "self_leave_proposal_id x member_id =
     (case u32_from_be_bytes (take 4 (x_sha256 x member_id)) of Some w \<Rightarrow> w | None \<Rightarrow> 0)"

fun target_member_id_of :: "externals \<Rightarrow> conversation_update_request \<Rightarrow> bytes option" where
  "target_member_id_of x (Some (MemberInvite kp)) = result_ok (signature_key_of_key_package x kp)"
| "target_member_id_of x (Some (RemoveMember m)) = Some m"
| "target_member_id_of x _ = None"

definition in_flight_target :: "externals \<Rightarrow> conversation_update_request \<Rightarrow> bytes option" where
  "in_flight_target x request =
     (case target_member_id_of x request of
        Some i \<Rightarrow> Some i
      | None \<Rightarrow>
         (case request of
            Some (EmergencyCriteria (Some ev)) \<Rightarrow>
              (if violation_try_from (ve_violation_type ev) = Some ScoreBelowThreshold
               then Some (ve_target_member_id ev) else None)
          | _ \<Rightarrow> None))"

text \<open>Laws of the member-id encoding: a 4-byte round trip, injective, total on leaves.\<close>

lemma leaf_index_of_member_id_of [simp]: "leaf_index_of (member_id_of i) = Some i"
  by (simp add: leaf_index_of_def member_id_of_def)

lemma member_id_of_inj [simp]: "member_id_of i = member_id_of j \<longleftrightarrow> i = j"
  by (metis leaf_index_of_member_id_of option.inject)

lemma leaf_index_of_Some_iff: "leaf_index_of b = Some i \<longleftrightarrow> b = member_id_of i"
  by (auto simp: leaf_index_of_def member_id_of_def dest: u32_from_be_bytes_Some)

lemma leaf_index_of_length: "leaf_index_of b = Some i \<Longrightarrow> length b = 4"
  by (metis leaf_index_of_def option.distinct(1) u32_from_be_bytes_None)

end
