(* ===== verification/Commit_Buffer.thy ===== *)
theory Commit_Buffer
  imports Messages
begin

text \<open>
  The commit-round candidate buffer, \<^verbatim>\<open>src/commit_round/buffer.rs\<close>, with the commit hash
  of \<^verbatim>\<open>round.rs\<close>. The invariant: one candidate per commit hash, each stored under the hash
  of its own commit message.
\<close>

type_synonym commit_hash = bytes

definition compute_commit_hash :: "externals \<Rightarrow> bytes \<Rightarrow> commit_hash" where
  "compute_commit_hash x commit_message = x_sha256 x commit_message"

record buffered_commit_candidate =
  bc_candidate_msg :: commit_candidate
  bc_commit_hash :: commit_hash
  bc_is_local_candidate :: bool
  bc_welcome_bytes :: "bytes option"
  bc_joiner_identities :: "bytes list"

record commit_round_buffer =
  cb_epoch :: u64
  cb_candidates :: "buffered_commit_candidate list"

definition commit_round_buffer_default :: commit_round_buffer where
  "commit_round_buffer_default = \<lparr>cb_epoch = 0, cb_candidates = []\<rparr>"

datatype commit_buffer_outcome = Buffered | DuplicateHash | CapReached

definition buffer_add ::
  "externals \<Rightarrow> commit_candidate \<Rightarrow> bool \<Rightarrow> bytes option \<Rightarrow> bytes list \<Rightarrow> u64 \<Rightarrow> nat \<Rightarrow>
   commit_round_buffer \<Rightarrow> commit_buffer_outcome \<times> commit_round_buffer" where
  "buffer_add x candidate is_local welcome joiners epoch max_candidates buf =
     (let buf1 = (if cb_epoch buf \<noteq> epoch then \<lparr>cb_epoch = epoch, cb_candidates = []\<rparr> else buf);
          h = compute_commit_hash x (cc_commit_message candidate)
      in if list_ex (\<lambda>c. bc_commit_hash c = h) (cb_candidates buf1) then (DuplicateHash, buf1)
         else if length (cb_candidates buf1) \<ge> max_candidates then (CapReached, buf1)
         else (Buffered,
               buf1\<lparr>cb_candidates := cb_candidates buf1 @
                     [\<lparr>bc_candidate_msg = candidate, bc_commit_hash = h,
                       bc_is_local_candidate = is_local, bc_welcome_bytes = welcome,
                       bc_joiner_identities = joiners\<rparr>]\<rparr>))"

definition candidate_count :: "commit_round_buffer \<Rightarrow> nat" where
  "candidate_count buf = length (cb_candidates buf)"

definition has_local_candidate :: "commit_round_buffer \<Rightarrow> bool" where
  "has_local_candidate buf = list_ex bc_is_local_candidate (cb_candidates buf)"

definition local_candidate_bytes :: "externals \<Rightarrow> commit_round_buffer \<Rightarrow> bytes option" where
  "local_candidate_bytes x buf =
     (case find bc_is_local_candidate (cb_candidates buf) of
        None \<Rightarrow> None
      | Some c \<Rightarrow> Some (x_encode_app x (Some (CommitCandidatePayload (bc_candidate_msg c)))))"

definition buffer_clear :: "commit_round_buffer \<Rightarrow> commit_round_buffer" where
  "buffer_clear buf = buf\<lparr>cb_candidates := []\<rparr>"

definition buffer_take ::
  "u64 \<Rightarrow> commit_round_buffer \<Rightarrow> buffered_commit_candidate list \<times> commit_round_buffer" where
  "buffer_take epoch buf =
     (if cb_epoch buf \<noteq> epoch then ([], buf)
      else (cb_candidates buf, buf\<lparr>cb_candidates := []\<rparr>))"

fun into_process_result :: "commit_buffer_outcome \<Rightarrow> bytes \<Rightarrow> process_result" where
  "into_process_result Buffered steward_id = CommitCandidateReceived steward_id"
| "into_process_result DuplicateHash _ = Noop DuplicateBufferedHash"
| "into_process_result CapReached _ = Noop CandidateBufferFull"

section \<open>Invariant\<close>

definition buffer_inv :: "externals \<Rightarrow> commit_round_buffer \<Rightarrow> bool" where
  "buffer_inv x buf \<longleftrightarrow>
     distinct (map bc_commit_hash (cb_candidates buf)) \<and>
     list_all (\<lambda>c. bc_commit_hash c = compute_commit_hash x (cc_commit_message (bc_candidate_msg c)))
       (cb_candidates buf)"

lemma buffer_inv_default [simp]: "buffer_inv x commit_round_buffer_default"
  by (simp add: buffer_inv_def commit_round_buffer_default_def)

lemma buffer_inv_add:
  "buffer_inv x buf \<Longrightarrow> buffer_inv x (snd (buffer_add x c l w j e n buf))"
  by (auto simp: buffer_add_def buffer_inv_def Let_def list_ex_iff)

lemma buffer_inv_take:
  "buffer_inv x buf \<Longrightarrow> buffer_inv x (snd (buffer_take e buf))"
  by (simp add: buffer_take_def buffer_inv_def)

lemma buffer_inv_clear [simp]: "buffer_inv x (buffer_clear buf)"
  by (simp add: buffer_clear_def buffer_inv_def)

lemma buffer_take_inv:
  "buffer_inv x buf \<Longrightarrow> distinct (map bc_commit_hash (fst (buffer_take e buf)))"
  by (simp add: buffer_take_def buffer_inv_def)

section \<open>Properties\<close>

text \<open>
  Buffering a candidate for an epoch: candidates of another epoch are dropped first;
  within the epoch the buffer never holds two candidates with the same commit hash and never
  grows beyond the cap; an accepted candidate goes last and is returned by taking the epoch.
\<close>

theorem buffer_add_dedup_and_cap:
  assumes "buffer_inv x buf" and "buffer_add x c is_local w j epoch cap buf = (outcome, buf')"
  shows "buffer_inv x buf' \<and> cb_epoch buf' = epoch \<and>
    (let old = (if cb_epoch buf = epoch then cb_candidates buf else []);
         seen = compute_commit_hash x (cc_commit_message c) \<in> set (map bc_commit_hash old)
     in outcome = (if seen then DuplicateHash else if cap \<le> length old then CapReached else Buffered) \<and>
        (outcome = Buffered \<longrightarrow> length (cb_candidates buf') \<le> cap) \<and>
        map bc_candidate_msg (fst (buffer_take epoch buf')) =
          map bc_candidate_msg old @ (if outcome = Buffered then [c] else []))"
proof -
  have "buffer_inv x buf'"
    using buffer_inv_add [OF assms(1), of c is_local w j epoch cap] assms(2) by simp
  then show ?thesis using assms(2)
    by (auto simp: buffer_add_def Let_def buffer_take_def list_ex_iff image_iff split: if_splits)
qed

definition demo_candidate :: "byte \<Rightarrow> byte \<Rightarrow> commit_candidate" where
  "demo_candidate steward n =
     \<lparr>cc_conversation_id = [], cc_mls_proposals = [[n]], cc_commit_message = [n],
      cc_steward_member_id = [steward]\<rparr>"

theorem buffer_add_dedup_and_cap_witness:
  "\<exists>buf'. buffer_add demo_externals (demo_candidate 1 7) False None [] 3 1 commit_round_buffer_default =
     (Buffered, buf') \<and> buffer_inv demo_externals buf' \<and> cb_epoch buf' = 3"
proof -
  let ?r = "buffer_add demo_externals (demo_candidate 1 7) False None [] 3 1 commit_round_buffer_default"
  have r: "?r = (Buffered, snd ?r)" by code_simp
  show ?thesis using r buffer_add_dedup_and_cap [OF buffer_inv_default r] by blast
qed

end
