(* ===== verification/Queues.thy ===== *)
theory Queues
  imports Commit_Buffer
begin

text \<open>
  The per-conversation protocol queues, \<^verbatim>\<open>src/conversation/queues.rs\<close>: approved and
  voting proposals, active emergencies, buffered membership updates, early candidates, join
  epochs, the membership delta of the last merge, and the bounded dedup windows.

  The locale \<open>dedup_window\<close> is the contract of the windows behind commit, welcome and
  consensus-outcome deduplication; it is interpreted on the bounded set. \<open>queues_inv\<close> is
  the invariant of the queues, kept by every operation.
\<close>

section \<open>Bounded insertion-ordered sets\<close>

record 'a bounded_set =
  bs_items :: "'a list"
  bs_capacity :: nat

definition bs_new :: "nat \<Rightarrow> 'a bounded_set" where
  "bs_new capacity = \<lparr>bs_items = [], bs_capacity = max capacity 1\<rparr>"

definition bs_contains :: "'a bounded_set \<Rightarrow> 'a \<Rightarrow> bool" where
  "bs_contains s item = List.member (bs_items s) item"

text \<open>The eviction loop: drop the oldest entry while over capacity.\<close>

fun bs_evict :: "nat \<Rightarrow> 'a list \<Rightarrow> 'a list" where
  "bs_evict capacity [] = []"
| "bs_evict capacity (x # xs) =
     (if length (x # xs) > capacity then bs_evict capacity xs else x # xs)"

definition bs_insert :: "'a \<Rightarrow> 'a bounded_set \<Rightarrow> bool \<times> 'a bounded_set" where
  "bs_insert item s =
     (if List.member (bs_items s) item then (False, s)
      else (True, s\<lparr>bs_items := bs_evict (bs_capacity s) (bs_items s @ [item])\<rparr>))"

definition bs_ok :: "'a bounded_set \<Rightarrow> bool" where
  "bs_ok s \<longleftrightarrow> distinct (bs_items s) \<and> 0 < bs_capacity s \<and> length (bs_items s) \<le> bs_capacity s"

lemma bs_evict_eq: "bs_evict c xs = drop (length xs - c) xs"
  by (induction xs) (auto simp: Suc_diff_le not_less drop_Cons')

lemma bs_ok_new [simp]: "bs_ok (bs_new c)"
  by (simp add: bs_ok_def bs_new_def)

locale dedup_window =
  fixes contains :: "'w \<Rightarrow> 'a \<Rightarrow> bool"
    and add :: "'a \<Rightarrow> 'w \<Rightarrow> bool \<times> 'w"
    and window :: "'w \<Rightarrow> 'a list"
    and capacity :: "'w \<Rightarrow> nat"
    and ok :: "'w \<Rightarrow> bool"
  assumes contains_iff: "contains w a \<longleftrightarrow> a \<in> set (window w)"
    and add_known: "a \<in> set (window w) \<Longrightarrow> add a w = (False, w)"
    and add_fresh: "a \<notin> set (window w) \<Longrightarrow> fst (add a w) \<and>
      window (snd (add a w)) = drop (Suc (length (window w)) - capacity w) (window w @ [a])"
    and capacity_add: "capacity (snd (add a w)) = capacity w"
    and ok_add: "ok w \<Longrightarrow> ok (snd (add a w))"
    and ok_capacity: "ok w \<Longrightarrow> 0 < capacity w \<and> length (window w) \<le> capacity w"
begin

text \<open>Record a sequence of items.\<close>

primrec add_all :: "'a list \<Rightarrow> 'w \<Rightarrow> 'w" where
  "add_all [] w = w"
| "add_all (a # as) w = add_all as (snd (add a w))"

lemma added_is_contained:
  assumes "ok w"
  shows "contains (snd (add a w)) a"
proof (cases "a \<in> set (window w)")
  case False
  have "Suc (length (window w)) - capacity w \<le> length (window w)"
    using ok_capacity [OF assms] by linarith
  then show ?thesis using add_fresh [OF False] by (simp add: contains_iff)
qed (simp add: add_known contains_iff)

lemma ok_add_all: "ok w \<Longrightarrow> ok (add_all as w)"
  by (induction as arbitrary: w) (auto intro: ok_add)

lemma capacity_add_all: "capacity (add_all as w) = capacity w"
  by (induction as arbitrary: w) (simp_all add: capacity_add)

text \<open>An item with fewer than \<open>k\<close> entries after it survives as long as fewer than
  \<open>capacity - k\<close> items are recorded.\<close>

lemma add_keeps_recent:
  assumes "ok w" "window w = us @ a # vs" "length vs + 1 < capacity w"
  shows "\<exists>us' vs'. window (snd (add b w)) = us' @ a # vs' \<and> length vs' \<le> length vs + 1"
proof (cases "b \<in> set (window w)")
  case True
  then show ?thesis using assms(2) add_known by (intro exI [of _ us] exI [of _ vs]) simp
next
  case False
  let ?d = "Suc (length (window w)) - capacity w"
  have d: "?d \<le> length us" using assms(2,3) by simp
  have "window (snd (add b w)) = drop ?d (us @ a # vs @ [b])"
    using add_fresh [OF False] assms(2) by simp
  then have "window (snd (add b w)) = drop ?d us @ a # vs @ [b]" using d by simp
  then show ?thesis by (metis append_Cons length_append_singleton order_refl Suc_eq_plus1)
qed

lemma add_all_keeps_recent:
  assumes "ok w" "window w = us @ a # vs" "length vs + length bs < capacity w"
  shows "contains (add_all bs w) a"
  using assms
proof (induction bs arbitrary: w us vs)
  case (Cons b bs)
  obtain us' vs' where w: "window (snd (add b w)) = us' @ a # vs'" "length vs' \<le> length vs + 1"
    using add_keeps_recent [OF Cons.prems(1,2), of b] Cons.prems(3) by auto
  show ?case
    using Cons.prems(3) w(2) by (auto intro!: Cons.IH [OF ok_add [OF Cons.prems(1)] w(1)] simp: capacity_add)
qed (simp add: contains_iff)

text \<open>Recorded items are remembered while fewer than \<open>capacity\<close> items follow.\<close>

lemma remembers:
  assumes "ok w" "a \<notin> set (window w)" "length bs < capacity w"
  shows "contains (add_all bs (snd (add a w))) a"
proof -
  have "Suc (length (window w)) - capacity w \<le> length (window w)"
    using ok_capacity [OF assms(1)] by linarith
  then have "window (snd (add a w)) =
      drop (Suc (length (window w)) - capacity w) (window w) @ a # []"
    using add_fresh [OF assms(2)] by simp
  then show ?thesis
    using assms add_all_keeps_recent [OF ok_add [OF assms(1)], of a _ a "[]" bs]
    by (simp add: capacity_add)
qed

end

interpretation bounded_window: dedup_window bs_contains bs_insert bs_items bs_capacity bs_ok
  by unfold_locales
    (auto simp: bs_contains_def bs_insert_def bs_ok_def bs_evict_eq
      distinct_drop simp del: drop_append split: if_splits)

section \<open>State\<close>

type_synonym proposal_id = u32

record voting_meta =
  vm_target :: "bytes option"
  vm_kind :: proposal_kind

record pending_update =
  pu_request :: conversation_update_request
  pu_first_seen_epoch :: u64

record conversation_queues =
  q_conversation_id :: string
  q_approved_proposals :: "(proposal_id, conversation_update_request) imap"
  q_voting_proposals :: "(proposal_id, voting_meta) imap"
  q_active_emergency_ids :: "proposal_id set"
  q_committed_batch_hashes :: "commit_hash bounded_set"
  q_commit_round :: commit_round_buffer
  q_pending_updates :: "(bytes, pending_update) imap"
  q_resolved_proposals :: "proposal_id bounded_set"
  q_urgent_commit_target :: "bytes option"
  q_early_candidates :: "(u64 \<times> commit_candidate) list"
  q_member_join_epoch :: "(bytes, u64) imap"
  q_welcome_broadcast_hashes :: "commit_hash bounded_set"
  q_pending_membership_delta :: "membership_delta option"

definition RESOLVED_PROPOSAL_CACHE_CAPACITY :: nat where
  "RESOLVED_PROPOSAL_CACHE_CAPACITY = 256"

definition queues_new :: "string \<Rightarrow> nat \<Rightarrow> conversation_queues" where
  "queues_new conversation_id window =
     \<lparr>q_conversation_id = conversation_id, q_approved_proposals = [], q_voting_proposals = [],
      q_active_emergency_ids = {}, q_committed_batch_hashes = bs_new window,
      q_commit_round = commit_round_buffer_default, q_pending_updates = [],
      q_resolved_proposals = bs_new RESOLVED_PROPOSAL_CACHE_CAPACITY,
      q_urgent_commit_target = None, q_early_candidates = [], q_member_join_epoch = [],
      q_welcome_broadcast_hashes = bs_new window, q_pending_membership_delta = None\<rparr>"

section \<open>Approved proposals\<close>

fun removes_member :: "conversation_update_request \<Rightarrow> bytes \<Rightarrow> bool" where
  "removes_member (Some (RemoveMember r)) member_id = (r = member_id)"
| "removes_member _ _ = False"

fun invites_member :: "externals \<Rightarrow> conversation_update_request \<Rightarrow> bytes \<Rightarrow> bool" where
  "invites_member x (Some (MemberInvite kp)) member_id =
     (target_member_id_of x (Some (MemberInvite kp)) = Some member_id)"
| "invites_member x _ _ = False"

definition approved_proposals_count :: "conversation_queues \<Rightarrow> nat" where
  "approved_proposals_count q = length (q_approved_proposals q)"

definition has_approved_removal :: "conversation_queues \<Rightarrow> bytes \<Rightarrow> bool" where
  "has_approved_removal q member_id =
     list_ex (\<lambda>req. removes_member req member_id) (imap_values (q_approved_proposals q))"

definition has_approved_invite :: "externals \<Rightarrow> conversation_queues \<Rightarrow> bytes \<Rightarrow> bool" where
  "has_approved_invite x q member_id =
     list_ex (\<lambda>req. invites_member x req member_id) (imap_values (q_approved_proposals q))"

definition is_pending_self_leave :: "externals \<Rightarrow> conversation_queues \<Rightarrow> bytes \<Rightarrow> bool" where
  "is_pending_self_leave x q member_id =
     (case imap_get (q_approved_proposals q) (self_leave_proposal_id x member_id) of
        Some req \<Rightarrow> removes_member req member_id | None \<Rightarrow> False)"

definition steward_eligibility :: "conversation_queues \<Rightarrow> bytes list \<Rightarrow> bytes \<Rightarrow> bool" where
  "steward_eligibility q mls_members candidate =
     (\<not> has_approved_removal q candidate \<and> candidate \<in> set mls_members)"

definition insert_approved_proposal ::
  "proposal_id \<Rightarrow> conversation_update_request \<Rightarrow> conversation_queues \<Rightarrow> conversation_queues" where
  "insert_approved_proposal pid proposal q =
     q\<lparr>q_approved_proposals := imap_insert pid proposal (q_approved_proposals q)\<rparr>"

definition remove_approved_proposal :: "proposal_id \<Rightarrow> conversation_queues \<Rightarrow> conversation_queues" where
  "remove_approved_proposal pid q =
     q\<lparr>q_approved_proposals := imap_remove pid (q_approved_proposals q)\<rparr>"

definition drain_approved_proposals ::
  "conversation_queues \<Rightarrow> conversation_update_request list \<times> conversation_queues" where
  "drain_approved_proposals q =
     (imap_values (q_approved_proposals q), q\<lparr>q_approved_proposals := []\<rparr>)"

fun is_remove_member :: "conversation_update_request \<Rightarrow> bool" where
  "is_remove_member (Some (RemoveMember _)) = True"
| "is_remove_member _ = False"

definition reject_all_approved_proposals :: "conversation_queues \<Rightarrow> conversation_queues" where
  "reject_all_approved_proposals q =
     q\<lparr>q_approved_proposals := imap_retain (\<lambda>_ req. is_remove_member req) (q_approved_proposals q)\<rparr>"

definition drop_approved_removals_for :: "bytes \<Rightarrow> conversation_queues \<Rightarrow> conversation_queues" where
  "drop_approved_removals_for target q =
     q\<lparr>q_approved_proposals :=
         imap_retain (\<lambda>_ req. \<not> removes_member req target) (q_approved_proposals q)\<rparr>"

section \<open>Membership delta and settled members\<close>

definition store_membership_delta ::
  "membership_delta \<Rightarrow> conversation_queues \<Rightarrow> conversation_queues" where
  "store_membership_delta delta q = q\<lparr>q_pending_membership_delta := Some delta\<rparr>"

definition take_membership_delta :: "conversation_queues \<Rightarrow> membership_delta \<times> conversation_queues" where
  "take_membership_delta q =
     ((case q_pending_membership_delta q of Some d \<Rightarrow> d | None \<Rightarrow> empty_delta),
      q\<lparr>q_pending_membership_delta := None\<rparr>)"

definition forget_removed_member :: "member_id \<Rightarrow> conversation_queues \<Rightarrow> conversation_queues" where
  "forget_removed_member m q =
     (let id = member_id_of (mid_leaf m);
          q1 = q\<lparr>q_pending_updates := imap_remove id (q_pending_updates q)\<rparr>;
          q2 = drop_approved_removals_for id q1
      in q2\<lparr>q_member_join_epoch := imap_remove id (q_member_join_epoch q2)\<rparr>)"

definition record_added_member :: "u64 \<Rightarrow> member \<Rightarrow> conversation_queues \<Rightarrow> conversation_queues" where
  "record_added_member epoch m q =
     (let q1 = q\<lparr>q_pending_updates := imap_remove (mbr_signature_key m) (q_pending_updates q)\<rparr>
      in q1\<lparr>q_member_join_epoch :=
              imap_insert (member_id_of (mbr_index m)) epoch (q_member_join_epoch q1)\<rparr>)"

definition apply_membership_delta_bookkeeping ::
  "u64 \<Rightarrow> conversation_queues \<Rightarrow> conversation_queues" where
  "apply_membership_delta_bookkeeping epoch q =
     (case q_pending_membership_delta q of
        None \<Rightarrow> q
      | Some delta \<Rightarrow>
          fold (record_added_member epoch) (md_added delta)
            (fold forget_removed_member (md_removed delta) q))"

definition is_settled :: "conversation_queues \<Rightarrow> bytes \<Rightarrow> u64 \<Rightarrow> bool" where
  "is_settled q member_id current_epoch =
     (case imap_get (q_member_join_epoch q) member_id of
        None \<Rightarrow> True | Some join_epoch \<Rightarrow> join_epoch < current_epoch)"

definition settled_members :: "conversation_queues \<Rightarrow> bytes list \<Rightarrow> u64 \<Rightarrow> bytes list" where
  "settled_members q members current_epoch = filter (\<lambda>m. is_settled q m current_epoch) members"

section \<open>Voting proposals and emergencies\<close>

definition active_proposal_targets :: "externals \<Rightarrow> conversation_queues \<Rightarrow> bytes set" where
  "active_proposal_targets x q =
     set (List.map_filter vm_target (imap_values (q_voting_proposals q)) @
          List.map_filter (target_member_id_of x) (imap_values (q_approved_proposals q)))"

definition track_voting_proposal ::
  "externals \<Rightarrow> proposal_id \<Rightarrow> conversation_update_request \<Rightarrow> conversation_queues \<Rightarrow>
   conversation_queues" where
  "track_voting_proposal x pid proposal q =
     (if imap_contains (q_voting_proposals q) pid then q
      else q\<lparr>q_voting_proposals :=
               imap_insert pid \<lparr>vm_target = in_flight_target x proposal,
                                vm_kind = proposal_kind_of proposal\<rparr> (q_voting_proposals q)\<rparr>)"

definition is_voting :: "conversation_queues \<Rightarrow> proposal_id \<Rightarrow> bool" where
  "is_voting q pid = imap_contains (q_voting_proposals q) pid"

definition remove_voting_proposal :: "proposal_id \<Rightarrow> conversation_queues \<Rightarrow> conversation_queues" where
  "remove_voting_proposal pid q =
     q\<lparr>q_voting_proposals := imap_remove pid (q_voting_proposals q)\<rparr>"

definition has_election_in_flight :: "conversation_queues \<Rightarrow> bool" where
  "has_election_in_flight q =
     list_ex (\<lambda>m. is_steward_election (vm_kind m)) (imap_values (q_voting_proposals q))"

definition insert_emergency :: "proposal_id \<Rightarrow> conversation_queues \<Rightarrow> conversation_queues" where
  "insert_emergency pid q = q\<lparr>q_active_emergency_ids := insert pid (q_active_emergency_ids q)\<rparr>"

definition remove_emergency :: "proposal_id \<Rightarrow> conversation_queues \<Rightarrow> conversation_queues" where
  "remove_emergency pid q = q\<lparr>q_active_emergency_ids := q_active_emergency_ids q - {pid}\<rparr>"

definition has_active_emergency :: "conversation_queues \<Rightarrow> bool" where
  "has_active_emergency q = (q_active_emergency_ids q \<noteq> {})"

definition partial_freeze_blocks :: "conversation_queues \<Rightarrow> proposal_kind \<Rightarrow> bool" where
  "partial_freeze_blocks q kind = (has_active_emergency q \<and> kind < EmergencyKind)"

section \<open>Dedup windows and early candidates\<close>

definition has_committed_hash :: "conversation_queues \<Rightarrow> commit_hash \<Rightarrow> bool" where
  "has_committed_hash q h = bs_contains (q_committed_batch_hashes q) h"

definition insert_committed_hash :: "commit_hash \<Rightarrow> conversation_queues \<Rightarrow> conversation_queues" where
  "insert_committed_hash h q =
     q\<lparr>q_committed_batch_hashes := snd (bs_insert h (q_committed_batch_hashes q))\<rparr>"

definition record_welcome_broadcast ::
  "commit_hash \<Rightarrow> conversation_queues \<Rightarrow> bool \<times> conversation_queues" where
  "record_welcome_broadcast h q =
     (case bs_insert h (q_welcome_broadcast_hashes q) of
        (fresh, s) \<Rightarrow> (fresh, q\<lparr>q_welcome_broadcast_hashes := s\<rparr>))"

definition stash_early_candidate ::
  "u64 \<Rightarrow> commit_candidate \<Rightarrow> nat \<Rightarrow> conversation_queues \<Rightarrow> conversation_queues" where
  "stash_early_candidate epoch candidate mx q =
     (let kept = filter (\<lambda>(e, _). e = epoch) (q_early_candidates q);
          duplicate = list_ex (\<lambda>(_, c). cc_commit_message c = cc_commit_message candidate) kept
      in if duplicate \<or> length kept \<ge> mx then q\<lparr>q_early_candidates := kept\<rparr>
         else q\<lparr>q_early_candidates := kept @ [(epoch, candidate)]\<rparr>)"

definition take_early_candidates ::
  "u64 \<Rightarrow> conversation_queues \<Rightarrow> commit_candidate list \<times> conversation_queues" where
  "take_early_candidates epoch q =
     (map snd (filter (\<lambda>(e, _). e = epoch) (q_early_candidates q)), q\<lparr>q_early_candidates := []\<rparr>)"

definition is_consensus_outcome_applied :: "conversation_queues \<Rightarrow> proposal_id \<Rightarrow> bool" where
  "is_consensus_outcome_applied q pid = bs_contains (q_resolved_proposals q) pid"

definition mark_consensus_outcome_applied ::
  "proposal_id \<Rightarrow> conversation_queues \<Rightarrow> conversation_queues" where
  "mark_consensus_outcome_applied pid q =
     q\<lparr>q_resolved_proposals := snd (bs_insert pid (q_resolved_proposals q))\<rparr>"

section \<open>Pending updates and the urgent target\<close>

definition insert_pending_update ::
  "externals \<Rightarrow> conversation_update_request \<Rightarrow> u64 \<Rightarrow> conversation_queues \<Rightarrow>
   bool \<times> conversation_queues" where
  "insert_pending_update x request current_epoch q =
     (case target_member_id_of x request of
        None \<Rightarrow> (False, q)
      | Some key \<Rightarrow>
          if imap_contains (q_pending_updates q) key then (False, q)
          else (True, q\<lparr>q_pending_updates :=
                  imap_insert key \<lparr>pu_request = request, pu_first_seen_epoch = current_epoch\<rparr>
                    (q_pending_updates q)\<rparr>))"

definition remove_pending_update :: "bytes \<Rightarrow> conversation_queues \<Rightarrow> bool \<times> conversation_queues" where
  "remove_pending_update member_id q =
     (imap_contains (q_pending_updates q) member_id,
      q\<lparr>q_pending_updates := imap_remove member_id (q_pending_updates q)\<rparr>)"

definition has_pending_update :: "conversation_queues \<Rightarrow> bytes \<Rightarrow> bool" where
  "has_pending_update q member_id = imap_contains (q_pending_updates q) member_id"

definition expire_pending_updates ::
  "u64 \<Rightarrow> u32 \<Rightarrow> conversation_queues \<Rightarrow> bytes list \<times> conversation_queues" where
  "expire_pending_updates current_epoch max_age q =
     (let cutoff = saturating_sub_u64 current_epoch (ucast max_age);
          expired = map fst (filter (\<lambda>(_, p). pu_first_seen_epoch p < cutoff) (q_pending_updates q))
      in (expired, q\<lparr>q_pending_updates := fold imap_remove expired (q_pending_updates q)\<rparr>))"

definition set_urgent_commit_target :: "bytes \<Rightarrow> conversation_queues \<Rightarrow> conversation_queues" where
  "set_urgent_commit_target target q = q\<lparr>q_urgent_commit_target := Some target\<rparr>"

definition take_urgent_commit_target :: "conversation_queues \<Rightarrow> bytes option \<times> conversation_queues" where
  "take_urgent_commit_target q =
     (q_urgent_commit_target q, q\<lparr>q_urgent_commit_target := None\<rparr>)"

section \<open>Invariant\<close>

definition early_ok :: "(u64 \<times> commit_candidate) list \<Rightarrow> bool" where
  "early_ok es \<longleftrightarrow>
     distinct (map (cc_commit_message \<circ> snd) es) \<and> (\<forall>a\<in>set es. \<forall>b\<in>set es. fst a = fst b)"

definition pending_keyed :: "externals \<Rightarrow> (bytes, pending_update) imap \<Rightarrow> bool" where
  "pending_keyed x m \<longleftrightarrow> list_all (\<lambda>(k, p). target_member_id_of x (pu_request p) = Some k) m"

definition queues_inv :: "externals \<Rightarrow> conversation_queues \<Rightarrow> bool" where
  "queues_inv x q \<longleftrightarrow>
     imap_ok (q_approved_proposals q) \<and> imap_ok (q_voting_proposals q) \<and>
     imap_ok (q_pending_updates q) \<and> imap_ok (q_member_join_epoch q) \<and>
     bs_ok (q_committed_batch_hashes q) \<and> bs_ok (q_resolved_proposals q) \<and>
     bs_ok (q_welcome_broadcast_hashes q) \<and> buffer_inv x (q_commit_round q) \<and>
     early_ok (q_early_candidates q) \<and>
     pending_keyed x (q_pending_updates q)"

lemmas queue_op_defs = insert_approved_proposal_def remove_approved_proposal_def
  drain_approved_proposals_def reject_all_approved_proposals_def drop_approved_removals_for_def
  store_membership_delta_def take_membership_delta_def track_voting_proposal_def
  remove_voting_proposal_def insert_emergency_def remove_emergency_def insert_committed_hash_def
  record_welcome_broadcast_def take_early_candidates_def mark_consensus_outcome_applied_def
  remove_pending_update_def set_urgent_commit_target_def take_urgent_commit_target_def

lemma fold_imap_remove:
  "fold imap_remove ks m = imap_retain (\<lambda>k _. k \<notin> set ks) m"
proof (induction ks arbitrary: m)
  case Nil
  show ?case by (simp add: imap_retain_def)
next
  case (Cons k ks)
  then show ?case
    by (auto simp: imap_remove_eq_retain imap_retain_def intro!: filter_cong)
qed

lemma pending_keyed_simps [simp]:
  "pending_keyed x []" "pending_keyed x m \<Longrightarrow> pending_keyed x (imap_retain P m)"
  "pending_keyed x m \<Longrightarrow> pending_keyed x (imap_remove k m)"
  by (auto simp: pending_keyed_def imap_remove_eq_retain list_all_iff)

lemma pending_keyed_insert:
  "pending_keyed x m \<Longrightarrow> \<not> imap_contains m k \<Longrightarrow> target_member_id_of x (pu_request p) = Some k \<Longrightarrow>
   pending_keyed x (imap_insert k p m)"
  by (simp add: pending_keyed_def imap_insert_new)

lemma early_ok_simps [simp]: "early_ok []"
  by (simp add: early_ok_def)

lemma early_ok_filter: "early_ok es \<Longrightarrow> early_ok (filter P es)"
  by (auto simp: early_ok_def distinct_map_filter)

lemma early_ok_snoc:
  "early_ok es \<Longrightarrow> \<forall>a\<in>set es. fst a = e \<and> cc_commit_message (snd a) \<noteq> cc_commit_message c \<Longrightarrow>
   early_ok (es @ [(e, c)])"
  by (force simp: early_ok_def)

lemma queues_inv_new: "queues_inv x (queues_new cid n)"
  by (simp add: queues_inv_def queues_new_def)

lemma queues_inv_forget: "queues_inv x q \<Longrightarrow> queues_inv x (forget_removed_member m q)"
  by (simp add: forget_removed_member_def drop_approved_removals_for_def Let_def queues_inv_def)

lemma queues_inv_record_added: "queues_inv x q \<Longrightarrow> queues_inv x (record_added_member e m q)"
  by (simp add: record_added_member_def Let_def queues_inv_def)

lemma fold_invariant_list:
  assumes "\<And>a s. P s \<Longrightarrow> P (f a s)" "P s"
  shows "P (fold f as s)"
  using assms(2) by (induction "as" arbitrary: s) (auto intro: assms(1))

lemma queues_inv_bookkeeping:
  "queues_inv x q \<Longrightarrow> queues_inv x (apply_membership_delta_bookkeeping e q)"
  by (auto simp: apply_membership_delta_bookkeeping_def split: option.splits
      intro!: fold_invariant_list [where P = "queues_inv x"] queues_inv_forget queues_inv_record_added)

lemma queues_inv_stash: "queues_inv x q \<Longrightarrow> queues_inv x (stash_early_candidate e c n q)"
  by (auto simp: stash_early_candidate_def Let_def queues_inv_def list_ex_iff
      intro!: early_ok_filter early_ok_snoc)

lemma queues_inv_insert_pending:
  "queues_inv x q \<Longrightarrow> queues_inv x (snd (insert_pending_update x r e q))"
  by (auto simp: insert_pending_update_def queues_inv_def pending_keyed_insert
      split: option.splits)

lemma queues_inv_expire: "queues_inv x q \<Longrightarrow> queues_inv x (snd (expire_pending_updates e a q))"
  by (auto simp: expire_pending_updates_def Let_def fold_imap_remove queues_inv_def)

lemma queues_inv_commit_round:
  "queues_inv x q \<Longrightarrow> buffer_inv x b \<Longrightarrow> queues_inv x (q\<lparr>q_commit_round := b\<rparr>)"
  by (simp add: queues_inv_def)

lemma bs_ok_insert [simp]: "bs_ok s \<Longrightarrow> bs_ok (snd (bs_insert a s))"
  by (rule bounded_window.ok_add)

lemma queues_inv_simple:
  assumes "queues_inv x q"
  shows "queues_inv x (insert_approved_proposal pid r q)"
    "queues_inv x (remove_approved_proposal pid q)"
    "queues_inv x (snd (drain_approved_proposals q))"
    "queues_inv x (reject_all_approved_proposals q)"
    "queues_inv x (drop_approved_removals_for t q)"
    "queues_inv x (store_membership_delta d q)"
    "queues_inv x (snd (take_membership_delta q))"
    "queues_inv x (track_voting_proposal x pid r q)"
    "queues_inv x (remove_voting_proposal pid q)"
    "queues_inv x (insert_emergency pid q)"
    "queues_inv x (remove_emergency pid q)"
    "queues_inv x (insert_committed_hash h q)"
    "queues_inv x (snd (record_welcome_broadcast h q))"
    "queues_inv x (snd (take_early_candidates e q))"
    "queues_inv x (mark_consensus_outcome_applied pid q)"
    "queues_inv x (snd (remove_pending_update k q))"
    "queues_inv x (set_urgent_commit_target t q)"
    "queues_inv x (snd (take_urgent_commit_target q))"
  using assms
  by (simp_all add: queue_op_defs queues_inv_def split_beta)

text \<open>Every way the rest of the library changes the queues.\<close>

inductive queue_step :: "externals \<Rightarrow> conversation_queues \<Rightarrow> conversation_queues \<Rightarrow> bool"
  for x where
  insert_approved: "queue_step x q (insert_approved_proposal pid r q)"
| remove_approved: "queue_step x q (remove_approved_proposal pid q)"
| drain_approved: "queue_step x q (snd (drain_approved_proposals q))"
| reject_all: "queue_step x q (reject_all_approved_proposals q)"
| drop_removals: "queue_step x q (drop_approved_removals_for t q)"
| store_delta: "queue_step x q (store_membership_delta d q)"
| take_delta: "queue_step x q (snd (take_membership_delta q))"
| bookkeeping: "queue_step x q (apply_membership_delta_bookkeeping e q)"
| track_voting: "queue_step x q (track_voting_proposal x pid r q)"
| remove_voting: "queue_step x q (remove_voting_proposal pid q)"
| insert_emergency_id: "queue_step x q (insert_emergency pid q)"
| remove_emergency_id: "queue_step x q (remove_emergency pid q)"
| committed_hash: "queue_step x q (insert_committed_hash h q)"
| welcome_broadcast: "queue_step x q (snd (record_welcome_broadcast h q))"
| stash_early: "queue_step x q (stash_early_candidate e c n q)"
| take_early: "queue_step x q (snd (take_early_candidates e q))"
| insert_pending: "queue_step x q (snd (insert_pending_update x r e q))"
| remove_pending: "queue_step x q (snd (remove_pending_update k q))"
| expire_pending: "queue_step x q (snd (expire_pending_updates e a q))"
| set_urgent: "queue_step x q (set_urgent_commit_target t q)"
| take_urgent: "queue_step x q (snd (take_urgent_commit_target q))"
| mark_applied: "queue_step x q (mark_consensus_outcome_applied pid q)"
| buffer_candidate:
    "queue_step x q (q\<lparr>q_commit_round := snd (buffer_add x c l w j e n (q_commit_round q))\<rparr>)"
| take_candidates: "queue_step x q (q\<lparr>q_commit_round := snd (buffer_take e (q_commit_round q))\<rparr>)"
| clear_candidates: "queue_step x q (q\<lparr>q_commit_round := buffer_clear (q_commit_round q)\<rparr>)"

lemma queue_step_inv: "queue_step x q q' \<Longrightarrow> queues_inv x q \<Longrightarrow> queues_inv x q'"
proof (induction rule: queue_step.induct)
  case (buffer_candidate q c l w j e n)
  then have "buffer_inv x (q_commit_round q)" by (simp add: queues_inv_def)
  then show ?case using buffer_candidate by (intro queues_inv_commit_round buffer_inv_add)
next
  case (take_candidates q e)
  then have "buffer_inv x (q_commit_round q)" by (simp add: queues_inv_def)
  then show ?case using take_candidates by (intro queues_inv_commit_round buffer_inv_take)
next
  case (clear_candidates q)
  then show ?case by (intro queues_inv_commit_round buffer_inv_clear)
qed (simp_all add: queues_inv_simple queues_inv_bookkeeping queues_inv_stash
    queues_inv_insert_pending queues_inv_expire)

section \<open>Properties\<close>

text \<open>
  The queue invariant holds in every state the library can reach from an empty
  conversation by queue operations: unique proposal ids, one buffered update per target,
  keyed by that target, one candidate per commit hash, early candidates of one epoch without
  duplicates, and dedup windows within their capacity.
\<close>

theorem reachable_queues_inv:
  assumes "(queue_step x)\<^sup>*\<^sup>* (queues_new cid window) q"
  shows "queues_inv x q"
  using assms by (induction rule: rtranclp_induct) (auto intro: queues_inv_new queue_step_inv)

theorem reachable_queues_inv_witness:
  "queues_inv demo_externals
     (insert_approved_proposal 5 (Some (RemoveMember [1])) (queues_new ''c'' 0))"
  by (rule reachable_queues_inv [of _ "''c''" 0])
    (rule r_into_rtranclp, rule queue_step.insert_approved)

text \<open>
  The dedup guards hold for their whole window: once an outcome is marked, it is
  recognised as already applied while fewer further outcomes than the window's capacity have
  been marked, so a re-emitted outcome is dropped.
\<close>

theorem resolved_outcome_remembered:
  assumes "queues_inv x q" and "\<not> is_consensus_outcome_applied q pid"
    and "length later < bs_capacity (q_resolved_proposals q)"
  shows "is_consensus_outcome_applied
           (fold mark_consensus_outcome_applied later (mark_consensus_outcome_applied pid q)) pid"
proof -
  have all: "q_resolved_proposals (fold mark_consensus_outcome_applied ps q0) =
      bounded_window.add_all ps (q_resolved_proposals q0)" for ps q0
    by (induction ps arbitrary: q0) (simp_all add: mark_consensus_outcome_applied_def)
  have "bs_contains (bounded_window.add_all later (snd (bs_insert pid (q_resolved_proposals q)))) pid"
    using assms by (intro bounded_window.remembers)
      (auto simp: queues_inv_def is_consensus_outcome_applied_def bs_contains_def)
  then show ?thesis
    by (simp add: is_consensus_outcome_applied_def all mark_consensus_outcome_applied_def)
qed

theorem resolved_outcome_remembered_witness:
  "is_consensus_outcome_applied
     (fold mark_consensus_outcome_applied [8, 9] (mark_consensus_outcome_applied 7 (queues_new ''c'' 4))) 7"
  by (rule resolved_outcome_remembered [OF queues_inv_new [of demo_externals]])
    (simp_all add: queues_new_def is_consensus_outcome_applied_def bs_contains_def bs_new_def
      RESOLVED_PROPOSAL_CACHE_CAPACITY_def)

text \<open>
  Expiry drops exactly the buffered updates first seen more than \<open>max_age\<close> epochs ago,
  and reports exactly those; the epoch arithmetic saturates, so a young group expires nothing.
\<close>

theorem expire_pending_updates_exact:
  assumes "queues_inv x q" and "expire_pending_updates epoch max_age q = (expired, q')"
  shows "imap_get (q_pending_updates q') k =
      (case imap_get (q_pending_updates q) k of
         Some p \<Rightarrow> if unat (pu_first_seen_epoch p) + unat max_age < unat epoch then None else Some p
       | None \<Rightarrow> None) \<and>
    (k \<in> set expired \<longleftrightarrow> (\<exists>p. imap_get (q_pending_updates q) k = Some p \<and>
                             unat (pu_first_seen_epoch p) + unat max_age < unat epoch))"
proof -
  let ?m = "q_pending_updates q"
  have ok: "imap_ok ?m" using assms(1) by (simp add: queues_inv_def)
  have c: "p < saturating_sub_u64 epoch (ucast max_age) \<longleftrightarrow> unat p + unat max_age < unat epoch"
    for p :: u64
    by (simp add: word_less_nat_alt unat_saturating_sub_u64 unsigned_ucast_eq less_diff_conv
        take_bit_nat_eq_self unsigned_less [THEN less_le_trans])
  have e: "k \<in> set expired \<longleftrightarrow> (\<exists>p. imap_get ?m k = Some p \<and>
      unat (pu_first_seen_epoch p) + unat max_age < unat epoch)" for k
    using assms(2) by (force simp: expire_pending_updates_def Let_def c imap_get_iff_mem [OF ok])
  have q': "q_pending_updates q' = imap_retain (\<lambda>k _. k \<notin> set expired) ?m"
    using assms(2) by (auto simp: expire_pending_updates_def Let_def fold_imap_remove)
  show ?thesis unfolding q' using e [of k] by (auto simp: imap_get_retain [OF ok] split: option.splits)
qed

definition demo_pending :: conversation_queues where
  "demo_pending = snd (insert_pending_update demo_externals (Some (RemoveMember [2])) 9
     (snd (insert_pending_update demo_externals (Some (RemoveMember [1])) 3 (queues_new ''c'' 4))))"

theorem expire_pending_updates_exact_witness:
  "\<exists>q'. expire_pending_updates 10 5 demo_pending = ([[1]], q') \<and>
     imap_get (q_pending_updates q') [1] = None"
proof -
  let ?r = "expire_pending_updates 10 5 demo_pending"
  have inv: "queues_inv demo_externals demo_pending"
    unfolding demo_pending_def by (intro queues_inv_insert_pending queues_inv_new)
  have r: "?r = ([[1]], snd ?r)"
    and g: "imap_get (q_pending_updates demo_pending) [1] =
      Some \<lparr>pu_request = Some (RemoveMember [1]), pu_first_seen_epoch = 3\<rparr>" by code_simp+
  show ?thesis using r expire_pending_updates_exact [OF inv r, of "[1]"] g by auto
qed

text \<open>
  While one emergency proposal is active, a request is blocked exactly when it is not an
  emergency itself; resolving that last active emergency lifts the freeze.
\<close>

theorem partial_freeze_blocks_exactly:
  assumes "q_active_emergency_ids q = {pid}"
  shows "(partial_freeze_blocks q (proposal_kind_of request) \<longleftrightarrow>
       (\<nexists>ev. request = Some (EmergencyCriteria ev))) \<and>
     \<not> partial_freeze_blocks (remove_emergency pid q) (proposal_kind_of request)"
  using assms
  by (cases request rule: proposal_kind_of.cases)
    (simp_all add: partial_freeze_blocks_def has_active_emergency_def remove_emergency_def
      less_proposal_kind_def)

theorem partial_freeze_blocks_exactly_witness:
  "partial_freeze_blocks (insert_emergency 3 (queues_new ''c'' 4)) (proposal_kind_of (Some (RemoveMember [1]))) \<and>
   \<not> partial_freeze_blocks (remove_emergency 3 (insert_emergency 3 (queues_new ''c'' 4)))
       (proposal_kind_of (Some (RemoveMember [1])))"
proof -
  have "q_active_emergency_ids (insert_emergency 3 (queues_new ''c'' 4)) = {3}"
    by (simp add: insert_emergency_def queues_new_def)
  from partial_freeze_blocks_exactly [OF this, of "Some (RemoveMember [1])"] show ?thesis by simp
qed

lemma fold_forget_get:
  "imap_get (q_member_join_epoch (fold forget_removed_member rs q)) k =
     (if k \<in> (member_id_of \<circ> mid_leaf) ` set rs then None else imap_get (q_member_join_epoch q) k)"
  by (induction rs arbitrary: q)
    (auto simp: forget_removed_member_def Let_def drop_approved_removals_for_def)

lemma fold_record_get:
  "imap_get (q_member_join_epoch (fold (record_added_member e) as q)) k =
     (if k \<in> (member_id_of \<circ> mbr_index) ` set as then Some e else imap_get (q_member_join_epoch q) k)"
  by (induction "as" arbitrary: q) (auto simp: record_added_member_def Let_def)

lemma fold_forget_approved:
  "q_approved_proposals (fold forget_removed_member rs q) =
     imap_retain (\<lambda>_ req. \<forall>m\<in>set rs. \<not> removes_member req (member_id_of (mid_leaf m)))
       (q_approved_proposals q)"
proof (induction rs arbitrary: q)
  case (Cons r rs)
  then show ?case
    by (auto simp: forget_removed_member_def Let_def drop_approved_removals_for_def imap_retain_def
        intro!: filter_cong)
qed (simp add: imap_retain_def)

lemma fold_record_approved:
  "q_approved_proposals (fold (record_added_member e) as q) = q_approved_proposals q"
  by (induction "as" arbitrary: q) (simp_all add: record_added_member_def Let_def)

lemma fold_forget_pending:
  "imap_get (q_pending_updates (fold forget_removed_member rs q)) k =
     (if k \<in> (member_id_of \<circ> mid_leaf) ` set rs then None else imap_get (q_pending_updates q) k)"
  by (induction rs arbitrary: q)
    (auto simp: forget_removed_member_def Let_def drop_approved_removals_for_def)

lemma fold_record_pending:
  "imap_get (q_pending_updates (fold (record_added_member e) as q)) k =
     (if k \<in> mbr_signature_key ` set as then None else imap_get (q_pending_updates q) k)"
  by (induction "as" arbitrary: q) (auto simp: record_added_member_def Let_def)

text \<open>
  C34. After a merge is booked, a joiner is unsettled in its join epoch and settled in every
  later one; a leaf that was vacated and not refilled carries no join epoch, no buffered update
  and no queued removal; all other approved proposals stay queued in their order.
\<close>

theorem membership_bookkeeping:
  assumes "q_pending_membership_delta q = Some delta"
    and "apply_membership_delta_bookkeeping epoch q = q'"
  shows "(\<forall>m\<in>set (md_added delta).
      \<forall>e. is_settled q' (member_id_of (mbr_index m)) e \<longleftrightarrow> epoch < e) \<and>
    (\<forall>r\<in>set (md_removed delta). mid_leaf r \<notin> mbr_index ` set (md_added delta) \<longrightarrow>
       imap_get (q_member_join_epoch q') (member_id_of (mid_leaf r)) = None \<and>
       \<not> has_pending_update q' (member_id_of (mid_leaf r)) \<and>
       \<not> has_approved_removal q' (member_id_of (mid_leaf r))) \<and>
    q_approved_proposals q' = imap_retain (\<lambda>_ req. \<forall>r\<in>set (md_removed delta).
        \<not> removes_member req (member_id_of (mid_leaf r))) (q_approved_proposals q)"
proof -
  have q': "q' = fold (record_added_member epoch) (md_added delta)
            (fold forget_removed_member (md_removed delta) q)"
    using assms by (simp add: apply_membership_delta_bookkeeping_def)
  show ?thesis
    unfolding q' is_settled_def has_pending_update_def has_approved_removal_def imap_contains_def
      fold_record_get fold_forget_get fold_record_approved fold_forget_approved
      fold_record_pending fold_forget_pending
    by (auto simp: list_ex_iff imap_values_def image_iff)
qed

definition demo_delta :: membership_delta where
  "demo_delta = \<lparr>md_added = [\<lparr>mbr_index = 2, mbr_credential = [], mbr_encryption_key = [],
                               mbr_signature_key = [42]\<rparr>],
                 md_removed = [\<lparr>mid_leaf = 1, mid_tag = [7]\<rparr>]\<rparr>"

theorem membership_bookkeeping_witness:
  "\<forall>e. is_settled (apply_membership_delta_bookkeeping 8
           (store_membership_delta demo_delta (queues_new ''c'' 4))) (member_id_of 2) e \<longleftrightarrow> 8 < e"
proof -
  let ?q = "store_membership_delta demo_delta (queues_new ''c'' 4)"
  have d: "q_pending_membership_delta ?q = Some demo_delta" by (simp add: store_membership_delta_def)
  show ?thesis using membership_bookkeeping [OF d refl, of 8] by (simp add: demo_delta_def)
qed

end
