(* ===== verification/Steward_List.thy ===== *)
theory Steward_List
  imports Messages
begin

text \<open>
  The deterministic steward list, \<^verbatim>\<open>src/steward_list/list.rs\<close>: size bounds, the
  election of the first \<open>sn\<close> members by ascending steward hash, the check a peer runs on
  a proposed list, and the epoch rotation. The lemmas show that the list depends only on
  the set of members and not on the order in which a node enumerates them, that validation
  accepts exactly the canonical list, and that the rotation walk is the first eligible
  member of the rotated list.
\<close>

section \<open>Size bounds\<close>

record steward_list_config =
  slc_sn_min :: nat
  slc_sn_max :: nat
  slc_allow_subset_candidates :: bool

definition steward_list_config_default :: steward_list_config where
  "steward_list_config_default =
     \<lparr>slc_sn_min = 1, slc_sn_max = 2, slc_allow_subset_candidates = False\<rparr>"

definition steward_list_config_new ::
  "nat \<Rightarrow> nat \<Rightarrow> conversation_error + steward_list_config" where
  "steward_list_config_new sn_min sn_max =
     (if sn_min < 1 \<or> sn_min > sn_max then Inl InvalidConfigSize
      else Inr \<lparr>slc_sn_min = sn_min, slc_sn_max = sn_max,
                slc_allow_subset_candidates = False\<rparr>)"

text \<open>The inclusive range, as its two ends.\<close>

definition size_bounds :: "steward_list_config \<Rightarrow> nat \<Rightarrow> nat \<times> nat" where
  "size_bounds c total_members =
     (if total_members < slc_sn_min c then (total_members, total_members)
      else (slc_sn_min c, min (slc_sn_max c) total_members))"

definition compute_list_size :: "steward_list_config \<Rightarrow> nat \<Rightarrow> nat" where
  "compute_list_size c total_members = snd (size_bounds c total_members)"

definition is_valid_size :: "steward_list_config \<Rightarrow> nat \<Rightarrow> nat \<Rightarrow> bool" where
  "is_valid_size c sz total_members =
     (fst (size_bounds c total_members) \<le> sz \<and> sz \<le> snd (size_bounds c total_members))"

definition check_generation_inputs ::
  "steward_list_config \<Rightarrow> bytes list \<Rightarrow> nat \<Rightarrow> conversation_error + unit" where
  "check_generation_inputs c member_ids sn =
     (if member_ids = [] then Inl EmptyMembersList
      else if \<not> is_valid_size c sn (length member_ids) then Inl InvalidConfigSize
      else Inr ())"

text \<open>The invariant the validated constructor establishes.\<close>

definition config_bounds_ok :: "steward_list_config \<Rightarrow> bool" where
  "config_bounds_ok c \<longleftrightarrow> 1 \<le> slc_sn_min c \<and> slc_sn_min c \<le> slc_sn_max c"

lemma steward_list_config_new_ok:
  "steward_list_config_new a b = Inr c \<Longrightarrow> config_bounds_ok c"
  by (auto simp: steward_list_config_new_def config_bounds_ok_def split: if_splits)

lemma compute_list_size_valid:
  "config_bounds_ok c \<Longrightarrow> is_valid_size c (compute_list_size c n) n"
  by (auto simp: is_valid_size_def compute_list_size_def size_bounds_def config_bounds_ok_def)

lemma is_valid_size_le: "is_valid_size c s n \<Longrightarrow> s \<le> n"
  by (auto simp: is_valid_size_def size_bounds_def split: if_splits)

lemma compute_list_size_le: "compute_list_size c n \<le> n"
  by (auto simp: compute_list_size_def size_bounds_def)

lemma compute_list_size_pos: "config_bounds_ok c \<Longrightarrow> 0 < n \<Longrightarrow> 0 < compute_list_size c n"
  by (auto simp: compute_list_size_def size_bounds_def config_bounds_ok_def)

lemma compute_list_size_all: "n \<le> slc_sn_max c \<Longrightarrow> compute_list_size c n = n"
  by (auto simp: compute_list_size_def size_bounds_def)

lemma compute_list_size_idem:
  "config_bounds_ok c \<Longrightarrow> compute_list_size c (compute_list_size c n) = compute_list_size c n"
  by (auto simp: compute_list_size_def size_bounds_def config_bounds_ok_def)

lemma check_generation_inputs_canonical:
  "config_bounds_ok c \<Longrightarrow> ids \<noteq> [] \<Longrightarrow>
   check_generation_inputs c ids (compute_list_size c (length ids)) = Inr ()"
  by (simp add: check_generation_inputs_def compute_list_size_valid)

section \<open>Election\<close>

record steward_list =
  sl_members :: "bytes list"
  sl_config :: steward_list_config
  sl_election_epoch :: u64
  sl_retry_round :: u32

definition compute_steward_hash :: "externals \<Rightarrow> u64 \<Rightarrow> u32 \<Rightarrow> bytes \<Rightarrow> bytes \<Rightarrow> bytes" where
  "compute_steward_hash x epoch retry_round member_id conversation_id =
     x_sha256 x (u64_to_be_bytes epoch @ u32_to_be_bytes retry_round @ member_id @ conversation_id)"

definition sorted_steward_indices ::
  "externals \<Rightarrow> u64 \<Rightarrow> u32 \<Rightarrow> bytes \<Rightarrow> bytes list \<Rightarrow> nat list" where
  "sorted_steward_indices x election_epoch retry_round conversation_id member_ids =
     (let scored = map (\<lambda>(i, id). (compute_steward_hash x election_epoch retry_round id
                                     conversation_id, i)) (enumerate 0 member_ids)
      in map snd (sort_by (\<lambda>(a, ai) (b, bi).
                    then_with (ord_cmp a b) (ord_cmp (member_ids ! ai) (member_ids ! bi))) scored))"

definition steward_list_generate ::
  "externals \<Rightarrow> u64 \<Rightarrow> bytes \<Rightarrow> bytes list \<Rightarrow> nat \<Rightarrow> steward_list_config \<Rightarrow> u32 \<Rightarrow>
   conversation_error + steward_list" where
  "steward_list_generate x election_epoch conversation_id member_ids sn config retry_round =
     result_then (check_generation_inputs config member_ids sn) (\<lambda>_.
       let ordered = sorted_steward_indices x election_epoch retry_round conversation_id member_ids;
           members = map (\<lambda>i. member_ids ! i) (take sn ordered)
       in Inr \<lparr>sl_members = members, sl_config = config, sl_election_epoch = election_epoch,
               sl_retry_round = retry_round\<rparr>)"

definition steward_list_validate ::
  "externals \<Rightarrow> bytes list \<Rightarrow> u64 \<Rightarrow> bytes \<Rightarrow> bytes list \<Rightarrow> steward_list_config \<Rightarrow> u32 \<Rightarrow>
   conversation_error + bool" where
  "steward_list_validate x proposed election_epoch conversation_id member_ids config retry_round =
     (if member_ids = [] then Inl EmptyMembersList
      else if length proposed \<noteq> compute_list_size config (length member_ids) then Inr False
      else
        let ordered = sorted_steward_indices x election_epoch retry_round conversation_id member_ids
        in Inr (list_all (\<lambda>(i, want). member_ids ! i = want)
                  (zip (take (length proposed) ordered) proposed)))"

text \<open>The order the sort realises on the ids themselves.\<close>

definition steward_cmp :: "externals \<Rightarrow> u64 \<Rightarrow> u32 \<Rightarrow> bytes \<Rightarrow> bytes \<Rightarrow> bytes \<Rightarrow> ordering" where
  "steward_cmp x epoch retry_round conversation_id a b =
     then_with (ord_cmp (compute_steward_hash x epoch retry_round a conversation_id)
                        (compute_steward_hash x epoch retry_round b conversation_id))
               (ord_cmp a b)"

interpretation steward_order: strict_cmp "steward_cmp x epoch retry_round conversation_id"
  for x epoch retry_round conversation_id
  unfolding steward_cmp_def [abs_def]
  by (rule strict_cmp_key_then
      [where f = "\<lambda>a. compute_steward_hash x epoch retry_round a conversation_id",
       OF total_cmp_ord])

lemma sorted_steward_members:
  "map (\<lambda>i. ids ! i) (sorted_steward_indices x e r cid ids) = sort_by (steward_cmp x e r cid) ids"
proof -
  let ?h = "\<lambda>a. compute_steward_hash x e r a cid"
  let ?sc = "map (\<lambda>(i, id). (?h id, i)) (enumerate 0 ids)"
  let ?cmp = "\<lambda>(a, ai) (b, bi). then_with (ord_cmp a b) (ord_cmp (ids ! ai) (ids ! bi))"
  have "map (\<lambda>p. ids ! snd p) (sort_by ?cmp ?sc) =
      sort_by (steward_cmp x e r cid) (map (\<lambda>p. ids ! snd p) ?sc)"
    by (rule map_sort_by) (auto simp: steward_cmp_def in_set_enumerate_eq)
  moreover have "map (\<lambda>p. ids ! snd p) ?sc = ids"
    by (rule nth_equalityI) (auto simp: nth_enumerate_eq)
  ultimately show ?thesis
    by (simp add: sorted_steward_indices_def o_def)
qed

lemma length_sorted_steward_indices [simp]:
  "length (sorted_steward_indices x e r cid ids) = length ids"
  by (simp add: sorted_steward_indices_def)

text \<open>The reference definition of the election.\<close>

lemma steward_list_generate_eq:
  "steward_list_generate x e cid ids sn c r =
     (if ids = [] then Inl EmptyMembersList
      else if \<not> is_valid_size c sn (length ids) then Inl InvalidConfigSize
      else Inr \<lparr>sl_members = take sn (sort_by (steward_cmp x e r cid) ids), sl_config = c,
                sl_election_epoch = e, sl_retry_round = r\<rparr>)"
  by (simp add: steward_list_generate_def check_generation_inputs_def
      take_map [symmetric] sorted_steward_members)

lemma steward_list_validate_eq:
  "steward_list_validate x proposed e cid ids c r =
     (if ids = [] then Inl EmptyMembersList
      else Inr (length proposed = compute_list_size c (length ids) \<and>
                take (length proposed) (sort_by (steward_cmp x e r cid) ids) = proposed))"
proof -
  have all: "list_all (\<lambda>(i, want). ids ! i = want) (zip is ws) \<longleftrightarrow> map (\<lambda>i. ids ! i) is = ws"
    if "length is = length ws" for "is" :: "nat list" and ws
    using that by (induction "is" ws rule: list_induct2) auto
  show ?thesis
    using compute_list_size_le [of c "length ids"]
    by (auto simp: steward_list_validate_def all Let_def take_map [symmetric] sorted_steward_members)
qed

lemma generate_members_set:
  "steward_list_generate x e cid ids sn c r = Inr l \<Longrightarrow> set (sl_members l) \<subseteq> set ids"
  using set_take_subset [of sn "sort_by (steward_cmp x e r cid) ids"]
  by (auto simp: steward_list_generate_eq split: if_splits)

lemma generate_members_length:
  "steward_list_generate x e cid ids sn c r = Inr l \<Longrightarrow> length (sl_members l) = sn"
  by (auto simp: steward_list_generate_eq dest: is_valid_size_le split: if_splits)

lemma generate_members_distinct:
  "steward_list_generate x e cid ids sn c r = Inr l \<Longrightarrow> distinct ids \<Longrightarrow> distinct (sl_members l)"
  by (auto simp: steward_list_generate_eq split: if_splits)

lemma generate_canonical:
  assumes "config_bounds_ok c" "ids \<noteq> []"
  shows "\<exists>l. steward_list_generate x e cid ids (compute_list_size c (length ids)) c r = Inr l"
  using assms by (simp add: steward_list_generate_eq compute_list_size_valid)

section \<open>Rotation\<close>

definition is_exhausted :: "steward_list \<Rightarrow> u64 \<Rightarrow> bool" where
  "is_exhausted l epoch =
     (if epoch < sl_election_epoch l then True
      else length (sl_members l) \<le> unat (epoch - sl_election_epoch l))"

text \<open>The walk over the slots, starting at the epoch's slot plus an offset.\<close>

fun steward_walk :: "bytes list \<Rightarrow> nat \<Rightarrow> (bytes \<Rightarrow> bool) \<Rightarrow> nat list \<Rightarrow> bytes option" where
  "steward_walk members start eligible [] = None"
| "steward_walk members start eligible (step # steps) =
     (let idx = (start + step) mod length members;
          candidate = members ! idx
      in if eligible candidate then Some candidate
         else steward_walk members start eligible steps)"

definition steward_from :: "steward_list \<Rightarrow> u64 \<Rightarrow> nat \<Rightarrow> (bytes \<Rightarrow> bool) \<Rightarrow> bytes option" where
  "steward_from l epoch offset eligible =
     (if is_exhausted l epoch then None
      else
        let len = length (sl_members l);
            start = (unat (epoch - sl_election_epoch l) + offset) mod len
        in steward_walk (sl_members l) start eligible [0..<len])"

definition epoch_steward :: "steward_list \<Rightarrow> u64 \<Rightarrow> (bytes \<Rightarrow> bool) \<Rightarrow> bytes option" where
  "epoch_steward l epoch eligible = steward_from l epoch 0 eligible"

definition epoch_and_backup ::
  "steward_list \<Rightarrow> u64 \<Rightarrow> (bytes \<Rightarrow> bool) \<Rightarrow> bytes option \<times> bytes option" where
  "epoch_and_backup l epoch eligible =
     (let es = steward_from l epoch 0 eligible;
          backup = (case es of
                      None \<Rightarrow> None
                    | Some es' \<Rightarrow> steward_from l epoch 1 (\<lambda>c. c \<noteq> es' \<and> eligible c))
      in (es, backup))"

definition steward_list_contains :: "steward_list \<Rightarrow> bytes \<Rightarrow> bool" where
  "steward_list_contains l member_id = list_ex (\<lambda>m. m = member_id) (sl_members l)"

lemma steward_list_contains_iff [simp]:
  "steward_list_contains l m \<longleftrightarrow> m \<in> set (sl_members l)"
  by (auto simp: steward_list_contains_def list_ex_iff)

text \<open>The reference definition of the walk: the first eligible member of the rotated list.\<close>

lemma steward_walk_find:
  "steward_walk ms s el steps = find el (map (\<lambda>k. ms ! ((s + k) mod length ms)) steps)"
  by (induction steps) (auto simp: Let_def)

lemma rotate_conv_map:
  "rotate s xs = map (\<lambda>k. xs ! ((s + k) mod length xs)) [0..<length xs]"
  by (rule nth_equalityI) (simp_all add: nth_rotate)

lemma steward_from_eq:
  "steward_from l e off el =
     (if is_exhausted l e then None
      else find el (rotate (unat (e - sl_election_epoch l) + off) (sl_members l)))"
  by (simp add: steward_from_def Let_def steward_walk_find mod_add_left_eq
      rotate_conv_map [of "unat (e - sl_election_epoch l) + off" "sl_members l"])

lemma find_None_set: "find P xs = None \<longleftrightarrow> (\<forall>x\<in>set xs. \<not> P x)"
  by (auto simp: find_None_iff)

lemma find_SomeD: "find P xs = Some x \<Longrightarrow> P x \<and> x \<in> set xs"
  by (metis find_Some_iff nth_mem)

lemma steward_from_SomeD:
  "steward_from l e off el = Some m \<Longrightarrow> el m \<and> m \<in> set (sl_members l) \<and> \<not> is_exhausted l e"
  by (auto simp: steward_from_eq split: if_splits dest: find_SomeD)

lemma steward_from_None_iff:
  "steward_from l e off el = None \<longleftrightarrow> is_exhausted l e \<or> (\<forall>m\<in>set (sl_members l). \<not> el m)"
  by (auto simp: steward_from_eq find_None_set)

lemma exhausted_offset:
  assumes "unat (sl_election_epoch l) + length (sl_members l) \<le> 2 ^ 64" "k < length (sl_members l)"
  shows "unat (sl_election_epoch l + word_of_nat k - sl_election_epoch l) = k"
    and "\<not> is_exhausted l (sl_election_epoch l + word_of_nat k)"
proof -
  have k: "unat (word_of_nat k :: u64) = k"
    using assms by (simp add: unat_of_nat)
  then show "unat (sl_election_epoch l + word_of_nat k - sl_election_epoch l) = k"
    by simp
  have "unat (sl_election_epoch l + word_of_nat k) = unat (sl_election_epoch l) + k"
    using assms k by (simp add: unat_plus_if_size word_size)
  then have "\<not> sl_election_epoch l + word_of_nat k < sl_election_epoch l"
    by (simp add: word_less_nat_alt)
  then show "\<not> is_exhausted l (sl_election_epoch l + word_of_nat k)"
    using assms k by (simp add: is_exhausted_def)
qed

section \<open>Properties\<close>

text \<open>
  C2. Every node derives the same steward list: generation depends on the multiset of
  members and not on the order in which a node enumerates them, errors included.
\<close>

theorem generate_order_independent:
  assumes "mset ids = mset ids'"
  shows "steward_list_generate x epoch cid ids sn config retry_round =
         steward_list_generate x epoch cid ids' sn config retry_round"
proof -
  have "length ids = length ids'" "ids = [] \<longleftrightarrow> ids' = []"
    using assms by (metis size_mset, metis mset_zero_iff)
  then show ?thesis
    using steward_order.sort_by_mset [OF assms] by (simp add: steward_list_generate_eq)
qed

theorem generate_order_independent_witness:
  "mset [[1], [2], [3::byte]] = mset [[3], [1], [2]] \<and>
   steward_list_generate demo_externals 5 [9] [[1], [2], [3]] 2 steward_list_config_default 0 =
   steward_list_generate demo_externals 5 [9] [[3], [1], [2]] 2 steward_list_config_default 0"
proof -
  have m: "mset [[1], [2], [3::byte]] = mset [[3], [1], [2]]" by simp
  show ?thesis using m generate_order_independent [OF m] by blast
qed

text \<open>
  C3. A peer accepts a proposed list exactly when it is the list it would have
  generated itself at the canonical size: under bounds from the validated constructor and
  a non-empty membership, validation returns true iff generation returns those members.
\<close>

theorem validate_iff_generate:
  assumes "steward_list_config_new a b = Inr config" and "ids \<noteq> []"
  shows "steward_list_validate x proposed epoch cid ids config retry_round = Inr True \<longleftrightarrow>
    (\<exists>l. steward_list_generate x epoch cid ids (compute_list_size config (length ids)) config
           retry_round = Inr l \<and> sl_members l = proposed)"
proof -
  have "is_valid_size config (compute_list_size config (length ids)) (length ids)"
    using assms(1) by (intro compute_list_size_valid steward_list_config_new_ok)
  moreover have "compute_list_size config (length ids) \<le> length ids"
    by (rule compute_list_size_le)
  ultimately show ?thesis using assms(2)
    by (auto simp: steward_list_validate_eq steward_list_generate_eq)
qed

theorem validate_iff_generate_witness:
  "steward_list_config_new 1 2 = Inr steward_list_config_default \<and>
   steward_list_validate demo_externals [[1], [2]] 5 [] [[3], [1], [2]] steward_list_config_default 0 =
     Inr True"
proof -
  have c: "steward_list_config_new 1 2 = Inr steward_list_config_default"
    and g: "steward_list_generate demo_externals 5 [] [[3], [1], [2]]
      (compute_list_size steward_list_config_default (length [[3], [1], [2::byte]]))
      steward_list_config_default 0 =
      Inr \<lparr>sl_members = [[1], [2]], sl_config = steward_list_config_default,
           sl_election_epoch = 5, sl_retry_round = 0\<rparr>"
    by code_simp+
  show ?thesis
    using c g validate_iff_generate [OF c, of "[[3], [1], [2]]" demo_externals "[[1], [2]]" 5 "[]" 0]
    by simp
qed

text \<open>
  C36. What an elected list is: exactly \<open>sn\<close> members drawn from the candidates, without
  repetition when the candidates have none, in ascending steward hash, and no candidate left
  out precedes an elected one.
\<close>

theorem generate_elects_least_hashes:
  assumes "steward_list_generate x epoch cid ids sn config retry_round = Inr l" and "distinct ids"
  shows "length (sl_members l) = sn \<and> distinct (sl_members l) \<and> set (sl_members l) \<subseteq> set ids \<and>
    sorted (map (\<lambda>m. compute_steward_hash x epoch retry_round m cid) (sl_members l)) \<and>
    (\<forall>m\<in>set (sl_members l). \<forall>n\<in>set ids - set (sl_members l).
       compute_steward_hash x epoch retry_round m cid \<le> compute_steward_hash x epoch retry_round n cid)"
proof -
  let ?c = "steward_cmp x epoch retry_round cid" and ?h = "\<lambda>m. compute_steward_hash x epoch retry_round m cid"
  let ?s = "sort_by ?c ids"
  have l: "sl_members l = take sn ?s"
    using assms(1) by (auto simp: steward_list_generate_eq split: if_splits)
  have le: "?h a \<le> ?h b" if "?c a b \<noteq> Greater" for a b
    using that by (auto simp: steward_cmp_def then_with_eq_Greater)
  have srt: "sorted_wrt (\<lambda>a b. ?h a \<le> ?h b) ?s"
    using steward_order.sorted_sort_by by (rule sorted_wrt_mono_rel [rotated]) (rule le)
  have "sorted (map ?h (take sn ?s))"
    using sorted_wrt_take [OF srt] by (simp add: sorted_map)
  moreover have "?h m \<le> ?h n" if "m \<in> set (take sn ?s)" "n \<in> set ids - set (take sn ?s)" for m n
  proof -
    have "n \<in> set (drop sn ?s)"
      using that(2) by (metis Diff_iff Un_iff append_take_drop_id set_append set_sort_by)
    moreover have "sorted_wrt (\<lambda>a b. ?h a \<le> ?h b) (take sn ?s @ drop sn ?s)" using srt by simp
    ultimately show ?thesis using that(1) unfolding sorted_wrt_append by blast
  qed
  ultimately show ?thesis
    using generate_members_length [OF assms(1)] generate_members_distinct [OF assms]
      generate_members_set [OF assms(1)] l by simp
qed

theorem generate_elects_least_hashes_witness:
  "\<exists>l. steward_list_generate demo_externals 5 [] [[3], [1], [2]] 2 steward_list_config_default 0 = Inr l \<and>
     sl_members l = [[1], [2]] \<and> distinct (sl_members l) \<and>
     sorted (map (\<lambda>m. compute_steward_hash demo_externals 5 0 m []) (sl_members l))"
proof -
  let ?l = "\<lparr>sl_members = [[1], [2]], sl_config = steward_list_config_default,
             sl_election_epoch = 5, sl_retry_round = 0\<rparr>"
  have g: "steward_list_generate demo_externals 5 [] [[3], [1], [2]] 2 steward_list_config_default 0 = Inr ?l"
    by code_simp
  show ?thesis using generate_elects_least_hashes [OF g] g by auto
qed

text \<open>
  The rotation walk is the first eligible member of the list rotated to the
  epoch's slot; it returns nobody exactly when the list is exhausted at that epoch or no
  member of it is eligible.
\<close>

theorem epoch_steward_first_eligible:
  "epoch_steward l epoch eligible =
     (if is_exhausted l epoch then None
      else find eligible (rotate (unat (epoch - sl_election_epoch l)) (sl_members l))) \<and>
   (epoch_steward l epoch eligible = None) =
     (is_exhausted l epoch \<or> filter eligible (sl_members l) = [])"
  unfolding epoch_steward_def
  by (simp add: steward_from_eq find_None_set filter_empty_conv)

text \<open>
  Epoch steward and backup are distinct eligible stewards, and there is a backup
  exactly when the list is in service and a second eligible member is on it.
\<close>

theorem epoch_and_backup_distinct:
  assumes "epoch_and_backup l epoch eligible = (Some es, backup)"
  shows "es \<in> set (sl_members l) \<and> eligible es \<and>
    (case backup of
       Some b \<Rightarrow> b \<noteq> es \<and> eligible b \<and> b \<in> set (sl_members l)
     | None \<Rightarrow> set (filter eligible (sl_members l)) = {es})"
proof -
  have es: "steward_from l epoch 0 eligible = Some es"
    and b: "backup = steward_from l epoch 1 (\<lambda>c. c \<noteq> es \<and> eligible c)"
    using assms by (auto simp: epoch_and_backup_def Let_def split: option.splits)
  note s = steward_from_SomeD [OF es]
  show ?thesis
  proof (cases backup)
    case None
    then have "\<forall>m\<in>set (sl_members l). \<not> (m \<noteq> es \<and> eligible m)"
      using b s by (simp add: steward_from_None_iff)
    with None s show ?thesis by auto
  next
    case (Some c)
    with b have "steward_from l epoch 1 (\<lambda>c. c \<noteq> es \<and> eligible c) = Some c" by simp
    from steward_from_SomeD [OF this] s Some show ?thesis by simp
  qed
qed

definition demo_list :: steward_list where
  "demo_list = \<lparr>sl_members = [[1], [2], [3]], sl_config = steward_list_config_default,
                sl_election_epoch = 10, sl_retry_round = 0\<rparr>"

theorem epoch_and_backup_distinct_witness:
  "epoch_and_backup demo_list 12 (\<lambda>m. m \<noteq> [3]) = (Some [1], Some [2]) \<and> [1] \<in> set (sl_members demo_list)"
proof -
  have e: "epoch_and_backup demo_list 12 (\<lambda>m. m \<noteq> [3]) = (Some [1], Some [2])" by code_simp
  show ?thesis using e epoch_and_backup_distinct [OF e] by blast
qed

text \<open>
  Rotation is fair: over the epochs a list serves, the stewards serve once each and in
  list order.
\<close>

theorem rotation_serves_each_once:
  assumes "unat (sl_election_epoch l) + length (sl_members l) \<le> 2 ^ 64"
  shows "map (\<lambda>k. epoch_steward l (sl_election_epoch l + word_of_nat k) (\<lambda>_. True))
           [0..<length (sl_members l)] = map Some (sl_members l)"
proof (rule nth_equalityI)
  fix i
  assume "i < length (map (\<lambda>k. epoch_steward l (sl_election_epoch l + word_of_nat k) (\<lambda>_. True))
           [0..<length (sl_members l)])"
  then have i: "i < length (sl_members l)" by simp
  note off = exhausted_offset [OF assms i]
  from i have r: "rotate i (sl_members l) \<noteq> []" "hd (rotate i (sl_members l)) = sl_members l ! i"
    using hd_rotate_conv_nth [of "sl_members l" i] by fastforce+
  have "find (\<lambda>_. True) ys = Some (hd ys)" if "ys \<noteq> []" for ys :: "bytes list"
    using that by (cases ys) auto
  with r off i show "map (\<lambda>k. epoch_steward l (sl_election_epoch l + word_of_nat k) (\<lambda>_. True))
           [0..<length (sl_members l)] ! i = map Some (sl_members l) ! i"
    by (simp add: epoch_steward_def steward_from_eq)
qed simp

theorem rotation_serves_each_once_witness:
  "map (\<lambda>k. epoch_steward demo_list (sl_election_epoch demo_list + word_of_nat k) (\<lambda>_. True))
     [0..<length (sl_members demo_list)] = [Some [1], Some [2], Some [3]]"
proof -
  have "unat (sl_election_epoch demo_list) + length (sl_members demo_list) \<le> 2 ^ 64"
    by (simp add: demo_list_def)
  from rotation_serves_each_once [OF this] show ?thesis by (simp add: demo_list_def)
qed

end
