(* ===== verification/Steward_Service.thy ===== *)
theory Steward_Service
  imports Steward_List
begin

text \<open>
  The per-conversation steward-list service, \<^verbatim>\<open>src/steward_list/service.rs\<close>: the
  installed list, the bounds and the salt, election proposals and the retry ladder that
  hands proposer authority on. The locale \<open>rotation_source\<close> is the contract the rest of
  the library uses (who serves an epoch), interpreted on the service.
\<close>

section \<open>State\<close>

definition DEFAULT_MAX_RETRIES :: u32 where "DEFAULT_MAX_RETRIES = 2"

datatype election_skip = NotExhausted | NotResponsibleProposer | NoEligibleCandidates

datatype election_decision =
    Skip election_skip
  | Proposed "bytes list" u64 u32

record steward_list_snapshot =
  sls_list :: steward_list
  sls_next_election_round :: u32
  sls_max_retries :: u32

record steward_list_service =
  svc_list :: "steward_list option"
  svc_config :: steward_list_config
  svc_conversation_id :: bytes
  svc_next_election_round :: u32
  svc_max_retries :: u32

definition svc_empty :: "steward_list_config \<Rightarrow> steward_list_service" where
  "svc_empty config =
     \<lparr>svc_list = None, svc_config = config, svc_conversation_id = [],
      svc_next_election_round = 0, svc_max_retries = DEFAULT_MAX_RETRIES\<rparr>"

definition svc_set_config :: "steward_list_config \<Rightarrow> steward_list_service \<Rightarrow> steward_list_service" where
  "svc_set_config config svc = svc\<lparr>svc_config := config\<rparr>"

definition svc_set_conversation_id :: "bytes \<Rightarrow> steward_list_service \<Rightarrow> steward_list_service" where
  "svc_set_conversation_id cid svc = svc\<lparr>svc_conversation_id := cid\<rparr>"

definition svc_set_max_retries :: "u32 \<Rightarrow> steward_list_service \<Rightarrow> steward_list_service" where
  "svc_set_max_retries m svc = svc\<lparr>svc_max_retries := m\<rparr>"

section \<open>Queries\<close>

definition svc_election_epoch :: "steward_list_service \<Rightarrow> u64 option" where
  "svc_election_epoch svc = map_option sl_election_epoch (svc_list svc)"

definition svc_is_steward :: "steward_list_service \<Rightarrow> bytes \<Rightarrow> bool" where
  "svc_is_steward svc member_id =
     (case svc_list svc of Some l \<Rightarrow> steward_list_contains l member_id | None \<Rightarrow> False)"

definition svc_is_exhausted :: "steward_list_service \<Rightarrow> u64 \<Rightarrow> bool" where
  "svc_is_exhausted svc epoch =
     (case svc_list svc of Some l \<Rightarrow> is_exhausted l epoch | None \<Rightarrow> False)"

definition election_required :: "steward_list_service \<Rightarrow> nat \<Rightarrow> bool" where
  "election_required svc member_count = (member_count > slc_sn_max (svc_config svc))"

definition svc_epoch_steward :: "steward_list_service \<Rightarrow> u64 \<Rightarrow> (bytes \<Rightarrow> bool) \<Rightarrow> bytes option" where
  "svc_epoch_steward svc epoch eligible =
     (case svc_list svc of Some l \<Rightarrow> epoch_steward l epoch eligible | None \<Rightarrow> None)"

definition svc_epoch_and_backup ::
  "steward_list_service \<Rightarrow> u64 \<Rightarrow> (bytes \<Rightarrow> bool) \<Rightarrow> bytes option \<times> bytes option" where
  "svc_epoch_and_backup svc epoch eligible =
     (case svc_list svc of Some l \<Rightarrow> epoch_and_backup l epoch eligible | None \<Rightarrow> (None, None))"

definition steward_members :: "steward_list_service \<Rightarrow> (bytes \<Rightarrow> bool) \<Rightarrow> bytes list" where
  "steward_members svc eligible =
     (case svc_list svc of Some l \<Rightarrow> filter eligible (sl_members l) | None \<Rightarrow> [])"

definition election_proposer :: "steward_list_service \<Rightarrow> (bytes \<Rightarrow> bool) \<Rightarrow> bytes option" where
  "election_proposer svc eligible =
     (case svc_list svc of
        Some l \<Rightarrow> epoch_steward l (sl_election_epoch l) eligible | None \<Rightarrow> None)"

text \<open>
  The authority sequence: the list's eligible members in rotation order, then the other
  eligible candidates by ascending id.
\<close>

definition authority_sequence ::
  "steward_list_service \<Rightarrow> bytes list \<Rightarrow> (bytes \<Rightarrow> bool) \<Rightarrow> bytes list" where
  "authority_sequence svc candidate_pool eligible =
     (let list_members = (case svc_list svc of Some l \<Rightarrow> sl_members l | None \<Rightarrow> []);
          seq = filter eligible list_members;
          pool_rest = filter (\<lambda>c. eligible c \<and> c \<notin> set seq) candidate_pool
      in seq @ sort_by ord_cmp pool_rest)"

definition responsible_proposer ::
  "steward_list_service \<Rightarrow> u32 \<Rightarrow> bytes list \<Rightarrow> (bytes \<Rightarrow> bool) \<Rightarrow> bytes option" where
  "responsible_proposer svc round candidate_pool eligible =
     (let seq = authority_sequence svc candidate_pool eligible
      in if seq = [] then None else Some (seq ! (unat round mod length seq)))"

section \<open>Elections\<close>

definition install_list ::
  "externals \<Rightarrow> u64 \<Rightarrow> bytes list \<Rightarrow> nat \<Rightarrow> u32 \<Rightarrow> steward_list_service \<Rightarrow>
   (conversation_error + unit) \<times> steward_list_service" where
  "install_list x epoch candidate_pool sn retry_round svc =
     (case steward_list_generate x epoch (svc_conversation_id svc) candidate_pool sn
             (svc_config svc) retry_round of
        Inl e \<Rightarrow> (Inl e, svc)
      | Inr l \<Rightarrow> (Inr (), svc\<lparr>svc_list := Some l\<rparr>))"

definition validate_proposed ::
  "externals \<Rightarrow> steward_list_service \<Rightarrow> bytes list \<Rightarrow> u64 \<Rightarrow> bytes list \<Rightarrow> u32 \<Rightarrow>
   conversation_error + bool" where
  "validate_proposed x svc proposed epoch candidate_pool retry_round =
     steward_list_validate x proposed epoch (svc_conversation_id svc) candidate_pool
       (svc_config svc) retry_round"

definition propose_election ::
  "externals \<Rightarrow> steward_list_service \<Rightarrow> u64 \<Rightarrow> bytes list \<Rightarrow> bytes \<Rightarrow> (bytes \<Rightarrow> bool) \<Rightarrow> bool \<Rightarrow>
   conversation_error + election_decision" where
  "propose_election x svc epoch candidate_pool self_member_id eligible recovery =
     (if \<not> recovery \<and> \<not> svc_is_exhausted svc epoch then Inr (Skip NotExhausted)
      else if candidate_pool = [] then Inr (Skip NoEligibleCandidates)
      else
        let retry_round = svc_next_election_round svc;
            is_authorized =
              (responsible_proposer svc retry_round candidate_pool eligible = Some self_member_id)
        in if \<not> is_authorized then Inr (Skip NotResponsibleProposer)
           else
             let sn = compute_list_size (svc_config svc) (length candidate_pool)
             in result_then
                  (steward_list_generate x epoch (svc_conversation_id svc) candidate_pool sn
                     (svc_config svc) retry_round)
                  (\<lambda>l. Inr (Proposed (sl_members l) epoch retry_round)))"

definition bump_retry :: "steward_list_service \<Rightarrow> steward_list_service" where
  "bump_retry svc =
     svc\<lparr>svc_next_election_round := saturating_add_u32 (svc_next_election_round svc) 1\<rparr>"

definition reset_retry :: "steward_list_service \<Rightarrow> steward_list_service" where
  "reset_retry svc = svc\<lparr>svc_next_election_round := 0\<rparr>"

definition svc_snapshot :: "steward_list_service \<Rightarrow> conversation_error + steward_list_snapshot" where
  "svc_snapshot svc =
     (case svc_list svc of
        None \<Rightarrow> Inl EmptyMembersList
      | Some l \<Rightarrow> Inr \<lparr>sls_list = l, sls_next_election_round = svc_next_election_round svc,
                       sls_max_retries = svc_max_retries svc\<rparr>)"

definition svc_restore :: "steward_list_snapshot \<Rightarrow> steward_list_service \<Rightarrow> steward_list_service" where
  "svc_restore snap svc =
     svc\<lparr>svc_list := Some (sls_list snap),
         svc_next_election_round := sls_next_election_round snap,
         svc_max_retries := sls_max_retries snap\<rparr>"

section \<open>The rotation contract\<close>

text \<open>
  What the commit round, scoring and voting rely on: the member serving an epoch is an
  eligible steward, and there is one as long as the service covers the epoch with an
  eligible steward.
\<close>

locale rotation_source =
  fixes serving :: "'s \<Rightarrow> u64 \<Rightarrow> (bytes \<Rightarrow> bool) \<Rightarrow> bytes option"
    and steward :: "'s \<Rightarrow> bytes \<Rightarrow> bool"
    and covers :: "'s \<Rightarrow> u64 \<Rightarrow> bool"
  assumes serving_sound: "serving s e el = Some m \<Longrightarrow> el m \<and> steward s m"
    and serving_complete: "covers s e \<Longrightarrow> steward s m \<Longrightarrow> el m \<Longrightarrow> serving s e el \<noteq> None"
begin

lemma serving_mono:
  assumes "serving s e el = Some m" "covers s e" "\<And>c. el c \<Longrightarrow> el' c"
  shows "\<exists>m'. serving s e el' = Some m' \<and> el' m' \<and> steward s m'"
proof -
  have "steward s m" "el' m" using serving_sound [OF assms(1)] assms(3) by auto
  with serving_complete [OF assms(2)] obtain m' where "serving s e el' = Some m'" by blast
  with serving_sound [OF this] show ?thesis by blast
qed

lemma serving_excludes: "serving s e (\<lambda>c. c \<noteq> m \<and> el c) \<noteq> Some m"
  using serving_sound by blast

lemma serving_None: "covers s e \<Longrightarrow> serving s e el = None \<longleftrightarrow> (\<forall>m. steward s m \<longrightarrow> \<not> el m)"
  by (metis not_None_eq serving_complete serving_sound)

end

definition svc_covers :: "steward_list_service \<Rightarrow> u64 \<Rightarrow> bool" where
  "svc_covers svc epoch \<longleftrightarrow> svc_list svc \<noteq> None \<and> \<not> svc_is_exhausted svc epoch"

interpretation steward_rotation: rotation_source svc_epoch_steward svc_is_steward svc_covers
proof
  fix s e el m
  show "svc_epoch_steward s e el = Some m \<Longrightarrow> el m \<and> svc_is_steward s m"
    by (auto simp: svc_epoch_steward_def svc_is_steward_def epoch_steward_def
        dest: steward_from_SomeD split: option.splits)
  show "svc_covers s e \<Longrightarrow> svc_is_steward s m \<Longrightarrow> el m \<Longrightarrow> svc_epoch_steward s e el \<noteq> None"
    by (auto simp: svc_epoch_steward_def svc_is_steward_def svc_covers_def svc_is_exhausted_def
        epoch_steward_def steward_from_None_iff simp del: not_None_eq split: option.splits)
qed

lemma set_authority_sequence:
  "set (authority_sequence svc pool el) =
     {c. el c \<and> (svc_is_steward svc c \<or> c \<in> set pool)}"
  by (auto simp: authority_sequence_def Let_def svc_is_steward_def split: option.splits)

lemma authority_sequence_pool_mset:
  "mset pool = mset pool' \<Longrightarrow> authority_sequence svc pool el = authority_sequence svc pool' el"
  by (simp add: authority_sequence_def Let_def byte_order.sort_by_eq_iff_mset mset_filter)

lemma length_authority_sequence:
  "length (authority_sequence svc pool el) \<le>
     (case svc_list svc of Some l \<Rightarrow> length (sl_members l) | None \<Rightarrow> 0) + length pool"
  by (auto simp: authority_sequence_def Let_def intro!: add_mono split: option.splits)

lemma propose_election_ProposedD:
  assumes "propose_election x svc epoch pool self el rec = Inr (Proposed ps e r)"
  shows "e = epoch" "r = svc_next_election_round svc" "pool \<noteq> []"
    "responsible_proposer svc r pool el = Some self"
    "\<exists>l. steward_list_generate x epoch (svc_conversation_id svc) pool
           (compute_list_size (svc_config svc) (length pool)) (svc_config svc) r = Inr l \<and>
         sl_members l = ps"
  using assms
  by (auto simp: propose_election_def Let_def result_then_eq_Inr split: if_splits)

section \<open>Properties\<close>

text \<open>
  C31. Agreement on elections: the list an honest proposer puts forward is accepted by every
  peer that has the same bounds and salt and the same set of settled candidates, whatever
  order it holds them in.
\<close>

theorem proposed_election_validates_at_peers:
  assumes "propose_election x svc epoch pool self el rec = Inr (Proposed ps e r)"
    and "svc_config peer = svc_config svc" and "svc_conversation_id peer = svc_conversation_id svc"
    and "mset pool' = mset pool"
  shows "validate_proposed x peer ps e pool' r = Inr True"
proof -
  note P = propose_election_ProposedD [OF assms(1)]
  obtain l where l: "steward_list_generate x epoch (svc_conversation_id svc) pool
           (compute_list_size (svc_config svc) (length pool)) (svc_config svc) r = Inr l"
    "sl_members l = ps" using P(5) by blast
  have n: "length pool' = length pool" "pool' \<noteq> []"
    using assms(4) P(3) by (metis size_mset, metis mset_zero_iff)
  have "sort_by (steward_cmp x epoch r (svc_conversation_id svc)) pool' =
      sort_by (steward_cmp x epoch r (svc_conversation_id svc)) pool"
    using assms(4) by (rule steward_order.sort_by_mset)
  then show ?thesis
    using l n P(1,2) assms(2,3) compute_list_size_le [of "svc_config svc" "length pool"]
    by (auto simp: validate_proposed_def steward_list_validate_eq steward_list_generate_eq
        split: if_splits)
qed

definition demo_svc :: steward_list_service where
  "demo_svc = \<lparr>svc_list = Some demo_list, svc_config = steward_list_config_default,
     svc_conversation_id = [], svc_next_election_round = 0, svc_max_retries = 2\<rparr>"

theorem proposed_election_validates_at_peers_witness:
  "propose_election demo_externals demo_svc 13 [[1], [2], [3]] [1] (\<lambda>_. True) False =
     Inr (Proposed [[1], [2]] 13 0) \<and>
   validate_proposed demo_externals demo_svc [[1], [2]] 13 [[3], [2], [1]] 0 = Inr True"
proof -
  have p: "propose_election demo_externals demo_svc 13 [[1], [2], [3]] [1] (\<lambda>_. True) False =
     Inr (Proposed [[1], [2]] 13 0)" by code_simp
  have m: "mset [[3], [2], [1::byte]] = mset [[1], [2], [3]]" by simp
  show ?thesis
    using p proposed_election_validates_at_peers [OF p refl refl m] by blast
qed

text \<open>
  C40. An accepted list is installed as voted: generating from a list that validated, with
  the voted seed, yields exactly that list again, so the stewards in force are the ones the
  group agreed on.
\<close>

theorem installed_list_is_the_voted_one:
  assumes "validate_proposed x svc ps e pool r = Inr True"
    and "config_bounds_ok (svc_config svc)"
  shows "\<exists>svc'. install_list x e ps (length ps) r svc = (Inr (), svc') \<and>
    (\<exists>l. svc_list svc' = Some l \<and> sl_members l = ps \<and> sl_election_epoch l = e \<and> sl_retry_round l = r)"
proof -
  let ?c = "steward_cmp x e r (svc_conversation_id svc)" and ?n = "compute_list_size (svc_config svc) (length pool)"
  have v: "pool \<noteq> []" "length ps = ?n" "take ?n (sort_by ?c pool) = ps"
    using assms(1) by (auto simp: validate_proposed_def steward_list_validate_eq split: if_splits)
  have "sort_by ?c ps = ps"
    using steward_order.sort_by_take [of x e r "svc_conversation_id svc" ?n pool] v(3) by simp
  moreover have "0 < ?n" using assms(2) v(1) by (simp add: compute_list_size_pos)
  moreover have "is_valid_size (svc_config svc) (length ps) (length ps)"
    using compute_list_size_valid [OF assms(2), of "length ps"] v(2)
    by (simp add: compute_list_size_idem assms(2))
  ultimately show ?thesis
    using v(2) by (auto simp: install_list_def steward_list_generate_eq)
qed

theorem installed_list_is_the_voted_one_witness:
  "validate_proposed demo_externals demo_svc [[1], [2]] 13 [[3], [2], [1]] 0 = Inr True \<and>
   (\<exists>svc'. install_list demo_externals 13 [[1], [2]] (length [[1], [2::byte]]) 0 demo_svc = (Inr (), svc') \<and>
     (\<exists>l. svc_list svc' = Some l \<and> sl_members l = [[1], [2]] \<and> sl_election_epoch l = 13 \<and>
        sl_retry_round l = 0))"
proof -
  have v: "validate_proposed demo_externals demo_svc [[1], [2]] 13 [[3], [2], [1]] 0 = Inr True"
    and c: "config_bounds_ok (svc_config demo_svc)" by code_simp+
  show ?thesis using v installed_list_is_the_voted_one [OF v c] by blast
qed

text \<open>
  C35. No candidate can strand an election: every eligible steward and every eligible
  member of the candidate pool gets proposer authority in some retry round below the number
  of candidates, and authority never goes to anybody else.
\<close>

theorem proposer_authority_reaches_everyone:
  assumes "el c" and "svc_is_steward svc c \<or> c \<in> set pool"
    and "length (authority_sequence svc pool el) \<le> 2 ^ 32"
  shows "(\<exists>r. unat r < length (authority_sequence svc pool el) \<and>
              responsible_proposer svc r pool el = Some c) \<and>
    (\<forall>r. \<exists>d. responsible_proposer svc r pool el = Some d \<and> el d \<and>
              (svc_is_steward svc d \<or> d \<in> set pool))"
proof -
  let ?s = "authority_sequence svc pool el"
  have "c \<in> set ?s" using assms by (simp add: set_authority_sequence)
  then obtain i where i: "i < length ?s" "?s ! i = c" by (meson in_set_conv_nth)
  then have "unat (word_of_nat i :: u32) = i" using assms(3) by (simp add: unat_of_nat)
  then have "responsible_proposer svc (word_of_nat i) pool el = Some c"
    using i by (auto simp: responsible_proposer_def Let_def)
  moreover have "\<exists>d. responsible_proposer svc r pool el = Some d \<and> d \<in> set ?s" for r
    using i(1) by (auto simp: responsible_proposer_def Let_def intro!: nth_mem)
  ultimately show ?thesis
    using i \<open>unat (word_of_nat i :: u32) = i\<close> unfolding set_authority_sequence by force
qed

theorem proposer_authority_reaches_everyone_witness:
  "length (authority_sequence demo_svc [[7], [5]] (\<lambda>m. m \<noteq> [2])) = 4 \<and>
   (\<exists>r. unat r < 4 \<and> responsible_proposer demo_svc r [[7], [5]] (\<lambda>m. m \<noteq> [2]) = Some [7])"
proof -
  have n: "length (authority_sequence demo_svc [[7], [5]] (\<lambda>m. m \<noteq> [2])) = 4" by code_simp
  have "\<exists>r. unat r < length (authority_sequence demo_svc [[7], [5]] (\<lambda>m. m \<noteq> [2])) \<and>
          responsible_proposer demo_svc r [[7], [5]] (\<lambda>m. m \<noteq> [2]) = Some [7]"
    using proposer_authority_reaches_everyone [of "\<lambda>m. m \<noteq> [2]" "[7]" demo_svc "[[7], [5]]"] n by simp
  with n show ?thesis by simp
qed

text \<open>
  Exactly one member proposes: among nodes with the same service state and the same
  candidates, any two that put an election forward are the same member.
\<close>

theorem single_election_proposer:
  assumes "propose_election x svc epoch pool self el rec = Inr (Proposed ps e r)"
    and "propose_election x svc epoch pool' self' el rec' = Inr (Proposed ps' e' r')"
    and "mset pool' = mset pool"
  shows "self' = self \<and> ps' = ps \<and> e' = e \<and> r' = r"
proof -
  note P = propose_election_ProposedD [OF assms(1)] and Q = propose_election_ProposedD [OF assms(2)]
  have "responsible_proposer svc r pool' el = responsible_proposer svc r pool el"
    using authority_sequence_pool_mset [OF assms(3)] by (simp add: responsible_proposer_def)
  moreover have "length pool' = length pool" using assms(3) by (metis size_mset)
  moreover have "sort_by (steward_cmp x epoch r (svc_conversation_id svc)) pool' =
      sort_by (steward_cmp x epoch r (svc_conversation_id svc)) pool"
    using assms(3) by (rule steward_order.sort_by_mset)
  ultimately show ?thesis
    using P Q by (auto simp: steward_list_generate_eq split: if_splits)
qed

theorem single_election_proposer_witness:
  "propose_election demo_externals demo_svc 13 [[1], [2], [3]] [1] (\<lambda>_. True) False =
     Inr (Proposed [[1], [2]] 13 0) \<and>
   propose_election demo_externals demo_svc 13 [[2], [1], [3]] [1] (\<lambda>_. True) True =
     Inr (Proposed [[1], [2]] 13 0) \<and> [1::byte] = [1]"
proof -
  have p: "propose_election demo_externals demo_svc 13 [[1], [2], [3]] [1] (\<lambda>_. True) False =
     Inr (Proposed [[1], [2]] 13 0)"
    and q: "propose_election demo_externals demo_svc 13 [[2], [1], [3]] [1] (\<lambda>_. True) True =
     Inr (Proposed [[1], [2]] 13 0)" by code_simp+
  have m: "mset [[2], [1], [3::byte]] = mset [[1], [2], [3]]" by simp
  show ?thesis using p q single_election_proposer [OF p q m] by blast
qed

text \<open>
  A snapshot restores the service: restoring what was captured, into any service that
  runs under the same bounds and salt, gives back the captured service; without a list there
  is nothing to capture.
\<close>

theorem svc_snapshot_restore:
  "svc_restore snap (svc_restore other blank) = svc_restore snap blank \<and>
   (case svc_snapshot svc of
      Inr s \<Rightarrow> svc_list svc \<noteq> None \<and>
        svc_restore s (svc_set_conversation_id (svc_conversation_id svc)
          (svc_empty (svc_config svc))) = svc
    | Inl e \<Rightarrow> svc_list svc = None \<and> e = EmptyMembersList)"
  by (cases svc) (auto simp: svc_snapshot_def svc_restore_def svc_empty_def
      svc_set_conversation_id_def split: option.splits)

end
