(* ===== verification/Mls_Service.thy ===== *)
theory Mls_Service
  imports Messages
begin

text \<open>
  The MLS engine wrapper, \<^verbatim>\<open>src/mls_crypto/service.rs\<close>. OpenMLS itself is another crate: its
  operations are the fields of the parameter record \<open>openmls\<close>, over a group type \<open>'g\<close> (the
  \<^verbatim>\<open>MlsGroup\<close> with the provider's storage and the signer) and one type \<open>'o\<close> for the opaque
  objects it hands out (protocol messages, welcomes, queued proposals, staged commits, key
  packages, outgoing messages). Operations that change the group return the result and the new
  group; errors are the strings OpenMLS reports, wrapped by the source's \<^verbatim>\<open>From\<close>
  implementations into the variants of \<open>mls_error\<close>.
\<close>

section \<open>OpenMLS\<close>

datatype 'o mls_message_body =
    PrivateMessage 'o | PublicMessage 'o | WelcomeBody 'o | OtherBody

datatype content_type = ApplicationContentType | ProposalContentType | CommitContentType

datatype mls_sender = MemberSender u32 | OtherSender

datatype 'o processed_content =
    ApplicationContent bytes | ProposalContent 'o | StagedCommitContent 'o | OtherContent

datatype stage_welcome_error =
    NoMatchingKeyPackage | JoinerSecretNotFound | OtherStageWelcomeError string

record ('g, 'o) openmls =
  om_new_group :: "bytes \<Rightarrow> string + 'g"
  om_stage_welcome :: "'o \<Rightarrow> stage_welcome_error + 'o"
  om_into_group :: "'o \<Rightarrow> string + 'g"
  om_delete :: "'g \<Rightarrow> (string + unit) \<times> 'g"
  om_epoch :: "'g \<Rightarrow> u64"
  om_group_id :: "'g \<Rightarrow> bytes"
  om_members :: "'g \<Rightarrow> member list"
  om_member_at :: "'g \<Rightarrow> u32 \<Rightarrow> member option"
  om_own_leaf_index :: "'g \<Rightarrow> u32"
  om_key_package_validate :: "'g \<Rightarrow> bytes \<Rightarrow> string + 'o"
  om_propose_add_member :: "'o \<Rightarrow> 'g \<Rightarrow> (string + 'o) \<times> 'g"
  om_propose_remove_member :: "u32 \<Rightarrow> 'g \<Rightarrow> (string + 'o) \<times> 'g"
  om_commit_to_pending_proposals :: "'g \<Rightarrow> (string + ('o \<times> 'o option)) \<times> 'g"
  om_to_bytes :: "'o \<Rightarrow> string + bytes"
  om_pending_commit :: "'g \<Rightarrow> 'o option"
  om_merge_pending_commit :: "'g \<Rightarrow> (string + unit) \<times> 'g"
  om_clear_pending_commit :: "'g \<Rightarrow> (string + unit) \<times> 'g"
  om_clear_pending_proposals :: "'g \<Rightarrow> (string + unit) \<times> 'g"
  om_deserialize :: "bytes \<Rightarrow> string + 'o mls_message_body"
  om_msg_group_id :: "'o \<Rightarrow> bytes"
  om_msg_epoch :: "'o \<Rightarrow> u64"
  om_msg_content_type :: "'o \<Rightarrow> content_type"
  om_process_message :: "'o \<Rightarrow> 'g \<Rightarrow> (string + (mls_sender \<times> 'o processed_content)) \<times> 'g"
  om_store_pending_proposal :: "'o \<Rightarrow> 'g \<Rightarrow> (string + unit) \<times> 'g"
  om_staged_self_removed :: "'o \<Rightarrow> bool"
  om_staged_add_keys :: "'o \<Rightarrow> bytes list"
  om_staged_removed_leaves :: "'o \<Rightarrow> u32 list"
  om_merge_staged_commit :: "'o \<Rightarrow> 'g \<Rightarrow> (string + unit) \<times> 'g"
  om_create_message :: "bytes \<Rightarrow> 'g \<Rightarrow> (string + 'o) \<times> 'g"

section \<open>State, construction, queries\<close>

record ('g, 'o) mls_service =
  ms_conversation_id :: string
  ms_group :: 'g
  ms_pending_staged_commit :: "'o option"

text \<open>An OpenMLS call on the service's group, its error wrapped by \<open>wrap\<close>.\<close>

definition on_group ::
  "(string \<Rightarrow> mls_error) \<Rightarrow> ('g \<Rightarrow> (string + 'a) \<times> 'g) \<Rightarrow> ('g, 'o) mls_service \<Rightarrow>
   (mls_error + 'a) \<times> ('g, 'o) mls_service" where
  "on_group wrap f mls =
     (case f (ms_group mls) of
        (Inl e, g) \<Rightarrow> (Inl (wrap e), mls\<lparr>ms_group := g\<rparr>)
      | (Inr v, g) \<Rightarrow> (Inr v, mls\<lparr>ms_group := g\<rparr>))"

definition map_error :: "(string \<Rightarrow> mls_error) \<Rightarrow> string + 'a \<Rightarrow> mls_error + 'a" where
  "map_error wrap r = (case r of Inl e \<Rightarrow> Inl (wrap e) | Inr v \<Rightarrow> Inr v)"

definition validate_key_package ::
  "externals \<Rightarrow> ('g, 'o) openmls \<Rightarrow> 'g \<Rightarrow> bytes \<Rightarrow> mls_error + 'o" where
  "validate_key_package x om g key_package_bytes =
     result_then (map_error KeyPackageTls (x_key_package_in x key_package_bytes)) (\<lambda>_.
       map_error MlsStorage (om_key_package_validate om g key_package_bytes))"

definition new_as_creator ::
  "('g, 'o) openmls \<Rightarrow> string \<Rightarrow> mls_error + ('g, 'o) mls_service" where
  "new_as_creator om conversation_id =
     result_then (map_error NewGroup (om_new_group om (string_bytes conversation_id))) (\<lambda>g.
       Inr \<lparr>ms_conversation_id = conversation_id, ms_group = g, ms_pending_staged_commit = None\<rparr>)"

text \<open>\<open>utf8_lossy\<close> stands for \<^verbatim>\<open>String::from_utf8_lossy\<close>.\<close>

definition new_from_welcome ::
  "('g, 'o) openmls \<Rightarrow> (bytes \<Rightarrow> string) \<Rightarrow> bytes \<Rightarrow> mls_error + ('g, 'o) mls_service option" where
  "new_from_welcome om utf8_lossy welcome_bytes =
     result_then (map_error MlsMessageDeserialize (om_deserialize om welcome_bytes)) (\<lambda>body.
       case body of
         WelcomeBody welcome \<Rightarrow>
           (case om_stage_welcome om welcome of
              Inl NoMatchingKeyPackage \<Rightarrow> Inr None
            | Inl JoinerSecretNotFound \<Rightarrow> Inr None
            | Inl (OtherStageWelcomeError e) \<Rightarrow> Inl (WelcomeError e)
            | Inr staged \<Rightarrow>
                result_then (map_error WelcomeError (om_into_group om staged)) (\<lambda>g.
                  Inr (Some \<lparr>ms_conversation_id = utf8_lossy (om_group_id om g), ms_group = g,
                             ms_pending_staged_commit = None\<rparr>)))
       | _ \<Rightarrow> Inr None)"

definition mls_delete ::
  "('g, 'o) openmls \<Rightarrow> ('g, 'o) mls_service \<Rightarrow> (mls_error + unit) \<times> ('g, 'o) mls_service" where
  "mls_delete om mls = on_group MlsStorage (om_delete om) mls"

definition mls_epoch :: "('g, 'o) openmls \<Rightarrow> ('g, 'o) mls_service \<Rightarrow> u64" where
  "mls_epoch om mls = om_epoch om (ms_group mls)"

definition mls_members :: "('g, 'o) openmls \<Rightarrow> ('g, 'o) mls_service \<Rightarrow> bytes list" where
  "mls_members om mls = map (\<lambda>m. member_id_of (mbr_index m)) (om_members om (ms_group mls))"

definition is_member :: "('g, 'o) openmls \<Rightarrow> ('g, 'o) mls_service \<Rightarrow> bytes \<Rightarrow> bool" where
  "is_member om mls member_id =
     (case leaf_index_of member_id of
        Some index \<Rightarrow> om_member_at om (ms_group mls) index \<noteq> None | None \<Rightarrow> False)"

definition leaf_of :: "('g, 'o) openmls \<Rightarrow> ('g, 'o) mls_service \<Rightarrow> member_id \<Rightarrow> u32 option" where
  "leaf_of om mls handle =
     (case om_member_at om (ms_group mls) (mid_leaf handle) of
        None \<Rightarrow> None
      | Some member \<Rightarrow> if mbr_signature_key member = mid_tag handle then Some (mid_leaf handle) else None)"

definition member_id_at :: "('g, 'o) openmls \<Rightarrow> ('g, 'o) mls_service \<Rightarrow> bytes \<Rightarrow> member_id option" where
  "member_id_at om mls member_id =
     (case leaf_index_of member_id of
        None \<Rightarrow> None
      | Some index \<Rightarrow> map_option member_id_from (om_member_at om (ms_group mls) index))"

section \<open>Our own commit\<close>

fun propose_updates ::
  "externals \<Rightarrow> ('g, 'o) openmls \<Rightarrow> mls_commit_input list \<Rightarrow> bytes list \<Rightarrow> ('g, 'o) mls_service \<Rightarrow>
   (mls_error + bytes list) \<times> ('g, 'o) mls_service" where
  "propose_updates x om [] proposals mls = (Inr proposals, mls)"
| "propose_updates x om (AddInput kp # updates) proposals mls =
     (case validate_key_package x om (ms_group mls) kp of
        Inl e \<Rightarrow> (Inl e, mls)
      | Inr key_package \<Rightarrow>
          try_then (on_group ProposeAddMember (om_propose_add_member om key_package) mls) (\<lambda>out mls'.
          try_then (map_error MlsMessageSerialize (om_to_bytes om out), mls') (\<lambda>b mls''.
            propose_updates x om updates (proposals @ [b]) mls'')))"
| "propose_updates x om (RemoveInput member_id # updates) proposals mls =
     (case leaf_index_of member_id of
        Some index \<Rightarrow>
          if om_member_at om (ms_group mls) index \<noteq> None then
            try_then (on_group ProposeRemoveMember (om_propose_remove_member om index) mls) (\<lambda>out mls'.
            try_then (map_error MlsMessageSerialize (om_to_bytes om out), mls') (\<lambda>b mls''.
              propose_updates x om updates (proposals @ [b]) mls''))
          else propose_updates x om updates proposals mls
      | None \<Rightarrow> propose_updates x om updates proposals mls)"

definition create_commit_candidate ::
  "externals \<Rightarrow> ('g, 'o) openmls \<Rightarrow> mls_commit_input list \<Rightarrow> ('g, 'o) mls_service \<Rightarrow>
   (mls_error + commit_artifacts) \<times> ('g, 'o) mls_service" where
  "create_commit_candidate x om updates mls =
     try_then (propose_updates x om updates [] mls) (\<lambda>proposals mls1.
     try_then (on_group CommitToPendingProposals (om_commit_to_pending_proposals om) mls1)
       (\<lambda>(commit_msg, welcome) mls2.
     try_then (case welcome of
                 None \<Rightarrow> (Inr None, mls2)
               | Some w \<Rightarrow> (result_then (map_error MlsMessageSerialize (om_to_bytes om w)) (Inr \<circ> Some), mls2))
       (\<lambda>welcome_bytes mls3.
     try_then (map_error MlsMessageSerialize (om_to_bytes om commit_msg), mls3) (\<lambda>commit mls4.
       (Inr \<lparr>ca_proposals = proposals, ca_commit = commit, ca_welcome = welcome_bytes\<rparr>, mls4)))))"

definition removed_members_of ::
  "('g, 'o) openmls \<Rightarrow> ('g, 'o) mls_service \<Rightarrow> 'o \<Rightarrow> member_id list" where
  "removed_members_of om mls staged =
     List.map_filter (\<lambda>leaf. map_option member_id_from (om_member_at om (ms_group mls) leaf))
       (om_staged_removed_leaves om staged)"

definition populated_leaves :: "('g, 'o) openmls \<Rightarrow> ('g, 'o) mls_service \<Rightarrow> u32 set" where
  "populated_leaves om mls = set (map mbr_index (om_members om (ms_group mls)))"

definition mls_delta ::
  "('g, 'o) openmls \<Rightarrow> ('g, 'o) mls_service \<Rightarrow> u32 set \<Rightarrow> member_id list \<Rightarrow> membership_delta" where
  "mls_delta om mls before removed =
     (let removed_set = set (map mid_leaf removed)
      in \<lparr>md_added = filter (\<lambda>m. mbr_index m \<notin> before \<or> mbr_index m \<in> removed_set)
                       (om_members om (ms_group mls)),
          md_removed = removed\<rparr>)"

definition merge_own_commit ::
  "('g, 'o) openmls \<Rightarrow> ('g, 'o) mls_service \<Rightarrow>
   (mls_error + membership_delta) \<times> ('g, 'o) mls_service" where
  "merge_own_commit om mls =
     (let removed = (case om_pending_commit om (ms_group mls) of
                       Some staged \<Rightarrow> removed_members_of om mls staged | None \<Rightarrow> []);
          before = populated_leaves om mls
      in try_then (on_group MergePendingCommit (om_merge_pending_commit om) mls)
           (\<lambda>_ mls'. (Inr (mls_delta om mls' before removed), mls')))"

definition discard_own_commit ::
  "('g, 'o) openmls \<Rightarrow> ('g, 'o) mls_service \<Rightarrow> (mls_error + unit) \<times> ('g, 'o) mls_service" where
  "discard_own_commit om mls =
     try_then (on_group MlsStorage (om_clear_pending_commit om) mls) (\<lambda>_ mls'.
       on_group MlsStorage (om_clear_pending_proposals om) mls')"

section \<open>A peer's commit\<close>

text \<open>\<^verbatim>\<open>tls_deserialize_bytes\<close> followed by \<^verbatim>\<open>try_into_protocol_message\<close>.\<close>

definition protocol_message_of :: "('g, 'o) openmls \<Rightarrow> bytes \<Rightarrow> mls_error + 'o" where
  "protocol_message_of om b =
     result_then (map_error MlsMessageDeserialize (om_deserialize om b)) (\<lambda>body.
       case body of
         PrivateMessage m \<Rightarrow> Inr m
       | PublicMessage m \<Rightarrow> Inr m
       | _ \<Rightarrow> Inl (ProtocolMessageError ''wrong message type''))"

text \<open>
  The proposal loop: \<open>Inr (Some senders)\<close> when every slot held a proposal from a member,
  \<open>Inr None\<close> for the benign abort.
\<close>

fun stage_proposals ::
  "('g, 'o) openmls \<Rightarrow> bytes list \<Rightarrow> bytes list \<Rightarrow> ('g, 'o) mls_service \<Rightarrow>
   (mls_error + bytes list option) \<times> ('g, 'o) mls_service" where
  "stage_proposals om [] senders mls = (Inr (Some senders), mls)"
| "stage_proposals om (b # bs) senders mls =
     (case protocol_message_of om b of
        Inl e \<Rightarrow> (Inl e, mls)
      | Inr m \<Rightarrow>
          try_then (on_group ProcessMessage (om_process_message om m) mls) (\<lambda>(sender, content) mls'.
            case sender of
              OtherSender \<Rightarrow> (Inr None, mls')
            | MemberSender idx \<Rightarrow>
                (case content of
                   ProposalContent p \<Rightarrow>
                     try_then (on_group MlsStorage (om_store_pending_proposal om p) mls')
                       (\<lambda>_ mls''. stage_proposals om bs (senders @ [member_id_of idx]) mls'')
                 | _ \<Rightarrow> (Inr None, mls'))))"

definition staged_actions_of :: "('g, 'o) openmls \<Rightarrow> 'o \<Rightarrow> mls_proposal_output list" where
  "staged_actions_of om staged =
     map AddOutput (om_staged_add_keys om staged) @
     map (RemoveOutput \<circ> member_id_of) (om_staged_removed_leaves om staged)"

definition stage_remote_commit ::
  "('g, 'o) openmls \<Rightarrow> bytes list \<Rightarrow> bytes \<Rightarrow> ('g, 'o) mls_service \<Rightarrow>
   (mls_error + staged_candidate_result) \<times> ('g, 'o) mls_service" where
  "stage_remote_commit om proposals commit_bytes mls =
     try_then (stage_proposals om proposals [] mls) (\<lambda>staged_senders mls1.
       case staged_senders of
         None \<Rightarrow> (Inr Aborted, mls1)
       | Some proposal_senders \<Rightarrow>
           (case protocol_message_of om commit_bytes of
              Inl e \<Rightarrow> (Inl e, mls1)
            | Inr m \<Rightarrow>
                if om_msg_group_id om m \<noteq> om_group_id om (ms_group mls1) then (Inr Aborted, mls1)
                else if om_msg_epoch om m < om_epoch om (ms_group mls1) then (Inr Aborted, mls1)
                else
                  try_then (on_group ProcessMessage (om_process_message om m) mls1)
                    (\<lambda>(sender, content) mls2.
                      case sender of
                        OtherSender \<Rightarrow> (Inr Aborted, mls2)
                      | MemberSender idx \<Rightarrow>
                          let commit_sender = member_id_of idx in
                          (case content of
                             StagedCommitContent staged \<Rightarrow>
                               if list_ex (\<lambda>s. s \<noteq> commit_sender) proposal_senders
                               then (Inr (BundleSenderMismatch commit_sender), mls2)
                               else (Inr (Staged commit_sender (om_staged_self_removed om staged)
                                           (staged_actions_of om staged)),
                                     mls2\<lparr>ms_pending_staged_commit := Some staged\<rparr>)
                           | _ \<Rightarrow> (Inr Aborted, mls2)))))"

definition merge_staged_commit ::
  "('g, 'o) openmls \<Rightarrow> ('g, 'o) mls_service \<Rightarrow>
   (mls_error + membership_delta) \<times> ('g, 'o) mls_service" where
  "merge_staged_commit om mls0 =
     (let mls = mls0\<lparr>ms_pending_staged_commit := None\<rparr> in
      case ms_pending_staged_commit mls0 of
        None \<Rightarrow> (Inl (NoPendingStagedCommit (ms_conversation_id mls0)), mls)
      | Some staged \<Rightarrow>
          let removed = removed_members_of om mls staged;
              before = populated_leaves om mls
          in try_then (on_group MergeCommit (om_merge_staged_commit om staged) mls)
               (\<lambda>_ mls'. (Inr (mls_delta om mls' before removed), mls')))"

definition discard_staged_commit ::
  "('g, 'o) openmls \<Rightarrow> ('g, 'o) mls_service \<Rightarrow> (mls_error + unit) \<times> ('g, 'o) mls_service" where
  "discard_staged_commit om mls =
     on_group MlsStorage (om_clear_pending_proposals om) (mls\<lparr>ms_pending_staged_commit := None\<rparr>)"

section \<open>Application messages\<close>

definition build_message ::
  "externals \<Rightarrow> ('g, 'o) openmls \<Rightarrow> app_message \<Rightarrow> ('g, 'o) mls_service \<Rightarrow>
   (mls_error + bytes) \<times> ('g, 'o) mls_service" where
  "build_message x om app_msg mls =
     try_then (on_group CreateMessage (om_create_message om (x_encode_app x app_msg)) mls)
       (\<lambda>out mls'. (map_error MlsMessageSerialize (om_to_bytes om out), mls'))"

definition decrypt_application_only ::
  "('g, 'o) openmls \<Rightarrow> bytes \<Rightarrow> ('g, 'o) mls_service \<Rightarrow>
   (mls_error + decrypted_message option) \<times> ('g, 'o) mls_service" where
  "decrypt_application_only om ciphertext mls =
     (case protocol_message_of om ciphertext of
        Inl e \<Rightarrow> (Inl e, mls)
      | Inr m \<Rightarrow>
          if om_msg_group_id om m \<noteq> om_group_id om (ms_group mls) then (Inr None, mls)
          else if om_msg_epoch om m \<noteq> om_epoch om (ms_group mls) then (Inr None, mls)
          else if om_msg_content_type om m \<noteq> ApplicationContentType then (Inr None, mls)
          else
            try_then (on_group ProcessMessage (om_process_message om m) mls)
              (\<lambda>(sender, content) mls'.
                case sender of
                  OtherSender \<Rightarrow> (Inr None, mls')
                | MemberSender leaf \<Rightarrow>
                    (case om_member_at om (ms_group mls') leaf of
                       None \<Rightarrow> (Inl (UnknownLeafIndex leaf), mls')
                     | Some member \<Rightarrow>
                         (case content of
                            ApplicationContent payload \<Rightarrow>
                              (Inr (Some \<lparr>dm_payload = payload, dm_member = member\<rparr>), mls')
                          | _ \<Rightarrow> (Inr None, mls')))))"

definition inspect_message_kind :: "('g, 'o) openmls \<Rightarrow> bytes \<Rightarrow> mls_error + mls_message_kind" where
  "inspect_message_kind om message_bytes =
     result_then (map_error MlsMessageDeserialize (om_deserialize om message_bytes)) (\<lambda>body.
       let kind = (\<lambda>m. case om_msg_content_type om m of
                          ProposalContentType \<Rightarrow> ProposalMessageKind
                        | CommitContentType \<Rightarrow> CommitMessageKind
                        | ApplicationContentType \<Rightarrow> OtherMessageKind)
       in case body of
            PrivateMessage m \<Rightarrow> Inr (kind m)
          | PublicMessage m \<Rightarrow> Inr (kind m)
          | _ \<Rightarrow> Inr OtherMessageKind)"

end
