(* ===== verification/Commit_Round.thy ===== *)
theory Commit_Round
  imports Queues Steward_Service Mls_Service
begin

text \<open>
  The commit round, \<^verbatim>\<open>src/commit_round\<close>: ingesting candidates (\<^verbatim>\<open>round.rs\<close>), the pre-merge
  snapshot (\<^verbatim>\<open>context.rs\<close>), the validation service and the ranking (\<^verbatim>\<open>validate.rs\<close>), and the
  apply loop with its bookkeeping and scoring (\<^verbatim>\<open>apply.rs\<close>). The functions work on the queues
  and the MLS service together, as the source's do through two \<^verbatim>\<open>&mut\<close> borrows.
\<close>

section \<open>Context and results\<close>

record round_context =
  rc_mls_count :: nat
  rc_self_remove_pending :: bool
  rc_current_epoch :: u64
  rc_in_recovery :: bool
  rc_epoch_steward_id :: "bytes option"

definition round_snapshot ::
  "('g, 'o) openmls \<Rightarrow> conversation_queues \<Rightarrow> ('g, 'o) mls_service \<Rightarrow> steward_list_service \<Rightarrow>
   u64 \<Rightarrow> bool \<Rightarrow> bytes \<Rightarrow> round_context" where
  "round_snapshot om q mls svc current_epoch in_recovery self_member_id =
     \<lparr>rc_mls_count = length (filter produces_mls_action (imap_values (q_approved_proposals q))),
      rc_self_remove_pending = has_approved_removal q self_member_id,
      rc_current_epoch = current_epoch,
      rc_in_recovery = in_recovery,
      rc_epoch_steward_id =
        svc_epoch_steward svc current_epoch (steward_eligibility q (mls_members om mls))\<rparr>"

datatype commit_round_outcome = Applied process_result "member_welcome option" | NoCandidate

record commit_round_result =
  crr_outcome :: commit_round_outcome
  crr_score_ops :: "score_op list"
  crr_committed_batch :: "conversation_update_request list"

datatype staging_outcome =
    StagedCandidate bytes bool "mls_proposal_output list"
  | AbortCandidate
  | ViolationCandidate violation_evidence

datatype candidate_outcome =
    Terminal commit_round_outcome bytes "conversation_update_request list"
  | DropCandidate "score_op option"

type_synonym ('g, 'o) round_state = "conversation_queues \<times> ('g, 'o) mls_service"

text \<open>An MLS call inside the round, its error lifted to the conversation's.\<close>

definition on_mls ::
  "(('g, 'o) mls_service \<Rightarrow> (mls_error + 'a) \<times> ('g, 'o) mls_service) \<Rightarrow> ('g, 'o) round_state \<Rightarrow>
   (conversation_error + 'a) \<times> ('g, 'o) round_state" where
  "on_mls f st =
     (case f (snd st) of
        (Inl e, mls) \<Rightarrow> (Inl (Mls e), (fst st, mls))
      | (Inr v, mls) \<Rightarrow> (Inr v, (fst st, mls)))"

section \<open>Receiving candidates\<close>

definition receive_commit_candidate ::
  "externals \<Rightarrow> ('g, 'o) openmls \<Rightarrow> ('g, 'o) mls_service \<Rightarrow> commit_candidate \<Rightarrow>
   conversation_queues \<Rightarrow> (conversation_error + process_result) \<times> conversation_queues" where
  "receive_commit_candidate x om mls candidate q =
     (let h = compute_commit_hash x (cc_commit_message candidate) in
      if has_committed_hash q h then (Inr (Noop AlreadyCommitted), q)
      else if cc_mls_proposals candidate = [] \<or> cc_commit_message candidate = []
      then (Inr (Noop EmptyCandidatePayload), q)
      else if cc_steward_member_id candidate = [] then (Inr (Noop EmptyStewardMemberId), q)
      else
        let proposals_ok = list_all (\<lambda>p. inspect_message_kind om p = Inr ProposalMessageKind)
                             (cc_mls_proposals candidate);
            commit_ok = (inspect_message_kind om (cc_commit_message candidate) = Inr CommitMessageKind)
        in if \<not> proposals_ok \<or> \<not> commit_ok then (Inr (Noop WireKindMismatch), q)
           else
             let epoch = mls_epoch om mls;
                 max_candidates = length (mls_members om mls)
             in if approved_proposals_count q = 0
                then (Inr (Noop CandidateStashedEarly),
                      stash_early_candidate epoch candidate max_candidates q)
                else
                  let (outcome, buf) = buffer_add x candidate False None [] epoch max_candidates
                                         (q_commit_round q)
                  in (Inr (into_process_result outcome (cc_steward_member_id candidate)),
                      q\<lparr>q_commit_round := buf\<rparr>))"

definition replay_early_candidates ::
  "externals \<Rightarrow> ('g, 'o) openmls \<Rightarrow> ('g, 'o) mls_service \<Rightarrow> conversation_queues \<Rightarrow>
   (conversation_error + unit) \<times> conversation_queues" where
  "replay_early_candidates x om mls q =
     (let (early, q1) = take_early_candidates (mls_epoch om mls) q
      in try_fold (\<lambda>c s. try_then (receive_commit_candidate x om mls c s) (\<lambda>_ s'. (Inr (), s')))
           early q1)"

section \<open>Validation\<close>

definition stage_candidate ::
  "('g, 'o) openmls \<Rightarrow> commit_candidate \<Rightarrow> round_context \<Rightarrow> ('g, 'o) mls_service \<Rightarrow>
   (conversation_error + staging_outcome) \<times> ('g, 'o) mls_service" where
  "stage_candidate om candidate ctx mls =
     (case stage_remote_commit om (cc_mls_proposals candidate) (cc_commit_message candidate) mls of
        (Inr (Staged commit_sender self_removed actions), mls') \<Rightarrow>
          if cc_steward_member_id candidate \<noteq> commit_sender
          then (Inr (ViolationCandidate (broken_commit commit_sender (rc_current_epoch ctx)
                  (string_bytes ''commit candidate's steward_member_id doesn't match MLS commit sender''))),
                mls')
          else (Inr (StagedCandidate commit_sender self_removed actions), mls')
      | (Inr (BundleSenderMismatch commit_sender), mls') \<Rightarrow>
          (Inr (ViolationCandidate (broken_commit commit_sender (rc_current_epoch ctx)
             (string_bytes ''commit bundles proposals not signed by the committer''))), mls')
      | (Inr Aborted, mls') \<Rightarrow> (Inr AbortCandidate, mls')
      | (Inl _, mls') \<Rightarrow> (Inr AbortCandidate, mls'))"

datatype action_kind = ActionAdd | ActionRemove

fun action_kind_ord :: "action_kind \<Rightarrow> nat" where
  "action_kind_ord ActionAdd = 0"
| "action_kind_ord ActionRemove = 1"

fun action_projection_from_request ::
  "externals \<Rightarrow> conversation_update_request \<Rightarrow> (action_kind \<times> bytes) option" where
  "action_projection_from_request x (Some (MemberInvite kp)) =
     map_option (Pair ActionAdd) (result_ok (signature_key_of_key_package x kp))"
| "action_projection_from_request x (Some (RemoveMember m)) = Some (ActionRemove, m)"
| "action_projection_from_request x _ = None"

fun action_projection_from_mls :: "mls_proposal_output \<Rightarrow> action_kind \<times> bytes" where
  "action_projection_from_mls (AddOutput k) = (ActionAdd, k)"
| "action_projection_from_mls (RemoveOutput m) = (ActionRemove, m)"

text \<open>The derived order of the pairs.\<close>

definition action_cmp :: "action_kind \<times> bytes \<Rightarrow> action_kind \<times> bytes \<Rightarrow> ordering" where
  "action_cmp a b =
     then_with (ord_cmp (action_kind_ord (fst a)) (action_kind_ord (fst b))) (ord_cmp (snd a) (snd b))"

text \<open>What \<^verbatim>\<open>{:?}\<close> prints for the evidence payload.\<close>

fun join_with :: "string \<Rightarrow> string list \<Rightarrow> string" where
  "join_with sep [] = []"
| "join_with sep [s] = s"
| "join_with sep (s # ss) = s @ sep @ join_with sep ss"

definition debug_list :: "('a \<Rightarrow> string) \<Rightarrow> 'a list \<Rightarrow> string" where
  "debug_list f xs = ''['' @ join_with '', '' (map f xs) @ '']''"

definition debug_bytes :: "bytes \<Rightarrow> string" where
  "debug_bytes b = debug_list (show_nat \<circ> unat) b"

fun debug_output :: "mls_proposal_output \<Rightarrow> string" where
  "debug_output (AddOutput k) = ''Add('' @ debug_bytes k @ '')''"
| "debug_output (RemoveOutput m) = ''Remove('' @ debug_bytes m @ '')''"

fun debug_action :: "action_kind \<times> bytes \<Rightarrow> string" where
  "debug_action (ActionAdd, k) = ''(Add, '' @ debug_bytes k @ '')''"
| "debug_action (ActionRemove, m) = ''(Remove, '' @ debug_bytes m @ '')''"

definition validate_commit_candidate ::
  "externals \<Rightarrow> conversation_queues \<Rightarrow> bytes \<Rightarrow> mls_proposal_output list \<Rightarrow> round_context \<Rightarrow>
   conversation_error + violation_evidence option" where
  "validate_commit_candidate x q sender_id mls_actions ctx =
     (let expected = remdups_adj (sort_by action_cmp
            (List.map_filter (action_projection_from_request x) (imap_values (q_approved_proposals q))));
          actual = remdups_adj (sort_by action_cmp (map action_projection_from_mls mls_actions))
      in if expected = actual then Inr None
         else Inr (Some (broken_mls_proposal sender_id (rc_current_epoch ctx)
                (string_bytes (''MLS actions '' @ debug_list debug_output mls_actions @ '' != voted '' @
                   debug_list debug_action expected)))))"

definition check_commit_sender_authorized ::
  "steward_list_service \<Rightarrow> bytes \<Rightarrow> round_context \<Rightarrow> violation_evidence option" where
  "check_commit_sender_authorized svc commit_sender ctx =
     (if rc_in_recovery ctx then None
      else if svc_list svc = None then None
      else if svc_is_steward svc commit_sender then None
      else Some (misbehaving_commit commit_sender (rc_current_epoch ctx)
             (string_bytes ''commit from unauthorized sender (not on the steward list)'')))"

section \<open>Selection\<close>

definition candidate_tier :: "bytes option \<Rightarrow> buffered_commit_candidate \<Rightarrow> nat" where
  "candidate_tier epoch_steward_id c =
     (if epoch_steward_id = Some (cc_steward_member_id (bc_candidate_msg c)) then 0 else 1)"

definition compare_candidate_priority ::
  "bytes option \<Rightarrow> buffered_commit_candidate \<Rightarrow> buffered_commit_candidate \<Rightarrow> ordering" where
  "compare_candidate_priority epoch_steward_id a b =
     then_with (ord_cmp (length (cc_mls_proposals (bc_candidate_msg b)))
                        (length (cc_mls_proposals (bc_candidate_msg a))))
    (then_with (ord_cmp (candidate_tier epoch_steward_id a) (candidate_tier epoch_steward_id b))
    (then_with (ord_cmp (cc_steward_member_id (bc_candidate_msg a))
                        (cc_steward_member_id (bc_candidate_msg b)))
               (ord_cmp (bc_commit_hash a) (bc_commit_hash b))))"

definition candidate_applicable :: "round_context \<Rightarrow> bool \<Rightarrow> buffered_commit_candidate \<Rightarrow> bool" where
  "candidate_applicable ctx allow_subset c =
     (let n = length (cc_mls_proposals (bc_candidate_msg c))
      in if allow_subset then n \<le> rc_mls_count ctx else n = rc_mls_count ctx)"

definition rank_applicable_candidates ::
  "buffered_commit_candidate list \<Rightarrow> round_context \<Rightarrow> bool \<Rightarrow> buffered_commit_candidate list" where
  "rank_applicable_candidates candidates ctx allow_subset =
     sort_by (compare_candidate_priority (rc_epoch_steward_id ctx))
       (filter (candidate_applicable ctx allow_subset) candidates)"

section \<open>Applying\<close>

definition finalize_committed_batch ::
  "commit_hash \<Rightarrow> u64 \<Rightarrow> conversation_queues \<Rightarrow>
   conversation_update_request list \<times> conversation_queues" where
  "finalize_committed_batch h current_epoch q =
     (let q1 = apply_membership_delta_bookkeeping current_epoch (insert_committed_hash h q);
          (urgent, q2) = take_urgent_commit_target q1
      in case urgent of
           Some target \<Rightarrow> ([], drop_approved_removals_for target q2)
         | None \<Rightarrow> drain_approved_proposals q2)"

definition leave_or_update :: "bool \<Rightarrow> process_result" where
  "leave_or_update self_removed = (if self_removed then LeaveConversation else ConversationUpdated)"

definition reject_staged ::
  "('g, 'o) openmls \<Rightarrow> score_op option \<Rightarrow> ('g, 'o) round_state \<Rightarrow>
   (conversation_error + candidate_outcome) \<times> ('g, 'o) round_state" where
  "reject_staged om penalty st =
     try_then (on_mls (discard_staged_commit om) st) (\<lambda>_ st'. (Inr (DropCandidate penalty), st'))"

definition apply_local_candidate ::
  "('g, 'o) openmls \<Rightarrow> buffered_commit_candidate \<Rightarrow> round_context \<Rightarrow> ('g, 'o) round_state \<Rightarrow>
   (conversation_error + candidate_outcome) \<times> ('g, 'o) round_state" where
  "apply_local_candidate om chosen ctx st =
     try_then (on_mls (merge_own_commit om) st) (\<lambda>delta (q, mls).
       let (batch, q') = finalize_committed_batch (bc_commit_hash chosen) (rc_current_epoch ctx + 1)
                           (store_membership_delta delta q);
           welcome = map_option (\<lambda>w. \<lparr>mw_welcome_bytes = w, mw_conversation_sync_bytes = [],
                                      mw_joiner_identities = bc_joiner_identities chosen\<rparr>)
                       (bc_welcome_bytes chosen)
       in (Inr (Terminal (Applied (leave_or_update (rc_self_remove_pending ctx)) welcome)
                  (cc_steward_member_id (bc_candidate_msg chosen)) batch), (q', mls)))"

definition apply_incoming_candidate ::
  "externals \<Rightarrow> ('g, 'o) openmls \<Rightarrow> steward_list_service \<Rightarrow> buffered_commit_candidate \<Rightarrow>
   round_context \<Rightarrow> ('g, 'o) round_state \<Rightarrow>
   (conversation_error + candidate_outcome) \<times> ('g, 'o) round_state" where
  "apply_incoming_candidate x om svc chosen ctx st =
     (case stage_candidate om (bc_candidate_msg chosen) ctx (snd st) of
        (Inl e, mls1) \<Rightarrow> (Inl e, (fst st, mls1))
      | (Inr AbortCandidate, mls1) \<Rightarrow> reject_staged om None (fst st, mls1)
      | (Inr (ViolationCandidate v), mls1) \<Rightarrow> reject_staged om (target_score_op v) (fst st, mls1)
      | (Inr (StagedCandidate commit_sender self_removed commit_actions), mls1) \<Rightarrow>
          (case check_commit_sender_authorized svc commit_sender ctx of
             Some violation \<Rightarrow> reject_staged om (target_score_op violation) (fst st, mls1)
           | None \<Rightarrow>
               (case validate_commit_candidate x (fst st) commit_sender commit_actions ctx of
                  Inl e \<Rightarrow> (Inl e, (fst st, mls1))
                | Inr (Some violation) \<Rightarrow> reject_staged om (target_score_op violation) (fst st, mls1)
                | Inr None \<Rightarrow>
                    try_then (on_mls (discard_own_commit om) (fst st, mls1)) (\<lambda>_ st2.
                    try_then (on_mls (merge_staged_commit om) st2) (\<lambda>delta (q, mls).
                      let (batch, q') = finalize_committed_batch (bc_commit_hash chosen)
                                          (rc_current_epoch ctx + 1) (store_membership_delta delta q)
                      in (Inr (Terminal (Applied (leave_or_update self_removed) None) commit_sender
                                 batch), (q', mls)))))))"

definition record_winner_scores ::
  "score_op list \<Rightarrow> bytes \<Rightarrow> bytes \<Rightarrow> round_context \<Rightarrow> buffered_commit_candidate list \<Rightarrow>
   steward_list_service \<Rightarrow> score_op list" where
  "record_winner_scores score_ops committer self_member_id ctx losers svc =
     score_ops @ [\<lparr>op_member_id = committer, op_event = SuccessfulCommit\<rparr>] @
     (case rc_epoch_steward_id ctx of
        Some expected \<Rightarrow>
          if expected \<noteq> committer \<and> expected \<noteq> self_member_id
          then [\<lparr>op_member_id = expected, op_event = CensorshipInactivity\<rparr>] else []
      | None \<Rightarrow> []) @
     map (\<lambda>loser. let claimed = cc_steward_member_id (bc_candidate_msg loser)
                  in \<lparr>op_member_id = claimed,
                      op_event = (if svc_is_steward svc claimed then HonestCommitAttempt
                                  else MisbehavingCommit)\<rparr>) losers"

definition discard_and_finish ::
  "('g, 'o) openmls \<Rightarrow> score_op list \<Rightarrow> ('g, 'o) round_state \<Rightarrow>
   (conversation_error + commit_round_result) \<times> ('g, 'o) round_state" where
  "discard_and_finish om score_ops st =
     try_then (on_mls (discard_own_commit om) st) (\<lambda>_ st'.
       (Inr \<lparr>crr_outcome = NoCandidate, crr_score_ops = score_ops, crr_committed_batch = []\<rparr>, st'))"

text \<open>The loop over the ranked candidates, with the penalties accrued so far.\<close>

fun apply_in_priority_order ::
  "externals \<Rightarrow> ('g, 'o) openmls \<Rightarrow> steward_list_service \<Rightarrow> round_context \<Rightarrow> bytes \<Rightarrow>
   buffered_commit_candidate list \<Rightarrow> score_op list \<Rightarrow> ('g, 'o) round_state \<Rightarrow>
   (conversation_error + commit_round_result) \<times> ('g, 'o) round_state" where
  "apply_in_priority_order x om svc ctx self_member_id [] score_ops st =
     discard_and_finish om score_ops st"
| "apply_in_priority_order x om svc ctx self_member_id (chosen # remaining) score_ops st =
     try_then (if bc_is_local_candidate chosen then apply_local_candidate om chosen ctx st
               else apply_incoming_candidate x om svc chosen ctx st)
       (\<lambda>apply_result st'.
          case apply_result of
            Terminal outcome committer batch \<Rightarrow>
              (Inr \<lparr>crr_outcome = outcome,
                    crr_score_ops = record_winner_scores score_ops committer self_member_id ctx
                                      remaining svc,
                    crr_committed_batch = batch\<rparr>, st')
          | DropCandidate op \<Rightarrow>
              apply_in_priority_order x om svc ctx self_member_id remaining
                (score_ops @ (case op of Some o' \<Rightarrow> [o'] | None \<Rightarrow> [])) st')"

definition finalize_commit_round ::
  "externals \<Rightarrow> ('g, 'o) openmls \<Rightarrow> steward_list_service \<Rightarrow> bool \<Rightarrow> bool \<Rightarrow> bytes \<Rightarrow>
   ('g, 'o) round_state \<Rightarrow>
   (conversation_error + commit_round_result) \<times> ('g, 'o) round_state" where
  "finalize_commit_round x om svc in_recovery allow_subset_candidates self_member_id st =
     (let current_epoch = mls_epoch om (snd st);
          (candidates, buf) = buffer_take current_epoch (q_commit_round (fst st));
          st1 = ((fst st)\<lparr>q_commit_round := buf\<rparr>, snd st)
      in if candidates = [] then discard_and_finish om [] st1
         else
           let ctx = round_snapshot om (fst st1) (snd st1) svc current_epoch in_recovery self_member_id;
               sorted = rank_applicable_candidates candidates ctx allow_subset_candidates
           in if sorted = [] then discard_and_finish om [] st1
              else apply_in_priority_order x om svc ctx self_member_id sorted [] st1)"

end
