(* ===== verification/Apply_Result.thy ===== *)
theory Apply_Result
  imports Queues
begin

text \<open>
  What a resolved proposal does to the queues, \<^verbatim>\<open>src/consensus/apply_result.rs\<close>. The
  invariant \<open>approvals_unique\<close> (at most one queued removal per member and one queued
  admission per joiner, which MLS requires of a commit) is kept by every outcome.
\<close>

datatype consensus_apply_result =
    NoAction
  | ElectionAccepted steward_election_proposal
  | ElectionRejected
  | RejectedMembership bytes
  | RecoveryModeOpened
  | UrgentRemoval bytes
  | QueuedRemoval bytes

fun extract_emergency_evidence :: "conversation_update_request \<Rightarrow> violation_evidence option" where
  "extract_emergency_evidence (Some (EmergencyCriteria ev)) = ev"
| "extract_emergency_evidence _ = None"

fun extract_election_proposal :: "conversation_update_request \<Rightarrow> steward_election_proposal option" where
  "extract_election_proposal (Some (StewardElection se)) = Some se"
| "extract_election_proposal _ = None"

definition is_score_below_threshold :: "violation_evidence \<Rightarrow> bool" where
  "is_score_below_threshold ev =
     (violation_try_from (ve_violation_type ev) = Some ScoreBelowThreshold)"

definition is_deadlock :: "violation_evidence \<Rightarrow> bool" where
  "is_deadlock ev = (violation_try_from (ve_violation_type ev) = Some Deadlock)"

definition removal_request_for :: "violation_evidence \<Rightarrow> conversation_update_request" where
  "removal_request_for ev = remove_member_request (ve_target_member_id ev)"

definition pending_removal_target ::
  "conversation_update_request \<Rightarrow> violation_evidence option \<Rightarrow> bool \<Rightarrow> bool \<Rightarrow> bool \<Rightarrow> bytes option" where
  "pending_removal_target request evidence approved emergency transforms_to_removal =
     (if \<not> approved then None
      else if transforms_to_removal then map_option ve_target_member_id evidence
      else if emergency then None
      else case request of Some (RemoveMember r) \<Rightarrow> Some r | _ \<Rightarrow> None)"

definition apply_election_result :: "bool \<Rightarrow> steward_election_proposal \<Rightarrow> consensus_apply_result" where
  "apply_election_result approved election =
     (if approved then ElectionAccepted election else ElectionRejected)"

text \<open>The approved invite whose joiner is already queued for admission.\<close>

definition duplicate_invite :: "externals \<Rightarrow> conversation_queues \<Rightarrow> conversation_update_request \<Rightarrow> bool" where
  "duplicate_invite x q request =
     (case request of
        Some (MemberInvite kp) \<Rightarrow>
          (case signature_key_of_key_package x kp of
             Inr joiner_key \<Rightarrow> has_approved_invite x q joiner_key
           | Inl _ \<Rightarrow> False)
      | _ \<Rightarrow> False)"

definition apply_consensus_result ::
  "externals \<Rightarrow> u32 \<Rightarrow> bool \<Rightarrow> conversation_update_request \<Rightarrow> conversation_queues \<Rightarrow>
   (conversation_error + consensus_apply_result) \<times> conversation_queues" where
  "apply_consensus_result x proposal_id approved request q0 =
     (let q = remove_voting_proposal proposal_id q0 in
      case extract_election_proposal request of
        Some election \<Rightarrow> (Inr (apply_election_result approved election), q)
      | None \<Rightarrow>
        let evidence = extract_emergency_evidence request;
            emergency = (evidence \<noteq> None);
            transforms_to_removal =
              (approved \<and> emergency \<and>
               (case evidence of Some ev \<Rightarrow> is_score_below_threshold ev | None \<Rightarrow> False));
            removal_target =
              pending_removal_target request evidence approved emergency transforms_to_removal
        in
        if (case removal_target of Some t \<Rightarrow> has_approved_removal q t | None \<Rightarrow> False)
        then (Inr NoAction, q)
        else if approved \<and> duplicate_invite x q request then (Inr NoAction, q)
        else
          case (if transforms_to_removal then evidence else None) of
            Some ev \<Rightarrow>
              let q1 = insert_approved_proposal proposal_id (removal_request_for ev) q;
                  target = ve_target_member_id ev
              in (Inr (UrgentRemoval target), set_urgent_commit_target target q1)
          | None \<Rightarrow>
              let q1 = (if approved \<and> \<not> emergency
                        then insert_approved_proposal proposal_id request q else q)
              in if (case evidence of Some ev \<Rightarrow> is_deadlock ev | None \<Rightarrow> False) \<and> approved
                 then (Inr RecoveryModeOpened, q1)
                 else case removal_target of
                   Some target \<Rightarrow> (Inr (QueuedRemoval target), q1)
                 | None \<Rightarrow>
                     (case (if approved then None else target_member_id_of x request) of
                        Some target \<Rightarrow> (Inr (RejectedMembership target), q1)
                      | None \<Rightarrow> (Inr NoAction, q1)))"

section \<open>Lemmas\<close>

fun removal_of :: "conversation_update_request \<Rightarrow> bytes option" where
  "removal_of (Some (RemoveMember m)) = Some m"
| "removal_of _ = None"

fun admission_of :: "externals \<Rightarrow> conversation_update_request \<Rightarrow> bytes option" where
  "admission_of x (Some (MemberInvite kp)) = target_member_id_of x (Some (MemberInvite kp))"
| "admission_of x _ = None"

lemma removes_member_iff: "removes_member r m \<longleftrightarrow> removal_of r = Some m"
  by (cases r rule: removal_of.cases) auto

lemma invites_member_iff: "invites_member x r m \<longleftrightarrow> admission_of x r = Some m"
  by (cases r rule: removal_of.cases) auto

definition unique_by :: "('r \<Rightarrow> 'k option) \<Rightarrow> ('p, 'r) imap \<Rightarrow> bool" where
  "unique_by f m \<longleftrightarrow> (\<forall>(p, r)\<in>set m. \<forall>(p', r')\<in>set m. f r \<noteq> None \<and> f r = f r' \<longrightarrow> p = p')"

definition approvals_unique :: "externals \<Rightarrow> conversation_queues \<Rightarrow> bool" where
  "approvals_unique x q \<longleftrightarrow>
     unique_by removal_of (q_approved_proposals q) \<and>
     unique_by (admission_of x) (q_approved_proposals q)"

lemma unique_by_insert:
  assumes "unique_by f m" "\<And>t. f v = Some t \<Longrightarrow> \<forall>(p, r)\<in>set m. f r \<noteq> Some t"
  shows "unique_by f (imap_insert k v m)"
  unfolding unique_by_def
proof clarify
  fix p r p' r' y
  assume m: "(p, r) \<in> set (imap_insert k v m)" "(p', r') \<in> set (imap_insert k v m)"
    and y: "f r = f r'" "f r = Some y"
  have no: "f s \<noteq> f v" if "(o', s) \<in> set m" "f s = Some y" for o' s
    using assms(2) [of y] that by (metis (mono_tags, lifting) case_prodD)
  from m have "(p, r) = (k, v) \<or> (p, r) \<in> set m" "(p', r') = (k, v) \<or> (p', r') \<in> set m"
    using set_imap_insert_subset [of k v m] by blast+
  then show "p = p'"
    using assms(1) y no unfolding unique_by_def by fastforce
qed

lemma has_approved_removal_iff:
  "has_approved_removal q m \<longleftrightarrow> (\<exists>(p, r)\<in>set (q_approved_proposals q). removal_of r = Some m)"
  by (force simp: has_approved_removal_def list_ex_iff imap_values_def removes_member_iff)

lemma has_approved_invite_iff:
  "has_approved_invite x q m \<longleftrightarrow> (\<exists>(p, r)\<in>set (q_approved_proposals q). admission_of x r = Some m)"
  by (force simp: has_approved_invite_def list_ex_iff imap_values_def invites_member_iff)

lemma q_approved_remove_voting [simp]:
  "q_approved_proposals (remove_voting_proposal p q) = q_approved_proposals q"
  "has_approved_removal (remove_voting_proposal p q) m = has_approved_removal q m"
  "has_approved_invite x (remove_voting_proposal p q) m = has_approved_invite x q m"
  by (simp_all add: remove_voting_proposal_def has_approved_removal_def has_approved_invite_def)

lemma duplicate_invite_simps [simp]:
  "duplicate_invite x (remove_voting_proposal p q) req = duplicate_invite x q req"
  "\<not> duplicate_invite x q None" "\<not> duplicate_invite x q (Some (RemoveMember t))"
  "\<not> duplicate_invite x q (Some (EmergencyCriteria e))"
  by (simp_all add: duplicate_invite_def split: option.splits request_payload.splits sum.splits)

lemma duplicate_invite_iff:
  "duplicate_invite x q (Some (MemberInvite kp)) \<longleftrightarrow>
     (\<exists>k. admission_of x (Some (MemberInvite kp)) = Some k \<and> has_approved_invite x q k)"
  by (auto simp: duplicate_invite_def result_ok_def split: sum.splits)

text \<open>The outcome of an accepted proposal, by payload.\<close>

lemma apply_accepted:
  "apply_consensus_result x pid True (Some (RemoveMember t)) q =
     (if has_approved_removal q t then (Inr NoAction, remove_voting_proposal pid q)
      else (Inr (QueuedRemoval t),
            insert_approved_proposal pid (Some (RemoveMember t)) (remove_voting_proposal pid q)))"
  "apply_consensus_result x pid True (Some (MemberInvite kp)) q =
     (Inr NoAction,
      if duplicate_invite x q (Some (MemberInvite kp)) then remove_voting_proposal pid q
      else insert_approved_proposal pid (Some (MemberInvite kp)) (remove_voting_proposal pid q))"
  "apply_consensus_result x pid True (Some (StewardElection se)) q =
     (Inr (ElectionAccepted se), remove_voting_proposal pid q)"
  "apply_consensus_result x pid True None q =
     (Inr NoAction, insert_approved_proposal pid None (remove_voting_proposal pid q))"
  "apply_consensus_result x pid True (Some (EmergencyCriteria None)) q =
     (Inr NoAction, insert_approved_proposal pid (Some (EmergencyCriteria None))
                      (remove_voting_proposal pid q))"
  by (simp_all add: apply_consensus_result_def pending_removal_target_def apply_election_result_def
      Let_def)

lemma apply_accepted_emergency:
  "apply_consensus_result x pid True (Some (EmergencyCriteria (Some ev))) q =
     (let q1 = remove_voting_proposal pid q; t = ve_target_member_id ev in
      if is_score_below_threshold ev then
        if has_approved_removal q t then (Inr NoAction, q1)
        else (Inr (UrgentRemoval t),
              set_urgent_commit_target t (insert_approved_proposal pid (Some (RemoveMember t)) q1))
      else (Inr (if is_deadlock ev then RecoveryModeOpened else NoAction), q1))"
  by (simp add: apply_consensus_result_def pending_removal_target_def Let_def
      removal_request_for_def remove_member_request_def)

lemma apply_rejected:
  "apply_consensus_result x pid False request q =
     (Inr (case request of
             Some (StewardElection _) \<Rightarrow> ElectionRejected
           | _ \<Rightarrow> (case target_member_id_of x request of
                     Some t \<Rightarrow> RejectedMembership t | None \<Rightarrow> NoAction)),
      remove_voting_proposal pid q)"
proof (cases request)
  case (Some p)
  then show ?thesis
    by (cases p) (simp_all add: apply_consensus_result_def pending_removal_target_def Let_def
        apply_election_result_def split: option.splits)
qed (simp add: apply_consensus_result_def pending_removal_target_def Let_def)

text \<open>How the approved queue changes: at most one entry is added, and only a fresh one.\<close>

definition fresh_approval :: "externals \<Rightarrow> conversation_queues \<Rightarrow> conversation_update_request \<Rightarrow> bool" where
  "fresh_approval x q req \<longleftrightarrow>
     (\<forall>t. removal_of req = Some t \<longrightarrow> \<not> has_approved_removal q t) \<and>
     (\<forall>t. admission_of x req = Some t \<longrightarrow> \<not> has_approved_invite x q t)"

lemma apply_consensus_result_approved:
  "q_approved_proposals (snd (apply_consensus_result x pid approved request q)) = q_approved_proposals q \<or>
    (\<exists>req. q_approved_proposals (snd (apply_consensus_result x pid approved request q)) =
             imap_insert pid req (q_approved_proposals q) \<and> fresh_approval x q req)"
proof (cases approved)
  case True
  have ins: "q_approved_proposals (insert_approved_proposal pid r (remove_voting_proposal pid q)) =
      imap_insert pid r (q_approved_proposals q)" for r
    by (simp add: insert_approved_proposal_def)
  have urg: "q_approved_proposals (set_urgent_commit_target t q0) = q_approved_proposals q0" for t q0
    by (simp add: set_urgent_commit_target_def)
  show ?thesis
  proof (cases request)
    case None
    then show ?thesis using True by (auto simp: apply_accepted ins fresh_approval_def)
  next
    case (Some p)
    show ?thesis
    proof (cases p)
      case (MemberInvite kp)
      have "fresh_approval x q (Some (MemberInvite kp))"
        if "\<not> duplicate_invite x q (Some (MemberInvite kp))"
        using that unfolding duplicate_invite_iff fresh_approval_def by auto
      then show ?thesis using Some MemberInvite True by (auto simp: apply_accepted ins)
    next
      case (RemoveMember t)
      have "fresh_approval x q (Some (RemoveMember t))" if "\<not> has_approved_removal q t"
        using that by (simp add: fresh_approval_def)
      then show ?thesis using Some RemoveMember True by (auto simp: apply_accepted ins)
    next
      case (EmergencyCriteria e)
      show ?thesis
      proof (cases e)
        case None
        then show ?thesis using Some EmergencyCriteria True
          by (auto simp: apply_accepted ins fresh_approval_def)
      next
        case (Some ev)
        have "fresh_approval x q (Some (RemoveMember (ve_target_member_id ev)))"
          if "\<not> has_approved_removal q (ve_target_member_id ev)"
          using that by (simp add: fresh_approval_def)
        then show ?thesis using Some \<open>request = Some p\<close> EmergencyCriteria True
          by (auto simp: apply_accepted_emergency ins urg Let_def)
      qed
    next
      case (StewardElection se)
      then show ?thesis using Some True by (simp add: apply_accepted)
    qed
  qed
qed (simp add: apply_rejected)

section \<open>Properties\<close>

text \<open>
  Whatever is voted, the approved queue never holds two removals of one member nor two
  admissions of one joiner, so a batch built from it is never rejected for a duplicate.
\<close>

theorem approvals_stay_unique:
  assumes "approvals_unique x q"
  shows "approvals_unique x (snd (apply_consensus_result x pid approved request q))"
proof -
  have "unique_by removal_of (imap_insert pid req (q_approved_proposals q)) \<and>
      unique_by (admission_of x) (imap_insert pid req (q_approved_proposals q))"
    if "fresh_approval x q req" for req
    using assms that unfolding approvals_unique_def fresh_approval_def has_approved_removal_iff
      has_approved_invite_iff by (intro conjI unique_by_insert) auto
  then show ?thesis
    using apply_consensus_result_approved [of x pid approved request q] assms
    unfolding approvals_unique_def by auto
qed

theorem approvals_stay_unique_witness:
  "approvals_unique demo_externals
     (snd (apply_consensus_result demo_externals 2 True (Some (RemoveMember [9]))
        (insert_approved_proposal 1 (Some (RemoveMember [9])) (queues_new ''c'' 4))))"
proof -
  let ?q = "insert_approved_proposal 1 (Some (RemoveMember [9])) (queues_new ''c'' 4)"
  have u: "approvals_unique demo_externals ?q"
    by (simp add: approvals_unique_def unique_by_def insert_approved_proposal_def queues_new_def
        imap_insert_def)
  show ?thesis by (rule approvals_stay_unique [OF u])
qed

text \<open>
  An accepted membership change is queued for the next commit exactly once: a fresh
  removal or admission is appended to the approved queue, a repeated one changes nothing, and
  in both cases the proposal leaves the voting queue.
\<close>

theorem accepted_membership_queued_once:
  assumes "\<not> imap_contains (q_approved_proposals q) pid"
    and "apply_consensus_result x pid True request q = (r, q')"
    and "request = Some (RemoveMember t) \<or>
         (request = Some (MemberInvite kp) \<and> target_member_id_of x request = Some t)"
  shows "\<not> is_voting q' pid \<and>
    (let dup = (case request of Some (RemoveMember _) \<Rightarrow> has_approved_removal q t
                | _ \<Rightarrow> has_approved_invite x q t)
     in q_approved_proposals q' = q_approved_proposals q @ (if dup then [] else [(pid, request)]) \<and>
        r = Inr (if dup \<or> request \<noteq> Some (RemoveMember t) then NoAction else QueuedRemoval t))"
proof -
  have v: "\<not> is_voting (remove_voting_proposal pid q) pid"
    "\<not> is_voting (insert_approved_proposal pid req (remove_voting_proposal pid q)) pid"
    "q_approved_proposals (insert_approved_proposal pid req (remove_voting_proposal pid q)) =
       q_approved_proposals q @ [(pid, req)]" for req
    using imap_insert_new [OF assms(1)]
    by (simp_all add: is_voting_def imap_contains_def remove_voting_proposal_def
        insert_approved_proposal_def)
  from assms(3) show ?thesis
  proof
    assume "request = Some (RemoveMember t)"
    then show ?thesis using assms(2) v by (auto simp: apply_accepted split: if_splits)
  next
    assume inv: "request = Some (MemberInvite kp) \<and> target_member_id_of x request = Some t"
    then have "duplicate_invite x q request \<longleftrightarrow> has_approved_invite x q t"
      by (auto simp: duplicate_invite_iff)
    then show ?thesis using assms(2) v inv by (auto simp: apply_accepted split: if_splits)
  qed
qed

theorem accepted_membership_queued_once_witness:
  "\<exists>q'. apply_consensus_result demo_externals 7 True (Some (RemoveMember [9])) (queues_new ''c'' 4) =
     (Inr (QueuedRemoval [9]), q') \<and> q_approved_proposals q' = [(7, Some (RemoveMember [9]))]"
proof -
  let ?r = "apply_consensus_result demo_externals 7 True (Some (RemoveMember [9])) (queues_new ''c'' 4)"
  have r: "?r = (Inr (QueuedRemoval [9]), snd ?r)" by code_simp
  have n: "\<not> imap_contains (q_approved_proposals (queues_new ''c'' 4)) 7"
    by (simp add: queues_new_def imap_contains_def)
  show ?thesis
    using r accepted_membership_queued_once [OF n r, of "[9]" "[]"]
    by (auto simp: Let_def has_approved_removal_def queues_new_def imap_values_def)
qed

text \<open>
  A rejected proposal never reaches the approved queue, opens no recovery and sets no
  urgent target; a rejected membership change names the target whose buffered update the
  caller drops, a rejected election asks for the retry.
\<close>

theorem rejected_proposal_queues_nothing:
  "case apply_consensus_result x pid False request q of (r, q') \<Rightarrow>
     q' = remove_voting_proposal pid q \<and>
     r = Inr (case request of
                Some (StewardElection _) \<Rightarrow> ElectionRejected
              | _ \<Rightarrow> (case target_member_id_of x request of
                        Some t \<Rightarrow> RejectedMembership t | None \<Rightarrow> NoAction))"
  by (simp add: apply_rejected)

text \<open>
  What an accepted emergency does: below-threshold evidence queues the removal of its
  target (unless already queued) and restricts the next commit to it; deadlock evidence opens
  recovery; neither it nor any other evidence queues anything else.
\<close>

theorem accepted_emergency_effect:
  assumes "apply_consensus_result x pid True (Some (EmergencyCriteria (Some ev))) q = (r, q')"
  shows "(if is_score_below_threshold ev then
       (if has_approved_removal q (ve_target_member_id ev)
        then r = Inr NoAction \<and> q' = remove_voting_proposal pid q
        else r = Inr (UrgentRemoval (ve_target_member_id ev)) \<and>
             q_urgent_commit_target q' = Some (ve_target_member_id ev) \<and>
             imap_get (q_approved_proposals q') pid = Some (Some (RemoveMember (ve_target_member_id ev))) \<and>
             (\<forall>p. p \<noteq> pid \<longrightarrow> imap_get (q_approved_proposals q') p = imap_get (q_approved_proposals q) p))
     else r = Inr (if is_deadlock ev then RecoveryModeOpened else NoAction) \<and>
          q' = remove_voting_proposal pid q)"
  using assms
  by (auto simp: apply_accepted_emergency Let_def insert_approved_proposal_def
      set_urgent_commit_target_def split: if_splits)

theorem accepted_emergency_effect_witness:
  "\<exists>q'. apply_consensus_result demo_externals 4 True
       (Some (EmergencyCriteria (Some (score_below_threshold [9] 3 (- 5))))) (queues_new ''c'' 4) =
     (Inr (UrgentRemoval [9]), q') \<and> q_urgent_commit_target q' = Some [9]"
proof -
  let ?r = "apply_consensus_result demo_externals 4 True
       (Some (EmergencyCriteria (Some (score_below_threshold [9] 3 (- 5))))) (queues_new ''c'' 4)"
  have f: "is_score_below_threshold (score_below_threshold [9] 3 (- 5))"
    "ve_target_member_id (score_below_threshold [9] 3 (- 5)) = [9]"
    "\<not> has_approved_removal (queues_new ''c'' 4) [9]"
    by (simp_all add: is_score_below_threshold_def score_below_threshold_def violation_evidence_of_def
        violation_try_from_def has_approved_removal_def queues_new_def imap_values_def)
  then have r: "?r = (Inr (UrgentRemoval [9]), snd ?r)"
    by (simp add: apply_accepted_emergency Let_def)
  have "q_urgent_commit_target (snd ?r) = Some [9]"
    using f accepted_emergency_effect [OF r] by simp
  with r show ?thesis by blast
qed

end
