(* ===== verification/Peer_Scoring.thy ===== *)
theory Peer_Scoring
  imports Messages
begin

text \<open>
  Peer scoring, \<^verbatim>\<open>src/peer_scoring\<close> and the in-memory backend of \<^verbatim>\<open>src/defaults.rs\<close>: the
  score events and their deltas, the service over a pluggable score table, the snapshot a
  joiner adopts, and the sync of the table with the MLS membership.

  The trait \<^verbatim>\<open>PeerScoreStorage\<close> is a record of operations; its documented contract is the
  locale \<open>score_storage\<close> (a successful call acts as a map) and, for a backend that cannot
  fail, \<open>total_score_storage\<close>. The service's lemmas are proved once inside them, and both are
  interpreted on the in-memory table of the source.
\<close>

section \<open>Events, deltas and configuration\<close>

fun default_delta :: "score_event \<Rightarrow> i64" where
  "default_delta BrokenCommit = - 50"
| "default_delta BrokenMlsProposal = - 30"
| "default_delta CensorshipInactivity = - 40"
| "default_delta EmergencyYesCreator = 20"
| "default_delta EmergencyNoCreator = - 50"
| "default_delta SuccessfulCommit = 10"
| "default_delta HonestCommitAttempt = 5"
| "default_delta MisbehavingCommit = - 10"

definition default_score_deltas :: "(score_event, i64) imap" where
  "default_score_deltas =
     map (\<lambda>event. (event, default_delta event))
       [BrokenCommit, BrokenMlsProposal, CensorshipInactivity, EmergencyYesCreator,
        EmergencyNoCreator, SuccessfulCommit, HonestCommitAttempt, MisbehavingCommit]"

definition DEFAULT_PEER_SCORE :: i64 where "DEFAULT_PEER_SCORE = 100"
definition DEFAULT_THRESHOLD_PEER_SCORE :: i64 where "DEFAULT_THRESHOLD_PEER_SCORE = 0"

record scoring_config =
  sco_default_score :: i64
  sco_threshold :: i64

definition scoring_config_default :: scoring_config where
  "scoring_config_default =
     \<lparr>sco_default_score = DEFAULT_PEER_SCORE, sco_threshold = DEFAULT_THRESHOLD_PEER_SCORE\<rparr>"

definition scoring_config_validate :: "scoring_config \<Rightarrow> conversation_error + unit" where
  "scoring_config_validate c =
     (if sco_default_score c \<le> 0 then 
        Inl (InvalidConfig (''default_peer_score must be positive, got '' @ show_int (sco_default_score c)))
      else if sco_default_score c \<le> sco_threshold c
      then Inl (InvalidConfig ''default_peer_score must be greater than threshold'')
      else Inr ())"

type_synonym score_snapshot = "(bytes \<times> i64) list"

record score_change =
  sc_member_id :: bytes
  sc_previous :: i64
  sc_score :: i64

record scoring_diff =
  smd_to_add :: "bytes list"
  smd_to_remove :: "bytes list"

section \<open>Helpers\<close>

definition scoring_member_diff :: "bytes list \<Rightarrow> bytes list \<Rightarrow> scoring_diff" where
  "scoring_member_diff scored mls_members =
     \<lparr>smd_to_add = filter (\<lambda>m. m \<notin> set scored) mls_members,
      smd_to_remove = filter (\<lambda>m. m \<notin> set mls_members) scored\<rparr>"

definition creator_reward :: "violation_evidence \<Rightarrow> score_op" where
  "creator_reward ev = \<lparr>op_member_id = ve_creator_member_id ev, op_event = EmergencyYesCreator\<rparr>"

definition creator_penalty :: "violation_evidence \<Rightarrow> score_op" where
  "creator_penalty ev = \<lparr>op_member_id = ve_creator_member_id ev, op_event = EmergencyNoCreator\<rparr>"

definition emergency_score_ops :: "conversation_update_request \<Rightarrow> bool \<Rightarrow> score_op list" where
  "emergency_score_ops request approved =
     (case request of
        Some (EmergencyCriteria (Some evidence)) \<Rightarrow>
          if \<not> approved then [creator_penalty evidence]
          else creator_reward evidence #
               (case target_score_op evidence of Some op \<Rightarrow> [op] | None \<Rightarrow> [])
      | _ \<Rightarrow> [])"

section \<open>The storage trait and the service\<close>

record 's score_storage_ops =
  ss_get :: "'s \<Rightarrow> bytes \<Rightarrow> string + i64 option"
  ss_set :: "bytes \<Rightarrow> i64 \<Rightarrow> 's \<Rightarrow> (string + unit) \<times> 's"
  ss_remove :: "bytes \<Rightarrow> 's \<Rightarrow> (string + unit) \<times> 's"
  ss_all_scores :: "'s \<Rightarrow> string + (bytes \<times> i64) list"

record 's peer_scoring_service =
  pss_storage :: 's
  pss_score_deltas :: "(score_event, i64) imap"
  pss_config :: scoring_config

definition storage_err :: "string + 'a \<Rightarrow> conversation_error + 'a" where
  "storage_err r = (case r of Inl e \<Rightarrow> Inl (ScoreStorage e) | Inr v \<Rightarrow> Inr v)"

definition scoring_new ::
  "'s \<Rightarrow> (score_event, i64) imap \<Rightarrow> scoring_config \<Rightarrow> 's peer_scoring_service" where
  "scoring_new storage overrides config =
     \<lparr>pss_storage = storage,
      pss_score_deltas = fold (\<lambda>(e, d). imap_insert e d) overrides default_score_deltas,
      pss_config = config\<rparr>"

text \<open>The lookup the source unwraps: \<open>scoring_new\<close> puts every event into the table.\<close>

definition score_delta :: "'s peer_scoring_service \<Rightarrow> score_event \<Rightarrow> i64" where
  "score_delta svc event =
     (case imap_get (pss_score_deltas svc) event of Some d \<Rightarrow> d | None \<Rightarrow> 0)"

text \<open>The two storage writes, with the error lifted and the storage kept as the backend left it.\<close>

definition storage_set ::
  "'s score_storage_ops \<Rightarrow> bytes \<Rightarrow> i64 \<Rightarrow> 's peer_scoring_service \<Rightarrow>
   (conversation_error + unit) \<times> 's peer_scoring_service" where
  "storage_set S member_id score svc =
     (case ss_set S member_id score (pss_storage svc) of
        (r, s) \<Rightarrow> (storage_err r, svc\<lparr>pss_storage := s\<rparr>))"

definition scoring_remove_member ::
  "'s score_storage_ops \<Rightarrow> bytes \<Rightarrow> 's peer_scoring_service \<Rightarrow>
   (conversation_error + unit) \<times> 's peer_scoring_service" where
  "scoring_remove_member S member_id svc =
     (case ss_remove S member_id (pss_storage svc) of
        (r, s) \<Rightarrow> (storage_err r, svc\<lparr>pss_storage := s\<rparr>))"

definition scoring_add_member ::
  "'s score_storage_ops \<Rightarrow> bytes \<Rightarrow> 's peer_scoring_service \<Rightarrow>
   (conversation_error + unit) \<times> 's peer_scoring_service" where
  "scoring_add_member S member_id svc =
     storage_set S member_id (sco_default_score (pss_config svc)) svc"

definition storage_get ::
  "'s score_storage_ops \<Rightarrow> 's peer_scoring_service \<Rightarrow> bytes \<Rightarrow> conversation_error + i64 option" where
  "storage_get S svc member_id = storage_err (ss_get S (pss_storage svc) member_id)"

text \<open>\<^verbatim>\<open>Iterator::position\<close>.\<close>

fun position :: "('a \<Rightarrow> bool) \<Rightarrow> 'a list \<Rightarrow> nat option" where
  "position P [] = None"
| "position P (y # ys) = (if P y then Some 0 else map_option Suc (position P ys))"

text \<open>
  The loop of \<open>apply_ops\<close>: the members touched so far in first-touch order, each with its
  score before the batch and its score so far.
\<close>

fun apply_ops_loop ::
  "'s score_storage_ops \<Rightarrow> score_op list \<Rightarrow> (bytes \<times> i64 \<times> i64) list \<Rightarrow> 's peer_scoring_service \<Rightarrow>
   (conversation_error + (bytes \<times> i64 \<times> i64) list) \<times> 's peer_scoring_service" where
  "apply_ops_loop S [] touched svc = (Inr touched, svc)"
| "apply_ops_loop S (op # ops) touched svc =
     (let write = (\<lambda>index touched'.
            let score = saturating_add_i64 (snd (snd (touched' ! index))) (score_delta svc (op_event op));
                touched'' = touched'[index := (fst (touched' ! index), fst (snd (touched' ! index)), score)]
            in try_then (storage_set S (op_member_id op) score svc)
                 (\<lambda>_ svc'. apply_ops_loop S ops touched'' svc'))
      in case position (\<lambda>(id, _, _). id = op_member_id op) touched of
           Some index \<Rightarrow> write index touched
         | None \<Rightarrow>
             (case storage_get S svc (op_member_id op) of
                Inl e \<Rightarrow> (Inl e, svc)
              | Inr None \<Rightarrow> apply_ops_loop S ops touched svc
              | Inr (Some score) \<Rightarrow>
                  write (length touched) (touched @ [(op_member_id op, score, score)])))"

definition apply_ops ::
  "'s score_storage_ops \<Rightarrow> score_op list \<Rightarrow> 's peer_scoring_service \<Rightarrow>
   (conversation_error + score_change list) \<times> 's peer_scoring_service" where
  "apply_ops S ops svc =
     try_then (apply_ops_loop S ops [] svc) (\<lambda>touched svc'.
       (Inr (map (\<lambda>(m, previous, score).
                    \<lparr>sc_member_id = m, sc_previous = previous, sc_score = score\<rparr>)
               (filter (\<lambda>(_, previous, score). previous \<noteq> score) touched)), svc'))"

fun apply_snapshot_loop ::
  "'s score_storage_ops \<Rightarrow> score_snapshot \<Rightarrow> score_change list \<Rightarrow> 's peer_scoring_service \<Rightarrow>
   (conversation_error + score_change list) \<times> 's peer_scoring_service" where
  "apply_snapshot_loop S [] changes svc = (Inr changes, svc)"
| "apply_snapshot_loop S ((member_id, score) # rest) changes svc =
     (case storage_get S svc member_id of
        Inl e \<Rightarrow> (Inl e, svc)
      | Inr found \<Rightarrow>
          let previous = (case found of Some v \<Rightarrow> v | None \<Rightarrow> sco_default_score (pss_config svc))
          in try_then (storage_set S member_id score svc) (\<lambda>_ svc'.
               apply_snapshot_loop S rest
                 (if score \<noteq> previous
                  then changes @ [\<lparr>sc_member_id = member_id, sc_previous = previous, sc_score = score\<rparr>]
                  else changes) svc'))"

definition apply_snapshot ::
  "'s score_storage_ops \<Rightarrow> score_snapshot \<Rightarrow> 's peer_scoring_service \<Rightarrow>
   (conversation_error + score_change list) \<times> 's peer_scoring_service" where
  "apply_snapshot S snapshot svc = apply_snapshot_loop S snapshot [] svc"

definition all_members_with_scores ::
  "'s score_storage_ops \<Rightarrow> 's peer_scoring_service \<Rightarrow> conversation_error + (bytes \<times> i64) list" where
  "all_members_with_scores S svc = storage_err (ss_all_scores S (pss_storage svc))"

definition scoring_snapshot ::
  "'s score_storage_ops \<Rightarrow> 's peer_scoring_service \<Rightarrow> conversation_error + score_snapshot" where
  "scoring_snapshot S svc =
     result_then (all_members_with_scores S svc) (\<lambda>scores.
       Inr (filter (\<lambda>(_, score). score \<noteq> sco_default_score (pss_config svc)) scores))"

definition score_for ::
  "'s score_storage_ops \<Rightarrow> 's peer_scoring_service \<Rightarrow> bytes \<Rightarrow> conversation_error + i64 option" where
  "score_for S svc member_id = storage_get S svc member_id"

definition set_threshold :: "i64 \<Rightarrow> 's peer_scoring_service \<Rightarrow> 's peer_scoring_service" where
  "set_threshold t svc = svc\<lparr>pss_config := (pss_config svc)\<lparr>sco_threshold := t\<rparr>\<rparr>"

definition set_default_score ::
  "'s score_storage_ops \<Rightarrow> i64 \<Rightarrow> 's peer_scoring_service \<Rightarrow>
   (conversation_error + unit) \<times> 's peer_scoring_service" where
  "set_default_score S default_score svc =
     (let previous = sco_default_score (pss_config svc);
          svc1 = svc\<lparr>pss_config := (pss_config svc)\<lparr>sco_default_score := default_score\<rparr>\<rparr>
      in if previous = default_score then (Inr (), svc1)
         else case all_members_with_scores S svc1 of
                Inl e \<Rightarrow> (Inl e, svc1)
              | Inr scores \<Rightarrow>
                  try_fold (\<lambda>(member_id, score) s.
                      if score = previous then storage_set S member_id default_score s
                      else (Inr (), s)) scores svc1)"

text \<open>\<^verbatim>\<open>sync_scoring_members\<close> of \<^verbatim>\<open>conversation/steward.rs\<close>, on its scoring service.\<close>

definition sync_scoring_members ::
  "'s score_storage_ops \<Rightarrow> bytes list \<Rightarrow> 's peer_scoring_service \<Rightarrow>
   (conversation_error + unit) \<times> 's peer_scoring_service" where
  "sync_scoring_members S mls_members svc =
     (case all_members_with_scores S svc of
        Inl e \<Rightarrow> (Inl e, svc)
      | Inr scored \<Rightarrow>
          let diff = scoring_member_diff (map fst scored) mls_members
          in try_then (try_fold (scoring_add_member S) (smd_to_add diff) svc)
               (\<lambda>_ svc'. try_fold (scoring_remove_member S) (smd_to_remove diff) svc'))"

section \<open>The in-memory backend\<close>

type_synonym in_memory_peer_score_storage = "(bytes, i64) imap"

definition in_memory_storage :: "in_memory_peer_score_storage score_storage_ops" where
  "in_memory_storage =
     \<lparr>ss_get = (\<lambda>s m. Inr (imap_get s m)),
      ss_set = (\<lambda>m v s. (Inr (), imap_insert m v s)),
      ss_remove = (\<lambda>m s. (Inr (), imap_remove m s)),
      ss_all_scores = (\<lambda>s. Inr s)\<rparr>"

section \<open>The storage contract\<close>

lemma position_Some: "position P xs = Some k \<Longrightarrow> k < length xs \<and> P (xs ! k)"
  by (induction xs arbitrary: k) (auto split: if_splits)

lemma position_None: "position P xs = None \<longleftrightarrow> (\<forall>y\<in>set xs. \<not> P y)"
  by (induction xs) auto

lemma storage_err_simps [simp]:
  "storage_err (Inl e) = Inl (ScoreStorage e)" "storage_err (Inr v) = Inr v"
  "storage_err r = Inr v \<longleftrightarrow> r = Inr v"
  by (simp_all add: storage_err_def split: sum.splits)

text \<open>The score a member ends with after a batch, and the members in first-touch order.\<close>

definition net_score :: "(score_event \<Rightarrow> i64) \<Rightarrow> bytes \<Rightarrow> score_op list \<Rightarrow> i64 \<Rightarrow> i64" where
  "net_score delta m ops v =
     foldl (\<lambda>acc op. saturating_add_i64 acc (delta (op_event op))) v
       (filter (\<lambda>op. op_member_id op = m) ops)"

lemma net_score_simps:
  "net_score d m [] v = v"
  "net_score d m (op # ops) v =
     net_score d m ops (if op_member_id op = m then saturating_add_i64 v (d (op_event op)) else v)"
  by (simp_all add: net_score_def)

lemma net_score_eta:
  "net_score d m [] = (\<lambda>v. v)"
  "op_member_id op \<noteq> m \<Longrightarrow> net_score d m (op # ops) = net_score d m ops"
  by (simp_all add: fun_eq_iff net_score_simps)

definition first_touch :: "'a list \<Rightarrow> 'a list" where
  "first_touch xs = rev (remdups (rev xs))"

definition touch :: "('a \<Rightarrow> bool) \<Rightarrow> 'a \<Rightarrow> 'a list \<Rightarrow> 'a list" where
  "touch P m ids = (if m \<in> set ids \<or> \<not> P m then ids else ids @ [m])"

lemma fold_touch: "fold (touch P) ms [] = filter P (first_touch ms)"
proof (induction ms rule: rev_induct)
  case (snoc m ms)
  have "set (first_touch ms) = set ms" by (simp add: first_touch_def)
  with snoc show ?case by (auto simp: touch_def first_touch_def)
qed (simp add: first_touch_def)

lemma distinct_first_touch [simp]: "distinct (first_touch xs)"
  by (simp add: first_touch_def)

lemma set_first_touch [simp]: "set (first_touch xs) = set xs"
  by (simp add: first_touch_def)

locale score_storage =
  fixes S :: "'s score_storage_ops"
    and table :: "'s \<Rightarrow> bytes \<Rightarrow> i64 option"
    and valid :: "'s \<Rightarrow> bool"
  assumes get_table: "ss_get S s m = Inr found \<Longrightarrow> found = table s m"
    and set_table: "ss_set S m v s = (Inr u, s') \<Longrightarrow> table s' = (table s)(m \<mapsto> v)"
    and remove_table: "ss_remove S m s = (Inr u, s') \<Longrightarrow> table s' = (table s)(m := None)"
    and all_table: "ss_all_scores S s = Inr l \<Longrightarrow> map_of l = table s"
    and all_distinct: "ss_all_scores S s = Inr l \<Longrightarrow> valid s \<Longrightarrow> distinct (map fst l)"
    and valid_set: "valid s \<Longrightarrow> valid (snd (ss_set S m v s))"
    and valid_remove: "valid s \<Longrightarrow> valid (snd (ss_remove S m s))"
begin

abbreviation scores :: "'s peer_scoring_service \<Rightarrow> bytes \<Rightarrow> i64 option" where
  "scores svc \<equiv> table (pss_storage svc)"

lemma storage_set_ok:
  assumes "storage_set S m v svc = (Inr u, svc')"
  shows "scores svc' = (scores svc)(m \<mapsto> v)" "pss_score_deltas svc' = pss_score_deltas svc"
    "pss_config svc' = pss_config svc"
  using assms set_table by (auto simp: storage_set_def split: prod.splits)

lemma storage_get_ok: "storage_get S svc m = Inr v \<Longrightarrow> v = scores svc m"
  by (simp add: storage_get_def get_table)

lemma apply_ops_loop_ok:
  assumes "apply_ops_loop S ops touched svc = (Inr touched', svc')"
    and "touched = map (\<lambda>i. (i, the (T0 i), the (scores svc i))) ids" and "distinct ids"
    and "\<forall>i\<in>set ids. scores svc i \<noteq> None" and "\<forall>i. i \<notin> set ids \<longrightarrow> scores svc i = T0 i"
  shows "touched' = map (\<lambda>i. (i, the (T0 i), the (scores svc' i)))
           (fold (touch (\<lambda>m. scores svc m \<noteq> None)) (map op_member_id ops) ids) \<and>
    scores svc' = (\<lambda>m. map_option (net_score (score_delta svc) m ops) (scores svc m)) \<and>
    pss_score_deltas svc' = pss_score_deltas svc \<and> pss_config svc' = pss_config svc"
  using assms
proof (induction ops arbitrary: touched svc ids)
  case Nil
  then show ?case by (auto simp: net_score_eta option.map_ident)
next
  case (Cons op ops)
  let ?m = "op_member_id op" and ?d = "score_delta svc (op_event op)"
  have written: ?case
    if mem: "?m \<in> set ids'" and sc: "scores svc ?m = Some v"
      and ids': "ids' = touch (\<lambda>m. scores svc m \<noteq> None) ?m ids"
      and dist: "distinct ids'" and tr: "\<forall>i\<in>set ids'. scores svc i \<noteq> None"
      and un: "\<forall>i. i \<notin> set ids' \<longrightarrow> scores svc i = T0 i"
      and w: "storage_set S ?m (saturating_add_i64 v ?d) svc = (Inr u, svc1)"
      and rec: "apply_ops_loop S ops
        (map (\<lambda>i. (i, the (T0 i), the (((scores svc)(?m \<mapsto> saturating_add_i64 v ?d)) i))) ids') svc1 =
        (Inr touched', svc')" for v ids' u svc1
  proof -
    note s1 = storage_set_ok [OF w]
    have dom: "(\<lambda>m. scores svc1 m \<noteq> None) = (\<lambda>m. scores svc m \<noteq> None)"
      using sc s1 by (auto simp: fun_eq_iff)
    have delta: "score_delta svc1 = score_delta svc"
      using s1 by (simp add: score_delta_def fun_eq_iff)
    have IH: "touched' = map (\<lambda>i. (i, the (T0 i), the (scores svc' i)))
           (fold (touch (\<lambda>m. scores svc1 m \<noteq> None)) (map op_member_id ops) ids') \<and>
      scores svc' = (\<lambda>m. map_option (net_score (score_delta svc1) m ops) (scores svc1 m)) \<and>
      pss_score_deltas svc' = pss_score_deltas svc1 \<and> pss_config svc' = pss_config svc1"
      using tr un mem by (intro Cons.IH [OF rec]) (auto simp: s1 dist)
    have "map_option (net_score (score_delta svc) m ops) (scores svc1 m) =
        map_option (net_score (score_delta svc) m (op # ops)) (scores svc m)" for m
      using sc s1(1) by (cases "m = ?m") (simp_all add: net_score_simps net_score_eta)
    with IH show ?thesis unfolding dom delta ids' s1(2,3) by simp
  qed
  have upd: "(map (\<lambda>i. (i, the (T0 i), the (scores svc i))) ids')[k := (?m, the (T0 ?m), v)] =
      map (\<lambda>i. (i, the (T0 i), the (((scores svc)(?m \<mapsto> v)) i))) ids'"
    if "distinct ids'" "k < length ids'" "ids' ! k = ?m" for ids' k v
    using that nth_eq_iff_index_eq [OF that(1)]
    by (intro nth_equalityI) (simp_all add: nth_list_update, metis)
  show ?case
  proof (cases "position (\<lambda>(id, _, _). id = ?m) touched")
    case (Some k)
    then have k: "k < length ids" "ids ! k = ?m"
      using position_Some [OF Some] Cons.prems(2) by auto
    then have mem: "?m \<in> set ids" by (metis nth_mem)
    then obtain v where v: "scores svc ?m = Some v" using Cons.prems(4) by auto
    have tk: "touched ! k = (?m, the (T0 ?m), v)" using k v Cons.prems(2) by simp
    obtain u svc1 where w: "storage_set S ?m (saturating_add_i64 v ?d) svc = (Inr u, svc1)"
      and rec: "apply_ops_loop S ops (touched[k := (?m, the (T0 ?m), saturating_add_i64 v ?d)]) svc1 =
        (Inr touched', svc')"
      using Cons.prems(1) Some tk by (auto simp: Let_def try_then_eq_Inr)
    show ?thesis
      using Cons.prems mem upd [OF Cons.prems(3) k] rec
      by (intro written [OF mem v _ Cons.prems(3) Cons.prems(4,5) w]) (simp_all add: touch_def)
  next
    case None
    then have nm: "?m \<notin> set ids" using Cons.prems(2) by (auto simp: position_None)
    show ?thesis
    proof (cases "storage_get S svc ?m")
      case (Inl e)
      then show ?thesis using Cons.prems(1) None by simp
    next
      case (Inr found)
      note found = storage_get_ok [OF Inr]
      show ?thesis
      proof (cases found)
        case None
        then have nt: "scores svc ?m = None" using found by simp
        have "apply_ops_loop S ops touched svc = (Inr touched', svc')"
          using Cons.prems(1) \<open>position _ touched = None\<close> Inr None by simp
        note IH = Cons.IH [OF this Cons.prems(2-5)]
        have "map_option (net_score (score_delta svc) m ops) (scores svc m) =
            map_option (net_score (score_delta svc) m (op # ops)) (scores svc m)" for m
          using nt by (cases "m = ?m") (simp_all add: net_score_eta)
        moreover have "touch (\<lambda>m. scores svc m \<noteq> None) ?m ids = ids" using nt by (simp add: touch_def)
        ultimately show ?thesis using IH by simp
      next
        case (Some v)
        then have v: "scores svc ?m = Some v" using found by simp
        have T0: "the (T0 ?m) = v" using Cons.prems(5) nm v by simp
        let ?ids = "ids @ [?m]"
        have tch: "touched @ [(?m, v, v)] = map (\<lambda>i. (i, the (T0 i), the (scores svc i))) ?ids"
          using Cons.prems(2) T0 v by simp
        have k: "length ids < length ?ids" "?ids ! length ids = ?m" by simp_all
        have len: "length touched = length ids" using Cons.prems(2) by simp
        have dist: "distinct ?ids" using nm Cons.prems(3) by simp
        obtain u svc1 where w: "storage_set S ?m (saturating_add_i64 v ?d) svc = (Inr u, svc1)"
          and rec: "apply_ops_loop S ops
            ((touched @ [(?m, v, v)])[length ids := (?m, v, saturating_add_i64 v ?d)]) svc1 =
            (Inr touched', svc')"
          using Cons.prems(1) \<open>position _ touched = None\<close> Inr Some len
          by (auto simp: Let_def try_then_eq_Inr nth_append)
        show ?thesis
          using rec [unfolded tch] upd [OF dist k, of "saturating_add_i64 v ?d"] T0 nm v Cons.prems(4,5)
          by (intro written [OF _ v _ dist _ _ w]) (auto simp: touch_def)
      qed
    qed
  qed
qed

lemma apply_ops_ok:
  assumes "apply_ops S ops svc = (Inr changes, svc')"
  shows "scores svc' = (\<lambda>m. map_option (net_score (score_delta svc) m ops) (scores svc m))"
    and "changes = map (\<lambda>m. \<lparr>sc_member_id = m, sc_previous = the (scores svc m),
                              sc_score = the (scores svc' m)\<rparr>)
           (filter (\<lambda>m. scores svc' m \<noteq> scores svc m) (first_touch (map op_member_id ops)))"
proof -
  obtain touched where l: "apply_ops_loop S ops [] svc = (Inr touched, svc')"
    and c: "changes = map (\<lambda>(m, previous, score).
                    \<lparr>sc_member_id = m, sc_previous = previous, sc_score = score\<rparr>)
               (filter (\<lambda>(_, previous, score). previous \<noteq> score) touched)"
    using assms by (auto simp: apply_ops_def try_then_eq_Inr)
  have t: "touched = map (\<lambda>i. (i, the (scores svc i), the (scores svc' i)))
      (filter (\<lambda>m. scores svc m \<noteq> None) (first_touch (map op_member_id ops)))"
    and s': "scores svc' = (\<lambda>m. map_option (net_score (score_delta svc) m ops) (scores svc m))"
    using apply_ops_loop_ok [OF l, of "scores svc" "[]"] by (simp_all add: fold_touch)
  show "scores svc' = (\<lambda>m. map_option (net_score (score_delta svc) m ops) (scores svc m))" by (rule s')
  have "filter (\<lambda>m. the (scores svc m) \<noteq> the (scores svc' m))
      (filter (\<lambda>m. scores svc m \<noteq> None) (first_touch (map op_member_id ops))) =
      filter (\<lambda>m. scores svc' m \<noteq> scores svc m) (first_touch (map op_member_id ops))"
    unfolding filter_filter s'
  proof (rule filter_cong [OF refl])
    fix m
    show "(scores svc m \<noteq> None \<and> the (scores svc m) \<noteq>
        the (map_option (net_score (score_delta svc) m ops) (scores svc m))) =
      (map_option (net_score (score_delta svc) m ops) (scores svc m) \<noteq> scores svc m)"
      by (cases "scores svc m") auto
  qed
  then show "changes = map (\<lambda>m. \<lparr>sc_member_id = m, sc_previous = the (scores svc m),
                              sc_score = the (scores svc' m)\<rparr>)
           (filter (\<lambda>m. scores svc' m \<noteq> scores svc m) (first_touch (map op_member_id ops)))"
    unfolding c t by (simp add: filter_map o_def)
qed

lemma apply_snapshot_loop_ok:
  assumes "apply_snapshot_loop S snap changes svc = (Inr changes', svc')" "distinct (map fst snap)"
  shows "scores svc' = scores svc ++ map_of snap" "pss_config svc' = pss_config svc"
    "changes' = changes @ map (\<lambda>(m, v). \<lparr>sc_member_id = m,
        sc_previous = (case scores svc m of Some p \<Rightarrow> p | None \<Rightarrow> sco_default_score (pss_config svc)),
        sc_score = v\<rparr>)
      (filter (\<lambda>(m, v). v \<noteq> (case scores svc m of Some p \<Rightarrow> p
                               | None \<Rightarrow> sco_default_score (pss_config svc))) snap)"
  using assms
proof (induction snap arbitrary: changes svc)
  case (Cons e snap)
  obtain m v where e: "e = (m, v)" by (cases e)
  {
    case 1
    then obtain found u svc1 chg where g: "storage_get S svc m = Inr found"
      and w: "storage_set S m v svc = (Inr u, svc1)"
      and l: "apply_snapshot_loop S snap chg svc1 = (Inr changes', svc')"
      by (auto simp: e Let_def try_then_eq_Inr split: sum.splits)
    have "m \<notin> fst ` set snap" using 1 e by auto
    then have "map_of snap m = None" by (simp add: map_of_eq_None_iff)
    with Cons.IH(1) [OF l] 1 storage_set_ok [OF w] show ?case
      by (auto simp: e map_add_def fun_eq_iff split: option.splits)
  next
    case 2
    then obtain found u svc1 chg where w: "storage_set S m v svc = (Inr u, svc1)"
      and l: "apply_snapshot_loop S snap chg svc1 = (Inr changes', svc')"
      by (auto simp: e Let_def try_then_eq_Inr split: sum.splits)
    with Cons.IH(2) [OF l] 2 storage_set_ok [OF w] show ?case by simp
  next
    case 3
    let ?prev = "\<lambda>s m. case scores s m of Some p \<Rightarrow> p | None \<Rightarrow> sco_default_score (pss_config s)"
    from 3 obtain u svc1 where w: "storage_set S m v svc = (Inr u, svc1)"
      and l: "apply_snapshot_loop S snap (if v \<noteq> ?prev svc m
         then changes @ [\<lparr>sc_member_id = m, sc_previous = ?prev svc m, sc_score = v\<rparr>]
         else changes) svc1 = (Inr changes', svc')"
      by (auto simp: e Let_def try_then_eq_Inr dest!: storage_get_ok split: sum.splits)
    have same: "?prev svc1 n = ?prev svc n" if "(n, z) \<in> set snap" for n z
    proof -
      have "n \<noteq> m" using that 3 e by force
      then show ?thesis using storage_set_ok [OF w] by (simp split: option.splits)
    qed
    have "filter (\<lambda>(n, z). z \<noteq> ?prev svc1 n) snap = filter (\<lambda>(n, z). z \<noteq> ?prev svc n) snap"
      using same by (intro filter_cong) auto
    moreover have "map (\<lambda>(n, z). \<lparr>sc_member_id = n, sc_previous = ?prev svc1 n, sc_score = z\<rparr>)
        (filter (\<lambda>(n, z). z \<noteq> ?prev svc n) snap) =
      map (\<lambda>(n, z). \<lparr>sc_member_id = n, sc_previous = ?prev svc n, sc_score = z\<rparr>)
        (filter (\<lambda>(n, z). z \<noteq> ?prev svc n) snap)"
      using same by (intro map_cong) auto
    ultimately show ?case
      using Cons.IH(3) [OF l] 3 by (simp add: e)
  }
qed simp_all

lemma set_default_fold_ok:
  assumes "try_fold (\<lambda>(m, v) s. if v = old then storage_set S m new s else (Inr (), s)) l svc =
      (Inr u, svc')" "distinct (map fst l)"
  shows "scores svc' = (\<lambda>m. if map_of l m = Some old then Some new else scores svc m) \<and>
    pss_config svc' = pss_config svc"
  using assms
proof (induction l arbitrary: svc)
  case (Cons e l)
  obtain m v where e: "e = (m, v)" by (cases e)
  obtain u1 svc1 where h: "(if v = old then storage_set S m new svc else (Inr (), svc)) = (Inr u1, svc1)"
    and t: "try_fold (\<lambda>(m, v) s. if v = old then storage_set S m new s else (Inr (), s)) l svc1 =
      (Inr u, svc')"
    using Cons.prems(1) by (auto simp: e try_then_eq_Inr)
  have "m \<notin> fst ` set l" using Cons.prems(2) e by auto
  then have n: "map_of l m = None" by (simp add: map_of_eq_None_iff)
  have s1: "scores svc1 = (if v = old then (scores svc)(m \<mapsto> new) else scores svc) \<and>
      pss_config svc1 = pss_config svc"
    using h storage_set_ok by (auto split: if_splits)
  show ?case
    using Cons.IH [OF t] Cons.prems(2) s1 n by (auto simp: e fun_eq_iff)
qed simp

lemma set_default_score_ok:
  assumes "set_default_score S new svc = (Inr u, svc')" and "valid (pss_storage svc)"
  shows "scores svc' = (\<lambda>m. if scores svc m = Some (sco_default_score (pss_config svc))
                             then Some new else scores svc m)"
    "sco_default_score (pss_config svc') = new"
proof -
  let ?s1 = "svc\<lparr>pss_config := (pss_config svc)\<lparr>sco_default_score := new\<rparr>\<rparr>"
  have "scores svc' = (\<lambda>m. if scores svc m = Some (sco_default_score (pss_config svc))
                             then Some new else scores svc m) \<and>
        sco_default_score (pss_config svc') = new"
  proof (cases "sco_default_score (pss_config svc) = new")
    case True
    then show ?thesis using assms(1) by (auto simp: set_default_score_def Let_def fun_eq_iff)
  next
    case False
    then obtain l where l: "ss_all_scores S (pss_storage svc) = Inr l"
      and f: "try_fold (\<lambda>(m, v) s. if v = sco_default_score (pss_config svc)
                then storage_set S m new s else (Inr (), s)) l ?s1 = (Inr u, svc')"
      using assms(1) by (auto simp: set_default_score_def Let_def all_members_with_scores_def
          split: sum.splits)
    show ?thesis
      using set_default_fold_ok [OF f all_distinct [OF l assms(2)]] all_table [OF l]
      by (simp add: fun_eq_iff)
  qed
  then show "scores svc' = (\<lambda>m. if scores svc m = Some (sco_default_score (pss_config svc))
                             then Some new else scores svc m)"
    "sco_default_score (pss_config svc') = new" by auto
qed

lemma add_members_ok:
  assumes "try_fold (scoring_add_member S) ms svc = (Inr u, svc')"
  shows "scores svc' = (\<lambda>m. if m \<in> set ms then Some (sco_default_score (pss_config svc))
                             else scores svc m) \<and> pss_config svc' = pss_config svc"
  using assms
proof (induction ms arbitrary: svc)
  case (Cons m ms)
  then obtain u1 svc1 where h: "storage_set S m (sco_default_score (pss_config svc)) svc = (Inr u1, svc1)"
    and t: "try_fold (scoring_add_member S) ms svc1 = (Inr u, svc')"
    by (auto simp: scoring_add_member_def [of S m] try_then_eq_Inr)
  show ?case using Cons.IH [OF t] storage_set_ok [OF h] by (auto simp: fun_eq_iff)
qed simp

lemma remove_members_ok:
  assumes "try_fold (scoring_remove_member S) ms svc = (Inr u, svc')"
  shows "scores svc' = (\<lambda>m. if m \<in> set ms then None else scores svc m)"
  using assms
proof (induction ms arbitrary: svc)
  case (Cons m ms)
  then obtain u1 svc1 where h: "scoring_remove_member S m svc = (Inr u1, svc1)"
    and t: "try_fold (scoring_remove_member S) ms svc1 = (Inr u, svc')"
    by (auto simp: try_then_eq_Inr)
  have "scores svc1 = (scores svc)(m := None)"
    using h remove_table by (auto simp: scoring_remove_member_def split: prod.splits)
  then show ?case using Cons.IH [OF t] by (auto simp: fun_eq_iff)
qed simp

lemma sync_scoring_members_ok:
  assumes "sync_scoring_members S mls svc = (Inr u, svc')"
  shows "scores svc' = (\<lambda>m. if m \<notin> set mls then None
      else Some (case scores svc m of Some v \<Rightarrow> v | None \<Rightarrow> sco_default_score (pss_config svc)))"
proof -
  obtain l where l: "ss_all_scores S (pss_storage svc) = Inr l"
    using assms by (auto simp: sync_scoring_members_def all_members_with_scores_def split: sum.splits)
  let ?d = "scoring_member_diff (map fst l) mls"
  obtain svc1 v where a: "try_fold (scoring_add_member S) (smd_to_add ?d) svc = (Inr v, svc1)"
    and r: "try_fold (scoring_remove_member S) (smd_to_remove ?d) svc1 = (Inr u, svc')"
    using assms l
    by (auto simp: sync_scoring_members_def all_members_with_scores_def Let_def try_then_eq_Inr)
  have dom: "m \<in> fst ` set l \<longleftrightarrow> scores svc m \<noteq> None" for m
    using all_table [OF l] by (metis map_of_eq_None_iff)
  show ?thesis
    unfolding remove_members_ok [OF r] conjunct1 [OF add_members_ok [OF a]]
    by (auto simp: fun_eq_iff scoring_member_diff_def dom split: option.splits)
qed

text \<open>Adopting a peer's sync: the new default first, then the diverged scores.\<close>

lemma adopt_snapshot_ok:
  assumes snap: "scoring_snapshot S donor = Inr snap" "valid (pss_storage donor)"
    and def: "set_default_score S (sco_default_score (pss_config donor)) svc = (Inr u, svc1)"
      "valid (pss_storage svc)"
    and app: "apply_snapshot S snap svc1 = (Inr changes, svc2)"
    and fresh: "\<And>m. scores svc m \<noteq> None \<Longrightarrow> scores svc m = Some (sco_default_score (pss_config svc))"
    and dom: "\<And>m. scores svc m = None \<longleftrightarrow> scores donor m = None"
  shows "scores svc2 = scores donor"
proof
  fix m
  let ?d = "sco_default_score (pss_config donor)"
  obtain l where l: "ss_all_scores S (pss_storage donor) = Inr l"
    "snap = filter (\<lambda>(_, v). v \<noteq> ?d) l"
    using snap(1) by (auto simp: scoring_snapshot_def all_members_with_scores_def result_then_eq_Inr)
  have dist: "distinct (map fst l)" using all_distinct [OF l(1) snap(2)] .
  have ms: "map_of snap m = (case scores donor m of Some v \<Rightarrow> if v \<noteq> ?d then Some v else None | None \<Rightarrow> None)"
    using imap_get_retain [of l "\<lambda>_ v. v \<noteq> ?d" m] dist all_table [OF l(1)] l(2)
    by (simp add: imap_ok_def imap_get_def imap_retain_def)
  have "distinct (map fst snap)" using dist l(2) by (simp add: distinct_map_filter)
  then have "scores svc2 m = (scores svc1 ++ map_of snap) m"
    using apply_snapshot_loop_ok(1) [OF app [unfolded apply_snapshot_def]] by simp
  then show "scores svc2 m = scores donor m"
    using ms set_default_score_ok(1) [OF def] fresh [of m] dom [of m]
    by (auto simp: map_add_def split: option.splits if_splits)
qed

end

locale total_score_storage = score_storage +
  assumes get_total: "\<exists>v. ss_get S s m = Inr v"
    and set_total: "\<exists>u. fst (ss_set S m v s) = Inr u"
    and remove_total: "\<exists>u. fst (ss_remove S m s) = Inr u"
    and all_total: "\<exists>l. ss_all_scores S s = Inr l"
begin

lemma storage_set_total: "\<exists>svc'. storage_set S m v svc = (Inr (), svc')"
  using set_total [of m v "pss_storage svc"] by (auto simp: storage_set_def split: prod.splits)

lemma apply_ops_loop_total: "\<exists>t svc'. apply_ops_loop S ops touched svc = (Inr t, svc')"
proof (induction ops arbitrary: touched svc)
  case (Cons op ops)
  have w: "\<exists>t svc'. try_then (storage_set S (op_member_id op) v svc)
      (\<lambda>_ svc'. apply_ops_loop S ops touched' svc') = (Inr t, svc')" for v touched'
    using storage_set_total [of "op_member_id op" v svc] Cons.IH by auto
  obtain f where "ss_get S (pss_storage svc) (op_member_id op) = Inr f" using get_total by blast
  then show ?case
    using w Cons.IH by (cases f) (auto simp: Let_def storage_get_def split: option.splits)
qed simp

lemma apply_ops_total: "\<exists>changes svc'. apply_ops S ops svc = (Inr changes, svc')"
  using apply_ops_loop_total [of ops "[]" svc] by (auto simp: apply_ops_def)

lemma add_members_total: "\<exists>svc'. try_fold (scoring_add_member S) ms svc = (Inr (), svc')"
proof (induction ms arbitrary: svc)
  case (Cons m ms)
  then show ?case
    using storage_set_total [of m "sco_default_score (pss_config svc)" svc]
    by (auto simp: scoring_add_member_def [of S m])
qed simp

lemma remove_members_total: "\<exists>svc'. try_fold (scoring_remove_member S) ms svc = (Inr (), svc')"
proof (induction ms arbitrary: svc)
  case (Cons m ms)
  obtain s' where "ss_remove S m (pss_storage svc) = (Inr (), s')"
    using remove_total [of m "pss_storage svc"] by (metis (full_types) old.unit.exhaust prod.collapse)
  then show ?case using Cons.IH by (simp add: scoring_remove_member_def)
qed simp

lemma sync_scoring_members_total: "\<exists>svc'. sync_scoring_members S mls svc = (Inr (), svc')"
proof -
  obtain l where l: "ss_all_scores S (pss_storage svc) = Inr l" using all_total by blast
  let ?d = "scoring_member_diff (map fst l) mls"
  obtain svc1 where "try_fold (scoring_add_member S) (smd_to_add ?d) svc = (Inr (), svc1)"
    using add_members_total by blast
  with l remove_members_total [of "smd_to_remove ?d" svc1] show ?thesis
    by (auto simp: sync_scoring_members_def all_members_with_scores_def Let_def)
qed

end

interpretation in_memory: total_score_storage in_memory_storage imap_get imap_ok
proof
  show "\<And>s m v u s'. ss_set in_memory_storage m v s = (Inr u, s') \<Longrightarrow> imap_get s' = (imap_get s)(m \<mapsto> v)"
    "\<And>s m u s'. ss_remove in_memory_storage m s = (Inr u, s') \<Longrightarrow> imap_get s' = (imap_get s)(m := None)"
    by (auto simp: in_memory_storage_def fun_eq_iff)
  show "\<And>s l. ss_all_scores in_memory_storage s = Inr l \<Longrightarrow> map_of l = imap_get s"
    "\<And>s l. ss_all_scores in_memory_storage s = Inr l \<Longrightarrow> imap_ok s \<Longrightarrow> distinct (map fst l)"
    by (auto simp: in_memory_storage_def imap_get_def imap_ok_def)
qed (simp_all add: in_memory_storage_def)

lemma in_i64_net_score: "in_i64 v \<Longrightarrow> in_i64 (net_score d m ops v)"
  by (induction ops arbitrary: v) (simp_all add: net_score_simps)

lemma net_score_untouched: "m \<notin> op_member_id ` set ops \<Longrightarrow> net_score d m ops v = v"
  by (induction ops arbitrary: v) (auto simp: net_score_simps)

section \<open>Properties\<close>

text \<open>
  C32. A batch of score ops on the in-memory table always succeeds; every tracked member ends
  at the saturating sum of its own events, untracked members stay untracked, scores stay in
  the i64 range, and the reported changes are exactly the members whose score differs, once
  each, in the order they were first touched, with the scores before and after.
\<close>

theorem apply_ops_net_changes:
  "\<exists>changes svc'. apply_ops in_memory_storage ops svc = (Inr changes, svc') \<and>
     (\<forall>m. imap_get (pss_storage svc') m =
        map_option (net_score (score_delta svc) m ops) (imap_get (pss_storage svc) m)) \<and>
     (\<forall>m v. imap_get (pss_storage svc) m = Some v \<and> in_i64 v \<longrightarrow>
        in_i64 (the (imap_get (pss_storage svc') m))) \<and>
     changes = map (\<lambda>m. \<lparr>sc_member_id = m, sc_previous = the (imap_get (pss_storage svc) m),
                          sc_score = the (imap_get (pss_storage svc') m)\<rparr>)
       (filter (\<lambda>m. imap_get (pss_storage svc') m \<noteq> imap_get (pss_storage svc) m)
          (first_touch (map op_member_id ops)))"
proof -
  obtain changes svc' where r: "apply_ops in_memory_storage ops svc = (Inr changes, svc')"
    using in_memory.apply_ops_total by blast
  note ok = in_memory.apply_ops_ok [OF r]
  show ?thesis
    using r ok(2) fun_cong [OF ok(1)]
    by (intro exI [of _ changes] exI [of _ svc']) (auto simp: in_i64_net_score)
qed

definition demo_scoring :: "in_memory_peer_score_storage peer_scoring_service" where
  "demo_scoring = scoring_new [([1], 100), ([2], 60)] [] scoring_config_default"

theorem apply_ops_net_changes_witness:
  "\<exists>changes svc'. apply_ops in_memory_storage
       [\<lparr>op_member_id = [1], op_event = SuccessfulCommit\<rparr>] demo_scoring = (Inr changes, svc') \<and>
     imap_get (pss_storage svc') [1] = Some 110"
proof -
  have s: "imap_get (pss_storage demo_scoring) [1] = Some 100"
    "net_score (score_delta demo_scoring) [1] [\<lparr>op_member_id = [1], op_event = SuccessfulCommit\<rparr>] 100 = 110"
    by code_simp+
  show ?thesis
    using apply_ops_net_changes [of "[\<lparr>op_member_id = [1], op_event = SuccessfulCommit\<rparr>]" demo_scoring] s
    by fastforce
qed

text \<open>
  A joiner that adopts a peer's default score and then its sparse snapshot ends with the
  peer's whole table, given that it tracks the same members, all still at its own default.
\<close>

theorem joiner_adopts_scores:
  assumes "imap_ok (pss_storage donor)" and "imap_ok (pss_storage svc)"
    and "scoring_snapshot in_memory_storage donor = Inr snap"
    and "set_default_score in_memory_storage (sco_default_score (pss_config donor)) svc = (Inr u, svc1)"
    and "apply_snapshot in_memory_storage snap svc1 = (Inr changes, svc2)"
    and "\<And>m v. imap_get (pss_storage svc) m = Some v \<Longrightarrow> v = sco_default_score (pss_config svc)"
    and "\<And>m. imap_get (pss_storage svc) m = None \<longleftrightarrow> imap_get (pss_storage donor) m = None"
  shows "imap_get (pss_storage svc2) = imap_get (pss_storage donor)"
  using assms(6) by (intro in_memory.adopt_snapshot_ok [OF assms(3,1,4,2,5) _ assms(7)]) auto

theorem joiner_adopts_scores_witness:
  "\<exists>snap svc1 changes svc2. scoring_snapshot in_memory_storage demo_scoring = Inr snap \<and>
     set_default_score in_memory_storage 100
       (scoring_new [([2], 30), ([1], 30)] [] \<lparr>sco_default_score = 30, sco_threshold = 0\<rparr>) =
       (Inr (), svc1) \<and>
     apply_snapshot in_memory_storage snap svc1 = (Inr changes, svc2) \<and>
     imap_get (pss_storage svc2) = imap_get (pss_storage demo_scoring)"
proof -
  let ?j = "scoring_new [([2], 30), ([1], 30)] [] \<lparr>sco_default_score = 30, sco_threshold = 0\<rparr> ::
    in_memory_peer_score_storage peer_scoring_service"
  let ?one = "snd (set_default_score in_memory_storage 100 ?j)"
  let ?ch = "[\<lparr>sc_member_id = [2], sc_previous = 100, sc_score = 60\<rparr>]"
  let ?two = "snd (apply_snapshot in_memory_storage [([2], 60)] ?one)"
  have sn: "scoring_snapshot in_memory_storage demo_scoring = Inr [([2], 60)]"
    and d: "set_default_score in_memory_storage (sco_default_score (pss_config demo_scoring)) ?j = (Inr (), ?one)"
    and a: "apply_snapshot in_memory_storage [([2], 60)] ?one = (Inr ?ch, ?two)"
    and c: "sco_default_score (pss_config demo_scoring) = 100"
    and o: "imap_ok (pss_storage demo_scoring)" "imap_ok (pss_storage ?j)" by code_simp+
  have "imap_get (pss_storage ?two) = imap_get (pss_storage demo_scoring)"
    by (rule joiner_adopts_scores [OF o sn d a])
      (auto simp: scoring_new_def demo_scoring_def imap_get_Cons split: if_splits)
  with sn d a c show ?thesis by metis
qed

text \<open>
  Syncing the table with the MLS membership succeeds and leaves exactly the members
  tracked: known ones keep their score, new ones start at the default, departed ones are gone.
\<close>

theorem sync_tracks_exactly_the_members:
  "\<exists>svc'. sync_scoring_members in_memory_storage mls_members svc = (Inr (), svc') \<and>
     (\<forall>m. imap_get (pss_storage svc') m =
        (if m \<notin> set mls_members then None
         else Some (case imap_get (pss_storage svc) m of
                      Some v \<Rightarrow> v | None \<Rightarrow> sco_default_score (pss_config svc))))"
proof -
  obtain svc' where r: "sync_scoring_members in_memory_storage mls_members svc = (Inr (), svc')"
    using in_memory.sync_scoring_members_total by blast
  then show ?thesis using in_memory.sync_scoring_members_ok [OF r] by auto
qed

text \<open>
  An emergency vote pays out once and only to the two parties: rejected, the creator alone
  loses; accepted, the creator gains and the target is penalised exactly when the violation
  carries a penalty. Every non-emergency request, and an emergency without evidence, scores
  nobody.
\<close>

theorem emergency_score_ops_parties:
  "emergency_score_ops request approved =
     (case request of
        Some (EmergencyCriteria (Some ev)) \<Rightarrow>
          \<lparr>op_member_id = ve_creator_member_id ev,
           op_event = (if approved then EmergencyYesCreator else EmergencyNoCreator)\<rparr> #
          (if approved \<and> violation_try_from (ve_violation_type ev) \<in>
               Some ` {BrokenCommitViolation, BrokenMlsProposalViolation,
                       CensorshipInactivityViolation, MisbehavingCommitViolation}
           then [\<lparr>op_member_id = ve_target_member_id ev, op_event = the (target_score_event ev)\<rparr>]
           else [])
      | _ \<Rightarrow> []) \<and>
   (\<forall>op\<in>set (emergency_score_ops request approved).
      (default_delta (op_event op) < 0) = (op_event op \<noteq> EmergencyYesCreator))"
proof (cases "\<exists>ev. request = Some (EmergencyCriteria (Some ev))")
  case True
  then obtain ev where r: "request = Some (EmergencyCriteria (Some ev))" by blast
  note defs = emergency_score_ops_def creator_reward_def creator_penalty_def target_score_op_def
    target_score_event_def
  show ?thesis
  proof (cases "violation_try_from (ve_violation_type ev)")
    case None
    then show ?thesis by (simp add: r defs)
  next
    case (Some v)
    then show ?thesis by (cases v) (simp_all add: r defs)
  qed
next
  case False
  then have "emergency_score_ops request approved = []"
    by (auto simp: emergency_score_ops_def split: option.splits request_payload.splits)
  with False show ?thesis by (auto split: option.splits request_payload.splits)
qed

theorem emergency_score_ops_parties_witness:
  "emergency_score_ops (Some (EmergencyCriteria (Some (with_creator [7] (broken_commit [9] 3 []))))) True =
     [\<lparr>op_member_id = [7], op_event = EmergencyYesCreator\<rparr>,
      \<lparr>op_member_id = [9], op_event = BrokenCommit\<rparr>]"
  using emergency_score_ops_parties
    [of "Some (EmergencyCriteria (Some (with_creator [7] (broken_commit [9] 3 []))))" True]
  by (simp add: with_creator_def broken_commit_def violation_evidence_of_def target_score_event_def
      violation_try_from_def)

end
