(* ===== verification/Config.thy ===== *)
theory Config
  imports Steward_Service
begin

text \<open>
  Time and configuration: \<^verbatim>\<open>src/wall_clock.rs\<close> (timestamps and the manual clock),
  \<^verbatim>\<open>src/phase_timer.rs\<close>, \<^verbatim>\<open>src/conversation/config.rs\<close> (windows, validation, the wire form a
  joiner adopts) and \<^verbatim>\<open>src/conversation/state_machine.rs\<close>. A \<^verbatim>\<open>Duration\<close> is its number of
  nanoseconds; the additions that saturate in Rust saturate here.
\<close>

section \<open>Durations and timestamps\<close>

type_synonym duration = nat
type_synonym timestamp = duration

text \<open>\<^verbatim>\<open>Duration::MAX\<close>: \<^verbatim>\<open>u64::MAX\<close> seconds and 999999999 nanoseconds.\<close>

definition duration_max :: duration where
  "duration_max = (2 ^ 64 - 1) * 1000000000 + 999999999"

definition duration_from_secs :: "nat \<Rightarrow> duration" where
  "duration_from_secs s = s * 1000000000"

definition duration_from_millis :: "u64 \<Rightarrow> duration" where
  "duration_from_millis ms = unat ms * 1000000"

text \<open>\<^verbatim>\<open>as_millis() as u64\<close> keeps the low 64 bits.\<close>

definition duration_as_millis :: "duration \<Rightarrow> u64" where
  "duration_as_millis d = word_of_nat (d div 1000000)"

definition duration_as_secs :: "duration \<Rightarrow> u64" where
  "duration_as_secs d = word_of_nat (d div 1000000000)"

definition timestamp_add :: "timestamp \<Rightarrow> duration \<Rightarrow> timestamp" where
  "timestamp_add t d = min duration_max (t + d)"

definition saturating_duration_since :: "timestamp \<Rightarrow> timestamp \<Rightarrow> duration" where
  "saturating_duration_since t earlier = t - earlier"

section \<open>The manual clock\<close>

type_synonym mock_clock = u64

definition duration_nanos :: "duration \<Rightarrow> u64" where
  "duration_nanos d = word_of_nat (min d (2 ^ 64 - 1))"

definition mock_clock_at :: "duration \<Rightarrow> mock_clock" where
  "mock_clock_at start = duration_nanos start"

definition mock_clock_advance :: "duration \<Rightarrow> mock_clock \<Rightarrow> mock_clock" where
  "mock_clock_advance d c =
     (let add = duration_nanos d in if unat c + unat add < 2 ^ 64 then c + add else - 1)"

definition mock_clock_now :: "mock_clock \<Rightarrow> duration" where
  "mock_clock_now c = unat c"

section \<open>The phase timer\<close>

record phase_timer =
  pt_started_at :: "timestamp option"

definition phase_timer_new :: phase_timer where
  "phase_timer_new = \<lparr>pt_started_at = None\<rparr>"

definition phase_timer_start :: "timestamp \<Rightarrow> phase_timer \<Rightarrow> phase_timer" where
  "phase_timer_start now t = t\<lparr>pt_started_at := Some now\<rparr>"

definition phase_timer_clear :: "phase_timer \<Rightarrow> phase_timer" where
  "phase_timer_clear t = t\<lparr>pt_started_at := None\<rparr>"

definition elapsed_since_anchor :: "phase_timer \<Rightarrow> timestamp \<Rightarrow> duration \<Rightarrow> bool" where
  "elapsed_since_anchor t now d =
     (case pt_started_at t of Some a \<Rightarrow> now \<ge> timestamp_add a d | None \<Rightarrow> False)"

section \<open>The conversation's configuration\<close>

definition DEFAULT_COMMIT_BATCH_WINDOW :: duration where
  "DEFAULT_COMMIT_BATCH_WINDOW = duration_from_secs 60"
definition DEFAULT_PROPOSAL_EXPIRATION :: duration where
  "DEFAULT_PROPOSAL_EXPIRATION = duration_from_secs 600"
definition DEFAULT_CONSENSUS_TIMEOUT :: duration where
  "DEFAULT_CONSENSUS_TIMEOUT = duration_from_secs 30"
definition DEFAULT_RETRY_WINDOW :: duration where
  "DEFAULT_RETRY_WINDOW = duration_from_secs 5"
definition DEFAULT_BACKUP_TAKEOVER_WINDOW :: duration where
  "DEFAULT_BACKUP_TAKEOVER_WINDOW = duration_from_secs 20"
definition DEFAULT_VOTING_DELAY :: duration where
  "DEFAULT_VOTING_DELAY = duration_from_secs 10"

record conversation_config =
  cfg_commit_batch_window :: duration
  cfg_freeze_duration :: duration
  cfg_retry_window :: duration
  cfg_backup_takeover_window :: duration
  cfg_proposal_expiration :: duration
  cfg_consensus_timeout :: duration
  cfg_voting_delay :: duration
  cfg_pending_update_max_epochs :: u32
  cfg_max_reelection_attempts :: u32
  cfg_liveness_criteria_yes :: bool
  cfg_max_consensus_sessions :: nat
  cfg_commit_batch_max :: nat
  cfg_dedup_window :: nat
  cfg_recovery_auto_commit_delay :: "duration option"
  cfg_recovery_max_rounds :: u32
  cfg_steward_list :: steward_list_config

definition conversation_config_default :: conversation_config where
  "conversation_config_default =
     \<lparr>cfg_commit_batch_window = DEFAULT_COMMIT_BATCH_WINDOW,
      cfg_freeze_duration = DEFAULT_COMMIT_BATCH_WINDOW div 2,
      cfg_retry_window = DEFAULT_RETRY_WINDOW,
      cfg_backup_takeover_window = DEFAULT_BACKUP_TAKEOVER_WINDOW,
      cfg_proposal_expiration = DEFAULT_PROPOSAL_EXPIRATION,
      cfg_consensus_timeout = DEFAULT_CONSENSUS_TIMEOUT,
      cfg_voting_delay = DEFAULT_VOTING_DELAY,
      cfg_pending_update_max_epochs = 3,
      cfg_max_reelection_attempts = DEFAULT_MAX_RETRIES,
      cfg_liveness_criteria_yes = True,
      cfg_max_consensus_sessions = 128,
      cfg_commit_batch_max = 50,
      cfg_dedup_window = 10,
      cfg_recovery_auto_commit_delay = Some (duration_from_secs 5),
      cfg_recovery_max_rounds = 0,
      cfg_steward_list = steward_list_config_default\<rparr>"

definition config_validate :: "conversation_config \<Rightarrow> conversation_error + unit" where
  "config_validate c =
     (if cfg_voting_delay c \<ge> cfg_consensus_timeout c
      then Inl (InvalidConfig ''voting_delay must be < consensus_timeout'')
      else if cfg_proposal_expiration c \<le> cfg_consensus_timeout c
      then Inl (InvalidConfig ''proposal_expiration must be > consensus_timeout'')
      else if cfg_freeze_duration c = 0
      then Inl (InvalidConfig ''freeze_duration must be non-zero'')
      else if slc_sn_min (cfg_steward_list c) < 1 \<or>
              slc_sn_min (cfg_steward_list c) > slc_sn_max (cfg_steward_list c)
      then Inl (InvalidConfig ''steward_list requires 1 <= sn_min <= sn_max'')
      else Inr ())"

definition apply_nonzero_ms :: "duration \<Rightarrow> u64 \<Rightarrow> duration" where
  "apply_nonzero_ms field wire_ms = (if wire_ms \<noteq> 0 then duration_from_millis wire_ms else field)"

definition apply_timing :: "timing_config \<Rightarrow> conversation_config \<Rightarrow> conversation_config" where
  "apply_timing t c =
     c\<lparr>cfg_commit_batch_window := apply_nonzero_ms (cfg_commit_batch_window c) (tc_commit_batch_window_ms t),
       cfg_freeze_duration := apply_nonzero_ms (cfg_freeze_duration c) (tc_freeze_duration_ms t),
       cfg_retry_window := apply_nonzero_ms (cfg_retry_window c) (tc_retry_window_ms t),
       cfg_backup_takeover_window :=
         apply_nonzero_ms (cfg_backup_takeover_window c) (tc_backup_takeover_window_ms t),
       cfg_proposal_expiration := apply_nonzero_ms (cfg_proposal_expiration c) (tc_proposal_expiration_ms t),
       cfg_consensus_timeout := apply_nonzero_ms (cfg_consensus_timeout c) (tc_consensus_timeout_ms t)\<rparr>"

definition timing_config_from :: "conversation_config \<Rightarrow> timing_config" where
  "timing_config_from c =
     \<lparr>tc_commit_batch_window_ms = duration_as_millis (cfg_commit_batch_window c),
      tc_freeze_duration_ms = duration_as_millis (cfg_freeze_duration c),
      tc_proposal_expiration_ms = duration_as_millis (cfg_proposal_expiration c),
      tc_consensus_timeout_ms = duration_as_millis (cfg_consensus_timeout c),
      tc_retry_window_ms = duration_as_millis (cfg_retry_window c),
      tc_backup_takeover_window_ms = duration_as_millis (cfg_backup_takeover_window c)\<rparr>"

section \<open>The lifecycle state machine\<close>

datatype conversation_state = Working | Freezing | Selection | Reelection

datatype operating_mode = NormalMode | RecoveryMode

fun state_name :: "conversation_state \<Rightarrow> string" where
  "state_name Working = ''Working''"
| "state_name Freezing = ''Freezing''"
| "state_name Selection = ''Selection''"
| "state_name Reelection = ''Reelection''"

definition sm_new_as_member :: conversation_state where "sm_new_as_member = Working"

definition sm_start_working :: "conversation_state \<Rightarrow> conversation_state" where
  "sm_start_working s = Working"

definition sm_start_freezing :: "conversation_state \<Rightarrow> bool \<times> conversation_state" where
  "sm_start_freezing s =
     (case s of Working \<Rightarrow> (True, Freezing) | Reelection \<Rightarrow> (True, Freezing) | _ \<Rightarrow> (False, s))"

definition sm_start_selection :: "conversation_state \<Rightarrow> conversation_state" where
  "sm_start_selection s = Selection"

definition sm_start_reelection :: "conversation_state \<Rightarrow> conversation_state" where
  "sm_start_reelection s = Reelection"

definition sm_reopen_freezing :: "conversation_state \<Rightarrow> bool \<times> conversation_state" where
  "sm_reopen_freezing s = (if s = Selection then (True, Freezing) else (False, s))"

section \<open>Lemmas\<close>

definition whole_millis :: "duration \<Rightarrow> bool" where
  "whole_millis d \<longleftrightarrow> d mod 1000000 = 0 \<and> 0 < d \<and> d div 1000000 < 2 ^ 64"

lemma millis_roundtrip:
  assumes "whole_millis d"
  shows "apply_nonzero_ms d' (duration_as_millis d) = d"
proof -
  have d: "d div 1000000 * 1000000 = d" and pos: "0 < d div 1000000"
    using assms div_mult_mod_eq [of d 1000000] unfolding whole_millis_def
    by (auto simp: div_greater_zero_iff intro!: Nat.gr0I)
  have u: "unat (word_of_nat (d div 1000000) :: u64) = d div 1000000"
    using assms by (simp add: whole_millis_def unat_of_nat)
  then have "(word_of_nat (d div 1000000) :: u64) \<noteq> 0" using pos by (metis gr_implies_not0 unat_0)
  then show ?thesis using u d
    by (simp add: apply_nonzero_ms_def duration_as_millis_def duration_from_millis_def)
qed

lemma elapsed_mono:
  "elapsed_since_anchor t now d \<Longrightarrow> now \<le> now' \<Longrightarrow> elapsed_since_anchor t now' d"
  by (auto simp: elapsed_since_anchor_def split: option.splits)

lemma mock_clock_monotone: "mock_clock_now c \<le> mock_clock_now (mock_clock_advance d c)"
  using unsigned_less [where 'a = nat, of c]
  by (auto simp: mock_clock_now_def mock_clock_advance_def Let_def unat_word_ariths
        unsigned_minus_1_eq_mask mask_eq_exp_minus_1)

lemma config_validate_iff:
  "config_validate c = Inr () \<longleftrightarrow>
     cfg_voting_delay c < cfg_consensus_timeout c \<and>
     cfg_consensus_timeout c < cfg_proposal_expiration c \<and> 0 < cfg_freeze_duration c \<and>
     1 \<le> slc_sn_min (cfg_steward_list c) \<and>
     slc_sn_min (cfg_steward_list c) \<le> slc_sn_max (cfg_steward_list c)"
  by (auto simp: config_validate_def)

section \<open>Properties\<close>

text \<open>
  A joiner that adopts the wire timing of a configuration whose six windows are non-zero
  whole milliseconds ends with exactly the sender's windows, and keeps its own voting delay,
  liveness default, retry and batch limits, recovery policy and steward-list bounds.
\<close>

theorem adopted_timing_is_senders:
  assumes "\<forall>d \<in> {cfg_commit_batch_window s, cfg_freeze_duration s, cfg_retry_window s,
      cfg_backup_takeover_window s, cfg_proposal_expiration s, cfg_consensus_timeout s}. whole_millis d"
  shows "apply_timing (timing_config_from s) c =
    s\<lparr>cfg_voting_delay := cfg_voting_delay c,
      cfg_pending_update_max_epochs := cfg_pending_update_max_epochs c,
      cfg_max_reelection_attempts := cfg_max_reelection_attempts c,
      cfg_liveness_criteria_yes := cfg_liveness_criteria_yes c,
      cfg_max_consensus_sessions := cfg_max_consensus_sessions c,
      cfg_commit_batch_max := cfg_commit_batch_max c,
      cfg_dedup_window := cfg_dedup_window c,
      cfg_recovery_auto_commit_delay := cfg_recovery_auto_commit_delay c,
      cfg_recovery_max_rounds := cfg_recovery_max_rounds c,
      cfg_steward_list := cfg_steward_list c\<rparr>"
  using assms by (simp add: apply_timing_def timing_config_from_def millis_roundtrip)

definition demo_slow_config :: conversation_config where
  "demo_slow_config = conversation_config_default\<lparr>cfg_voting_delay := duration_from_secs 25\<rparr>"

lemmas config_defaults = conversation_config_default_def DEFAULT_COMMIT_BATCH_WINDOW_def
  DEFAULT_PROPOSAL_EXPIRATION_def DEFAULT_CONSENSUS_TIMEOUT_def DEFAULT_RETRY_WINDOW_def
  DEFAULT_BACKUP_TAKEOVER_WINDOW_def DEFAULT_VOTING_DELAY_def duration_from_secs_def

theorem adopted_timing_is_senders_witness:
  "cfg_consensus_timeout (apply_timing (timing_config_from conversation_config_default)
     (demo_slow_config\<lparr>cfg_consensus_timeout := 1\<rparr>)) = DEFAULT_CONSENSUS_TIMEOUT"
proof -
  have "\<forall>d \<in> {cfg_commit_batch_window conversation_config_default,
      cfg_freeze_duration conversation_config_default, cfg_retry_window conversation_config_default,
      cfg_backup_takeover_window conversation_config_default,
      cfg_proposal_expiration conversation_config_default,
      cfg_consensus_timeout conversation_config_default}. whole_millis d"
    by (simp add: config_defaults whole_millis_def)
  from adopted_timing_is_senders [OF this, of "demo_slow_config\<lparr>cfg_consensus_timeout := 1\<rparr>"]
  show ?thesis by (simp add: conversation_config_default_def)
qed

text \<open>
  C24. Adopting wire timing does not re-run the configuration check: with a valid local
  configuration and non-zero wire windows, the result is valid exactly if the adopted consensus
  timeout still exceeds the local voting delay and stays below the adopted expiration. The
  voting delay is not on the wire, so a joiner with a slower local delay ends with a
  configuration that construction would have refused.
\<close>

theorem adopted_timing_valid_iff:
  assumes "config_validate c = Inr ()" and "tc_consensus_timeout_ms t \<noteq> 0"
    and "tc_proposal_expiration_ms t \<noteq> 0" and "tc_freeze_duration_ms t \<noteq> 0"
  shows "config_validate (apply_timing t c) = Inr () \<longleftrightarrow>
    cfg_voting_delay c < duration_from_millis (tc_consensus_timeout_ms t) \<and>
    tc_consensus_timeout_ms t < tc_proposal_expiration_ms t"
  using assms
  by (auto simp: config_validate_iff apply_timing_def apply_nonzero_ms_def duration_from_millis_def
        word_less_nat_alt unat_gt_0)

theorem adopted_timing_valid_iff_witness:
  "config_validate demo_slow_config = Inr () \<and>
   config_validate (apply_timing ((timing_config_from conversation_config_default)
     \<lparr>tc_consensus_timeout_ms := 20000\<rparr>) demo_slow_config) \<noteq> Inr ()"
proof -
  let ?t = "(timing_config_from conversation_config_default)\<lparr>tc_consensus_timeout_ms := 20000\<rparr>"
  have ok: "config_validate demo_slow_config = Inr ()"
    by (simp add: config_validate_iff demo_slow_config_def config_defaults steward_list_config_default_def)
  have "config_validate (apply_timing ?t demo_slow_config) \<noteq> Inr ()"
    using adopted_timing_valid_iff [OF ok, of ?t]
    by (simp add: timing_config_from_def duration_as_millis_def demo_slow_config_def config_defaults
          duration_from_millis_def)
  with ok show ?thesis by simp
qed

end
