(* ===== verification/Conversation.thy ===== *)
theory Conversation
  imports Commit_Round Apply_Result Peer_Scoring Config
begin

text \<open>
  The conversation handle, \<^verbatim>\<open>src/conversation/handle.rs\<close>, with the events of \<^verbatim>\<open>src/events.rs\<close>,
  the outcome bus of \<^verbatim>\<open>src/consensus/outcome_bus.rs\<close> and the queries of
  \<^verbatim>\<open>src/conversation/query.rs\<close>. Everything a conversation owns is one record; a \<^verbatim>\<open>&mut self\<close>
  method returns its result with the record it leaves, also when it fails.

  \<^item> The clock is the reading \<open>cn_now\<close>: it is fixed within one call and moves between calls,
    as the clock of \<^verbatim>\<open>MockClock\<close> does.
  \<^item> The consensus service is another crate. Its calls are the fields of the parameter record
    \<open>consensus_engine\<close> over a state \<open>'c\<close> (storage, signer, sessions, the generator of proposal
    names); each returns its result, the events it publishes on the bus, and the new state.
  \<^item> Logging is left out. An error event carries the error itself instead of its display text.
\<close>

section \<open>The consensus service\<close>

type_synonym ('c, 'a) engine_call =
  "'c \<Rightarrow> (consensus_error + 'a) \<times> (string \<times> consensus_event) list \<times> 'c"

record 'c consensus_engine =
  ce_new :: "nat \<Rightarrow> 'c"
  ce_create_proposal ::
    "string \<Rightarrow> bytes \<Rightarrow> bytes \<Rightarrow> u32 \<Rightarrow> u64 \<Rightarrow> bool \<Rightarrow> duration \<Rightarrow> u64 \<Rightarrow>
     ('c, consensus_proposal) engine_call"
  ce_cast_vote :: "string \<Rightarrow> u32 \<Rightarrow> bool \<Rightarrow> u64 \<Rightarrow> ('c, consensus_vote) engine_call"
  ce_cast_vote_and_get_proposal ::
    "string \<Rightarrow> u32 \<Rightarrow> bool \<Rightarrow> u64 \<Rightarrow> ('c, consensus_proposal) engine_call"
  ce_process_incoming_vote :: "string \<Rightarrow> consensus_vote \<Rightarrow> u64 \<Rightarrow> ('c, unit) engine_call"
  ce_process_incoming_proposal :: "string \<Rightarrow> consensus_proposal \<Rightarrow> u64 \<Rightarrow> ('c, unit) engine_call"
  ce_handle_consensus_timeout :: "string \<Rightarrow> u32 \<Rightarrow> u64 \<Rightarrow> ('c, unit) engine_call"
  ce_get_active_proposals :: "'c \<Rightarrow> string \<Rightarrow> consensus_error + consensus_proposal list"
  ce_get_proposal :: "'c \<Rightarrow> string \<Rightarrow> u32 \<Rightarrow> consensus_error + consensus_proposal"
  ce_remove_session :: "string \<Rightarrow> u32 \<Rightarrow> ('c, unit) engine_call"
  ce_build_vote :: "'c \<Rightarrow> consensus_proposal \<Rightarrow> bool \<Rightarrow> u64 \<Rightarrow> consensus_error + consensus_vote"

text \<open>The parameters of every conversation-level definition.\<close>

record ('g, 'o, 'c, 's) environment =
  env_x :: externals
  env_om :: "('g, 'o) openmls"
  env_store :: "'s score_storage_ops"
  env_ce :: "'c consensus_engine"

section \<open>Events, outbound traffic, timing state\<close>

datatype error_message = Displayed conversation_error | MessageText string

datatype conversation_event =
    ConversationMessageEvent app_message member
  | Leaving
  | ErrorEvent string error_message
  | OwnProposalSubmitted u32 conversation_update_request
  | VoteRequested u32 conversation_update_request
  | CommitApplied "conversation_update_request list"
  | PhaseChange conversation_state
  | WelcomeReady member_welcome bool
  | ConsensusReachedEvent u32 bool u64
  | CommitRoundProgress nat nat
  | RecoveryModeOpenedEvent
  | RecoveryExhausted
  | ConversationSyncMissing
  | ConversationSyncApplied
  | MemberScoreChanged bytes i64 i64
  | MembersChanged "member list" "member_id list"

record outbound =
  ob_conversation_id :: string
  ob_sender :: bytes
  ob_payload :: bytes

record auto_vote_entry =
  av_fire_at :: timestamp
  av_vote :: bool

record timing =
  tm_phase_timer :: phase_timer
  tm_pending_auto_votes :: "(u32, auto_vote_entry) imap"
  tm_pending_consensus_timeouts :: "(u32, timestamp) imap"
  tm_last_commit_round_progress :: "(nat \<times> nat) option"
  tm_buffered_propose_anchor :: "timestamp option"
  tm_sync_resend_anchor :: "timestamp option"
  tm_sync_request_anchor :: "timestamp option"
  tm_reelection_silence_anchor :: "timestamp option"
  tm_reelection_recovered :: bool

definition timing_new :: timing where
  "timing_new =
     \<lparr>tm_phase_timer = phase_timer_new, tm_pending_auto_votes = [],
      tm_pending_consensus_timeouts = [], tm_last_commit_round_progress = None,
      tm_buffered_propose_anchor = None, tm_sync_resend_anchor = None,
      tm_sync_request_anchor = None, tm_reelection_silence_anchor = None,
      tm_reelection_recovered = False\<rparr>"

section \<open>The conversation\<close>

record ('g, 'o, 'c, 's) conversation =
  cn_id :: string
  cn_now :: timestamp
  cn_queues :: conversation_queues
  cn_mls :: "('g, 'o) mls_service"
  cn_scoring :: "'s peer_scoring_service"
  cn_stewards :: steward_list_service
  cn_consensus :: 'c
  cn_outcomes :: "(string \<times> consensus_event) list"
  cn_state :: conversation_state
  cn_config :: conversation_config
  cn_mode :: operating_mode
  cn_recovery_rounds :: u32
  cn_timing :: timing
  cn_self_member_id :: bytes
  cn_app_id :: bytes
  cn_events :: "conversation_event list"
  cn_outbound :: "outbound list"

definition conversation_new ::
  "string \<Rightarrow> conversation_queues \<Rightarrow> ('g, 'o) mls_service \<Rightarrow> 's peer_scoring_service \<Rightarrow>
   steward_list_service \<Rightarrow> 'c \<Rightarrow> conversation_state \<Rightarrow> conversation_config \<Rightarrow> timestamp \<Rightarrow> bytes \<Rightarrow>
   bytes \<Rightarrow> ('g, 'o, 'c, 's) conversation" where
  "conversation_new conversation_id queues mls scoring stewards consensus st config now
       self_member_id app_id =
     \<lparr>cn_id = conversation_id, cn_now = now, cn_queues = queues, cn_mls = mls,
      cn_scoring = scoring, cn_stewards = stewards, cn_consensus = consensus, cn_outcomes = [],
      cn_state = st, cn_config = config, cn_mode = NormalMode, cn_recovery_rounds = 0,
      cn_timing = timing_new, cn_self_member_id = self_member_id, cn_app_id = app_id,
      cn_events = [], cn_outbound = []\<rparr>"

text \<open>Access to one part of the record at a time.\<close>

definition on_queues ::
  "(conversation_queues \<Rightarrow> conversation_queues) \<Rightarrow> ('g, 'o, 'c, 's) conversation \<Rightarrow>
   ('g, 'o, 'c, 's) conversation" where
  "on_queues f c = c\<lparr>cn_queues := f (cn_queues c)\<rparr>"

definition on_timing ::
  "(timing \<Rightarrow> timing) \<Rightarrow> ('g, 'o, 'c, 's) conversation \<Rightarrow> ('g, 'o, 'c, 's) conversation" where
  "on_timing f c = c\<lparr>cn_timing := f (cn_timing c)\<rparr>"

definition on_stewards ::
  "(steward_list_service \<Rightarrow> (conversation_error + 'a) \<times> steward_list_service) \<Rightarrow>
   ('g, 'o, 'c, 's) conversation \<Rightarrow> (conversation_error + 'a) \<times> ('g, 'o, 'c, 's) conversation" where
  "on_stewards f c = (case f (cn_stewards c) of (r, svc) \<Rightarrow> (r, c\<lparr>cn_stewards := svc\<rparr>))"

definition on_service ::
  "(('g, 'o) mls_service \<Rightarrow> (mls_error + 'a) \<times> ('g, 'o) mls_service) \<Rightarrow>
   ('g, 'o, 'c, 's) conversation \<Rightarrow> (conversation_error + 'a) \<times> ('g, 'o, 'c, 's) conversation" where
  "on_service f c =
     (case f (cn_mls c) of
        (Inl e, mls) \<Rightarrow> (Inl (Mls e), c\<lparr>cn_mls := mls\<rparr>)
      | (Inr v, mls) \<Rightarrow> (Inr v, c\<lparr>cn_mls := mls\<rparr>))"

definition on_scoring ::
  "('s peer_scoring_service \<Rightarrow> (conversation_error + 'a) \<times> 's peer_scoring_service) \<Rightarrow>
   ('g, 'o, 'c, 's) conversation \<Rightarrow> (conversation_error + 'a) \<times> ('g, 'o, 'c, 's) conversation" where
  "on_scoring f c = (case f (cn_scoring c) of (r, svc) \<Rightarrow> (r, c\<lparr>cn_scoring := svc\<rparr>))"

definition on_round ::
  "(('g, 'o) round_state \<Rightarrow> (conversation_error + 'a) \<times> ('g, 'o) round_state) \<Rightarrow>
   ('g, 'o, 'c, 's) conversation \<Rightarrow> (conversation_error + 'a) \<times> ('g, 'o, 'c, 's) conversation" where
  "on_round f c =
     (case f (cn_queues c, cn_mls c) of (r, q, mls) \<Rightarrow> (r, c\<lparr>cn_queues := q, cn_mls := mls\<rparr>))"

text \<open>
  The outcome bus: the service publishes at the back of the queue, the conversation takes from
  its front.
\<close>

definition outcome_publish ::
  "(string \<times> consensus_event) list \<Rightarrow> ('g, 'o, 'c, 's) conversation \<Rightarrow> ('g, 'o, 'c, 's) conversation" where
  "outcome_publish events c = c\<lparr>cn_outcomes := cn_outcomes c @ events\<rparr>"

definition outcome_try_recv ::
  "('g, 'o, 'c, 's) conversation \<Rightarrow>
   (string \<times> consensus_event) option \<times> ('g, 'o, 'c, 's) conversation" where
  "outcome_try_recv c =
     (case cn_outcomes c of
        [] \<Rightarrow> (None, c)
      | e # es \<Rightarrow> (Some e, c\<lparr>cn_outcomes := es\<rparr>))"

definition on_engine ::
  "('c, 'a) engine_call \<Rightarrow> ('g, 'o, 'c, 's) conversation \<Rightarrow>
   (conversation_error + 'a) \<times> ('g, 'o, 'c, 's) conversation" where
  "on_engine f c =
     (case f (cn_consensus c) of
        (r, events, ce) \<Rightarrow>
          ((case r of Inl e \<Rightarrow> Inl (Consensus e) | Inr v \<Rightarrow> Inr v),
           outcome_publish events (c\<lparr>cn_consensus := ce\<rparr>)))"

section \<open>Modes, events, outbound\<close>

definition is_in_recovery_mode :: "('g, 'o, 'c, 's) conversation \<Rightarrow> bool" where
  "is_in_recovery_mode c \<longleftrightarrow> cn_mode c = RecoveryMode"

definition enter_recovery_mode :: "('g, 'o, 'c, 's) conversation \<Rightarrow> ('g, 'o, 'c, 's) conversation" where
  "enter_recovery_mode c = c\<lparr>cn_mode := RecoveryMode, cn_recovery_rounds := 0\<rparr>"

definition exit_recovery_mode :: "('g, 'o, 'c, 's) conversation \<Rightarrow> ('g, 'o, 'c, 's) conversation" where
  "exit_recovery_mode c = c\<lparr>cn_mode := NormalMode\<rparr>"

definition emit_event ::
  "conversation_event \<Rightarrow> ('g, 'o, 'c, 's) conversation \<Rightarrow> ('g, 'o, 'c, 's) conversation" where
  "emit_event e c = c\<lparr>cn_events := cn_events c @ [e]\<rparr>"

definition drain_events ::
  "('g, 'o, 'c, 's) conversation \<Rightarrow> conversation_event list \<times> ('g, 'o, 'c, 's) conversation" where
  "drain_events c = (cn_events c, c\<lparr>cn_events := []\<rparr>)"

definition broadcast ::
  "bytes \<Rightarrow> ('g, 'o, 'c, 's) conversation \<Rightarrow> ('g, 'o, 'c, 's) conversation" where
  "broadcast payload c =
     c\<lparr>cn_outbound := cn_outbound c @
         [\<lparr>ob_conversation_id = cn_id c, ob_sender = cn_app_id c, ob_payload = payload\<rparr>]\<rparr>"

definition drain_outbound ::
  "('g, 'o, 'c, 's) conversation \<Rightarrow> outbound list \<times> ('g, 'o, 'c, 's) conversation" where
  "drain_outbound c = (cn_outbound c, c\<lparr>cn_outbound := []\<rparr>)"

definition emit_score_changes ::
  "score_change list \<Rightarrow> ('g, 'o, 'c, 's) conversation \<Rightarrow> ('g, 'o, 'c, 's) conversation" where
  "emit_score_changes changes =
     fold (\<lambda>ch. emit_event (MemberScoreChanged (sc_member_id ch) (sc_previous ch) (sc_score ch))) changes"

definition apply_score_ops ::
  "('g, 'o, 'c, 's) environment \<Rightarrow> score_op list \<Rightarrow> ('g, 'o, 'c, 's) conversation \<Rightarrow>
   (conversation_error + unit) \<times> ('g, 'o, 'c, 's) conversation" where
  "apply_score_ops E ops c =
     try_then (on_scoring (apply_ops (env_store E) ops) c)
       (\<lambda>changes c'. (Inr (), emit_score_changes changes c'))"

definition apply_score_snapshot ::
  "('g, 'o, 'c, 's) environment \<Rightarrow> score_snapshot \<Rightarrow> ('g, 'o, 'c, 's) conversation \<Rightarrow>
   (conversation_error + unit) \<times> ('g, 'o, 'c, 's) conversation" where
  "apply_score_snapshot E snapshot c =
     try_then (on_scoring (apply_snapshot (env_store E) snapshot) c)
       (\<lambda>changes c'. (Inr (), emit_score_changes changes c'))"

section \<open>Queries\<close>

definition conv_epoch ::
  "('g, 'o, 'c, 's) environment \<Rightarrow> ('g, 'o, 'c, 's) conversation \<Rightarrow> u64" where
  "conv_epoch E c = mls_epoch (env_om E) (cn_mls c)"

definition conv_members ::
  "('g, 'o, 'c, 's) environment \<Rightarrow> ('g, 'o, 'c, 's) conversation \<Rightarrow> bytes list" where
  "conv_members E c = mls_members (env_om E) (cn_mls c)"

definition commit_candidate_count :: "('g, 'o, 'c, 's) conversation \<Rightarrow> nat \<times> nat" where
  "commit_candidate_count c =
     (candidate_count (q_commit_round (cn_queues c)),
      case svc_list (cn_stewards c) of Some l \<Rightarrow> length (sl_members l) | None \<Rightarrow> 0)"

definition is_steward :: "('g, 'o, 'c, 's) conversation \<Rightarrow> bool" where
  "is_steward c = svc_is_steward (cn_stewards c) (cn_self_member_id c)"

definition is_epoch_steward ::
  "('g, 'o, 'c, 's) environment \<Rightarrow> ('g, 'o, 'c, 's) conversation \<Rightarrow> bool" where
  "is_epoch_steward E c =
     (fst (svc_epoch_and_backup (cn_stewards c) (conv_epoch E c)
        (steward_eligibility (cn_queues c) (conv_members E c))) = Some (cn_self_member_id c))"

definition epoch_and_retry ::
  "('g, 'o, 'c, 's) environment \<Rightarrow> ('g, 'o, 'c, 's) conversation \<Rightarrow> u64 \<times> u32" where
  "epoch_and_retry E c = (conv_epoch E c, svc_next_election_round (cn_stewards c))"

definition pending_update_count :: "('g, 'o, 'c, 's) conversation \<Rightarrow> nat" where
  "pending_update_count c = length (q_pending_updates (cn_queues c))"

definition score_threshold :: "('g, 'o, 'c, 's) conversation \<Rightarrow> i64" where
  "score_threshold c = sco_threshold (pss_config (cn_scoring c))"

definition score_default :: "('g, 'o, 'c, 's) conversation \<Rightarrow> i64" where
  "score_default c = sco_default_score (pss_config (cn_scoring c))"

text \<open>The source panics where \<open>own_id\<close> is \<open>None\<close>: the group no longer has the local member.\<close>

definition own_id ::
  "('g, 'o, 'c, 's) environment \<Rightarrow> ('g, 'o, 'c, 's) conversation \<Rightarrow> member_id option" where
  "own_id E c = member_id_at (env_om E) (cn_mls c) (cn_self_member_id c)"

definition member_score ::
  "('g, 'o, 'c, 's) environment \<Rightarrow> ('g, 'o, 'c, 's) conversation \<Rightarrow> member_id \<Rightarrow>
   conversation_error + i64 option" where
  "member_score E c member =
     (case leaf_of (env_om E) (cn_mls c) member of
        None \<Rightarrow> Inl MemberGone
      | Some leaf \<Rightarrow> score_for (env_store E) (cn_scoring c) (member_id_of leaf))"

definition member_scores ::
  "('g, 'o, 'c, 's) environment \<Rightarrow> ('g, 'o, 'c, 's) conversation \<Rightarrow>
   conversation_error + (member_id \<times> i64) list" where
  "member_scores E c =
     result_then (all_members_with_scores (env_store E) (cn_scoring c)) (\<lambda>scores.
       Inr (List.map_filter (\<lambda>(id, score).
         map_option (\<lambda>h. (h, score)) (member_id_at (env_om E) (cn_mls c) id)) scores))"

definition pending_leave ::
  "('g, 'o, 'c, 's) environment \<Rightarrow> ('g, 'o, 'c, 's) conversation \<Rightarrow> member_id list" where
  "pending_leave E c =
     List.map_filter (member_id_at (env_om E) (cn_mls c))
       (filter (is_pending_self_leave (env_x E) (cn_queues c)) (conv_members E c))"

datatype member_role = EpochStewardRole | BackupStewardRole | StewardRole | MemberRole

definition member_role_of ::
  "('g, 'o, 'c, 's) environment \<Rightarrow> ('g, 'o, 'c, 's) conversation \<Rightarrow> bytes \<Rightarrow> member_role" where
  "member_role_of E c m =
     (let epoch = conv_epoch E c;
          (live_epoch, live_backup) = svc_epoch_and_backup (cn_stewards c) epoch
             (steward_eligibility (cn_queues c) (conv_members E c));
          has_list = (svc_list (cn_stewards c) \<noteq> None)
      in if has_list \<and> \<not> svc_is_exhausted (cn_stewards c) epoch then
           (if live_epoch = Some m then EpochStewardRole
            else if live_backup = Some m then BackupStewardRole
            else if svc_is_steward (cn_stewards c) m then StewardRole
            else MemberRole)
         else if has_list \<and> svc_is_steward (cn_stewards c) m then StewardRole
         else MemberRole)"

definition member_roles ::
  "('g, 'o, 'c, 's) environment \<Rightarrow> ('g, 'o, 'c, 's) conversation \<Rightarrow> (member_id \<times> member_role) list" where
  "member_roles E c =
     List.map_filter (\<lambda>m. map_option (\<lambda>h. (h, member_role_of E c m))
                             (member_id_at (env_om E) (cn_mls c) m))
       (conv_members E c)"

definition approved_proposals_for_current_epoch ::
  "('g, 'o, 'c, 's) conversation \<Rightarrow> conversation_update_request list" where
  "approved_proposals_for_current_epoch c = imap_values (q_approved_proposals (cn_queues c))"

end
