(* ===== verification/Handle.thy ===== *)
theory Handle
  imports Conversation
begin

text \<open>
  The operations of \<^verbatim>\<open>src/conversation/handle.rs\<close>: deadlines, the state-machine coordinators
  with the phase timer, the construction of our own commit candidate, and the wake-up the
  integrator schedules.
\<close>

section \<open>Deadlines\<close>

definition register_auto_vote ::
  "u32 \<Rightarrow> duration \<Rightarrow> bool \<Rightarrow> ('g, 'o, 'c, 's) conversation \<Rightarrow> ('g, 'o, 'c, 's) conversation" where
  "register_auto_vote proposal_id delay vote c =
     on_timing (\<lambda>t. t\<lparr>tm_pending_auto_votes :=
       imap_insert proposal_id \<lparr>av_fire_at = timestamp_add (cn_now c) delay, av_vote = vote\<rparr>
         (tm_pending_auto_votes t)\<rparr>) c"

definition cancel_auto_vote ::
  "u32 \<Rightarrow> ('g, 'o, 'c, 's) conversation \<Rightarrow> ('g, 'o, 'c, 's) conversation" where
  "cancel_auto_vote proposal_id =
     on_timing (\<lambda>t. t\<lparr>tm_pending_auto_votes := imap_remove proposal_id (tm_pending_auto_votes t)\<rparr>)"

definition cancel_all_auto_votes :: "('g, 'o, 'c, 's) conversation \<Rightarrow> ('g, 'o, 'c, 's) conversation" where
  "cancel_all_auto_votes = on_timing (\<lambda>t. t\<lparr>tm_pending_auto_votes := []\<rparr>)"

definition register_consensus_timeout ::
  "u32 \<Rightarrow> duration \<Rightarrow> ('g, 'o, 'c, 's) conversation \<Rightarrow> ('g, 'o, 'c, 's) conversation" where
  "register_consensus_timeout proposal_id delay c =
     on_timing (\<lambda>t. t\<lparr>tm_pending_consensus_timeouts :=
       imap_insert proposal_id (timestamp_add (cn_now c) delay) (tm_pending_consensus_timeouts t)\<rparr>) c"

definition unregister_consensus_timeout ::
  "u32 \<Rightarrow> ('g, 'o, 'c, 's) conversation \<Rightarrow> ('g, 'o, 'c, 's) conversation" where
  "unregister_consensus_timeout proposal_id =
     on_timing (\<lambda>t. t\<lparr>tm_pending_consensus_timeouts :=
       imap_remove proposal_id (tm_pending_consensus_timeouts t)\<rparr>)"

section \<open>State machine and phase timer\<close>

definition on_phase_timer ::
  "(phase_timer \<Rightarrow> phase_timer) \<Rightarrow> ('g, 'o, 'c, 's) conversation \<Rightarrow> ('g, 'o, 'c, 's) conversation" where
  "on_phase_timer f = on_timing (\<lambda>t. t\<lparr>tm_phase_timer := f (tm_phase_timer t)\<rparr>)"

definition start_working ::
  "('g, 'o, 'c, 's) conversation \<Rightarrow> conversation_state \<times> ('g, 'o, 'c, 's) conversation" where
  "start_working c =
     (Working, on_phase_timer phase_timer_clear (c\<lparr>cn_state := sm_start_working (cn_state c)\<rparr>))"

definition start_freezing ::
  "('g, 'o, 'c, 's) conversation \<Rightarrow> conversation_state option \<times> ('g, 'o, 'c, 's) conversation" where
  "start_freezing c =
     (case sm_start_freezing (cn_state c) of
        (True, s) \<Rightarrow>
          (Some Freezing, on_phase_timer (phase_timer_start (cn_now c)) (c\<lparr>cn_state := s\<rparr>))
      | (False, s) \<Rightarrow> (None, c\<lparr>cn_state := s\<rparr>))"

definition start_selection ::
  "('g, 'o, 'c, 's) conversation \<Rightarrow> conversation_state \<times> ('g, 'o, 'c, 's) conversation" where
  "start_selection c = (Selection, c\<lparr>cn_state := sm_start_selection (cn_state c)\<rparr>)"

definition start_reelection ::
  "('g, 'o, 'c, 's) conversation \<Rightarrow> conversation_state \<times> ('g, 'o, 'c, 's) conversation" where
  "start_reelection c =
     (Reelection, on_phase_timer phase_timer_clear (c\<lparr>cn_state := sm_start_reelection (cn_state c)\<rparr>))"

definition reopen_recovery_window ::
  "('g, 'o, 'c, 's) conversation \<Rightarrow> conversation_state option \<times> ('g, 'o, 'c, 's) conversation" where
  "reopen_recovery_window c =
     (case sm_reopen_freezing (cn_state c) of
        (True, s) \<Rightarrow>
          (Some Freezing, on_phase_timer (phase_timer_start (cn_now c)) (c\<lparr>cn_state := s\<rparr>))
      | (False, s) \<Rightarrow> (None, c\<lparr>cn_state := s\<rparr>))"

definition is_freeze_window_elapsed :: "('g, 'o, 'c, 's) conversation \<Rightarrow> bool" where
  "is_freeze_window_elapsed c \<longleftrightarrow>
     cn_state c = Freezing \<and>
     elapsed_since_anchor (tm_phase_timer (cn_timing c)) (cn_now c) (cfg_freeze_duration (cn_config c))"

definition check_steward_inactivity ::
  "nat \<Rightarrow> duration \<Rightarrow> ('g, 'o, 'c, 's) conversation \<Rightarrow>
   conversation_state option \<times> ('g, 'o, 'c, 's) conversation" where
  "check_steward_inactivity approved inactivity_duration c =
     (if cn_state c \<noteq> Working \<or> approved = 0 then (None, c)
      else if pt_started_at (tm_phase_timer (cn_timing c)) = None
      then (None, on_phase_timer (phase_timer_start (cn_now c)) c)
      else if \<not> elapsed_since_anchor (tm_phase_timer (cn_timing c)) (cn_now c) inactivity_duration
      then (None, c)
      else start_freezing c)"

section \<open>Wake-up\<close>

definition phase_deadline :: "('g, 'o, 'c, 's) conversation \<Rightarrow> timestamp option" where
  "phase_deadline c =
     (case pt_started_at (tm_phase_timer (cn_timing c)) of
        None \<Rightarrow> None
      | Some anchor \<Rightarrow>
          (case cn_state c of
             Freezing \<Rightarrow> Some (timestamp_add anchor (cfg_freeze_duration (cn_config c)))
           | Working \<Rightarrow>
               if approved_proposals_count (cn_queues c) = 0 then None
               else Some (timestamp_add anchor
                      (if is_in_recovery_mode c then cfg_retry_window (cn_config c)
                       else cfg_commit_batch_window (cn_config c)))
           | _ \<Rightarrow> None))"

definition sync_request_deadline :: "('g, 'o, 'c, 's) conversation \<Rightarrow> timestamp option" where
  "sync_request_deadline c =
     map_option (\<lambda>anchor. timestamp_add anchor (cfg_backup_takeover_window (cn_config c)))
       (tm_sync_request_anchor (cn_timing c))"

definition pending_deadlines :: "('g, 'o, 'c, 's) conversation \<Rightarrow> timestamp list" where
  "pending_deadlines c =
     imap_values (tm_pending_consensus_timeouts (cn_timing c)) @
     map av_fire_at (imap_values (tm_pending_auto_votes (cn_timing c))) @
     (case phase_deadline c of Some d \<Rightarrow> [d] | None \<Rightarrow> []) @
     (case sync_request_deadline c of Some d \<Rightarrow> [d] | None \<Rightarrow> [])"

definition next_wakeup_in :: "('g, 'o, 'c, 's) conversation \<Rightarrow> duration option" where
  "next_wakeup_in c =
     (if pending_deadlines c = [] then None
      else Some (saturating_duration_since (min_list (pending_deadlines c)) (cn_now c)))"

section \<open>Our own commit candidate\<close>

text \<open>
  The loop over the approved proposals: \<open>keys\<close> are the signature keys in the group, \<open>members\<close>
  its member ids. The result is the MLS updates with the joiners they admit.
\<close>

fun collect_updates ::
  "externals \<Rightarrow> bytes list \<Rightarrow> bytes list \<Rightarrow> bytes option \<Rightarrow> conversation_update_request list \<Rightarrow>
   mls_commit_input list \<Rightarrow> bytes list \<Rightarrow>
   conversation_error + (mls_commit_input list \<times> bytes list)" where
  "collect_updates x keys members urgent [] updates joiners = Inr (updates, joiners)"
| "collect_updates x keys members urgent (request # rest) updates joiners =
     (case request of
        Some (MemberInvite kp) \<Rightarrow>
          if urgent \<noteq> None then collect_updates x keys members urgent rest updates joiners
          else
            (case signature_key_of_key_package x kp of
               Inl e \<Rightarrow> Inl (Mls e)
             | Inr joiner_key \<Rightarrow>
                 if joiner_key \<in> set keys
                 then collect_updates x keys members urgent rest updates joiners
                 else collect_updates x keys members urgent rest (updates @ [AddInput kp])
                        (joiners @ [joiner_key]))
      | Some (RemoveMember m) \<Rightarrow>
          if (case urgent of Some target \<Rightarrow> m \<noteq> target | None \<Rightarrow> False)
          then collect_updates x keys members urgent rest updates joiners
          else if m \<notin> set members then collect_updates x keys members urgent rest updates joiners
          else collect_updates x keys members urgent rest (updates @ [RemoveInput m]) joiners
      | _ \<Rightarrow> Inl InvalidConversationUpdateRequest)"

definition build_local_candidate ::
  "('g, 'o, 'c, 's) environment \<Rightarrow> bytes \<Rightarrow> ('g, 'o, 'c, 's) conversation \<Rightarrow>
   (conversation_error + bytes option) \<times> ('g, 'o, 'c, 's) conversation" where
  "build_local_candidate E self_member_id c =
     (let q = cn_queues c;
          approved = q_approved_proposals q;
          non_mls_ids = map fst (filter (\<lambda>(_, r). is_governance (proposal_kind_of r)) approved);
          keys = map mbr_signature_key (om_members (env_om E) (ms_group (cn_mls c)))
      in if \<not> svc_is_steward (cn_stewards c) self_member_id \<and> \<not> is_in_recovery_mode c
         then (Inl NotASteward, c)
         else if approved = [] then (Inl NoProposals, c)
         else if has_approved_removal q self_member_id then (Inr None, c)
         else if non_mls_ids \<noteq> [] then (Inl (UnexpectedNonMlsProposals non_mls_ids), c)
         else
           case collect_updates (env_x E) keys (conv_members E c) (q_urgent_commit_target q)
                  (map snd (take (cfg_commit_batch_max (cn_config c)) approved)) [] [] of
             Inl e \<Rightarrow> (Inl e, c)
           | Inr (updates, joiners) \<Rightarrow>
               if updates = [] then (Inr None, c)
               else
                 try_then (on_service (create_commit_candidate (env_x E) (env_om E) updates) c)
                   (\<lambda>artifacts c1.
                     let candidate =
                           \<lparr>cc_conversation_id = string_bytes (q_conversation_id (cn_queues c1)),
                            cc_mls_proposals = ca_proposals artifacts,
                            cc_commit_message = ca_commit artifacts,
                            cc_steward_member_id = self_member_id\<rparr>;
                         buf = snd (buffer_add (env_x E) candidate True (ca_welcome artifacts) joiners
                                 (conv_epoch E c1) (length (conv_members E c1))
                                 (q_commit_round (cn_queues c1)))
                     in (Inr (Some (x_encode_app (env_x E) (Some (CommitCandidatePayload candidate)))),
                         on_queues (\<lambda>q'. q'\<lparr>q_commit_round := buf\<rparr>) c1)))"

definition mint_and_broadcast_candidate ::
  "('g, 'o, 'c, 's) environment \<Rightarrow> ('g, 'o, 'c, 's) conversation \<Rightarrow>
   (conversation_error + bool) \<times> ('g, 'o, 'c, 's) conversation" where
  "mint_and_broadcast_candidate E c =
     try_then (build_local_candidate E (cn_self_member_id c) c) (\<lambda>payload c'.
       case payload of
         Some p \<Rightarrow> (Inr True, broadcast p c')
       | None \<Rightarrow> (Inr False, c'))"

definition on_freeze_entered ::
  "('g, 'o, 'c, 's) environment \<Rightarrow> conversation_state \<Rightarrow> ('g, 'o, 'c, 's) conversation \<Rightarrow>
   (conversation_error + unit) \<times> ('g, 'o, 'c, 's) conversation" where
  "on_freeze_entered E event c =
     (let c1 = (if svc_is_steward (cn_stewards c) (cn_self_member_id c)
                then (case mint_and_broadcast_candidate E c of
                        (Inl e, c') \<Rightarrow> emit_event (ErrorEvent ''commit_candidate_build'' (Displayed e)) c'
                      | (Inr _, c') \<Rightarrow> c')
                else c)
      in (Inr (), emit_event (PhaseChange event) c1))"

definition commit_in_recovery ::
  "('g, 'o, 'c, 's) environment \<Rightarrow> ('g, 'o, 'c, 's) conversation \<Rightarrow>
   (conversation_error + bool) \<times> ('g, 'o, 'c, 's) conversation" where
  "commit_in_recovery E c =
     (if \<not> is_in_recovery_mode c then (Inl NotInRecovery, c) else mint_and_broadcast_candidate E c)"

definition resend_commit ::
  "('g, 'o, 'c, 's) environment \<Rightarrow> ('g, 'o, 'c, 's) conversation \<Rightarrow>
   bool \<times> ('g, 'o, 'c, 's) conversation" where
  "resend_commit E c =
     (case local_candidate_bytes (env_x E) (q_commit_round (cn_queues c)) of
        Some payload \<Rightarrow> (True, broadcast payload c)
      | None \<Rightarrow> (False, c))"

definition conv_finalize_commit_round ::
  "('g, 'o, 'c, 's) environment \<Rightarrow> bool \<Rightarrow> bytes \<Rightarrow> ('g, 'o, 'c, 's) conversation \<Rightarrow>
   (conversation_error + commit_round_result) \<times> ('g, 'o, 'c, 's) conversation" where
  "conv_finalize_commit_round E allow_subset_candidates self_member_id c =
     on_round (finalize_commit_round (env_x E) (env_om E) (cn_stewards c) (is_in_recovery_mode c)
                 allow_subset_candidates self_member_id) c"

definition conv_replay_early_candidates ::
  "('g, 'o, 'c, 's) environment \<Rightarrow> ('g, 'o, 'c, 's) conversation \<Rightarrow>
   (conversation_error + unit) \<times> ('g, 'o, 'c, 's) conversation" where
  "conv_replay_early_candidates E c =
     (case replay_early_candidates (env_x E) (env_om E) (cn_mls c) (cn_queues c) of
        (r, q) \<Rightarrow> (r, c\<lparr>cn_queues := q\<rparr>))"

end
