(* ===== verification/Voting.thy ===== *)
theory Voting
  imports Handle
begin

text \<open>
  Opening proposals and casting votes, \<^verbatim>\<open>src/consensus/voting.rs\<close>. The polling step
  \<^verbatim>\<open>tick_deadlines\<close> of the same file is in the theory of the polling cycle.
\<close>

datatype creator_vote = CreatorYes | CreatorDeferred

record proposal_params =
  pp_expected_voters :: u32
  pp_proposal_expiration :: duration
  pp_consensus_timeout :: duration
  pp_liveness_criteria_yes :: bool

section \<open>Gates\<close>

definition check_proposal_allowed ::
  "('g, 'o, 'c, 's) environment \<Rightarrow> ('g, 'o, 'c, 's) conversation \<Rightarrow> proposal_kind \<Rightarrow>
   conversation_error + u32" where
  "check_proposal_allowed E c kind =
     (let state = cn_state c;
          blocked = partial_freeze_blocks (cn_queues c) kind;
          expected = Inr (word_of_nat (length (conv_members E c)))
      in case state of
           Reelection \<Rightarrow>
             if \<not> is_emergency kind \<and> \<not> is_steward_election kind
             then Inl (ConversationBlocked (state_name state))
             else if blocked then Inl PartialFreeze
             else expected
         | Freezing \<Rightarrow> Inl (ConversationBlocked (state_name state))
         | Selection \<Rightarrow> Inl (ConversationBlocked (state_name state))
         | Working \<Rightarrow> if blocked then Inl PartialFreeze else expected)"

section \<open>Building and sending\<close>

definition send_app_message ::
  "('g, 'o, 'c, 's) environment \<Rightarrow> app_message \<Rightarrow> ('g, 'o, 'c, 's) conversation \<Rightarrow>
   (conversation_error + unit) \<times> ('g, 'o, 'c, 's) conversation" where
  "send_app_message E msg c =
     try_then (on_service (build_message (env_x E) (env_om E) msg) c)
       (\<lambda>payload c'. (Inr (), broadcast payload c'))"

definition now_secs :: "('g, 'o, 'c, 's) conversation \<Rightarrow> u64" where
  "now_secs c = duration_as_secs (cn_now c)"

definition submit_proposal ::
  "('g, 'o, 'c, 's) environment \<Rightarrow> conversation_update_request \<Rightarrow> proposal_params \<Rightarrow>
   ('g, 'o, 'c, 's) conversation \<Rightarrow>
   (conversation_error + u32 \<times> app_message) \<times> ('g, 'o, 'c, 's) conversation" where
  "submit_proposal E request params c =
     try_then (on_engine (ce_create_proposal (env_ce E) (cn_id c) (x_encode_request (env_x E) request)
                 (cn_self_member_id c) (pp_expected_voters params)
                 (duration_as_secs (pp_proposal_expiration params)) (pp_liveness_criteria_yes params)
                 (pp_consensus_timeout params) (now_secs c)) c)
       (\<lambda>proposal c'. (Inr (cp_proposal_id proposal, Some (ProposalPayload proposal)), c'))"

definition initiate_proposal ::
  "('g, 'o, 'c, 's) environment \<Rightarrow> conversation_update_request \<Rightarrow> creator_vote \<Rightarrow>
   ('g, 'o, 'c, 's) conversation \<Rightarrow> (conversation_error + unit) \<times> ('g, 'o, 'c, 's) conversation" where
  "initiate_proposal E request creator_vote c =
     (if (case in_flight_target (env_x E) request of
            Some target \<Rightarrow> target \<in> active_proposal_targets (env_x E) (cn_queues c)
          | None \<Rightarrow> False)
      then (Inr (), c)
      else
        let kind = proposal_kind_of request in
        case check_proposal_allowed E c kind of
          Inl e \<Rightarrow> (Inl e, c)
        | Inr expected_voters \<Rightarrow>
            let cfg = cn_config c in
            try_then (submit_proposal E request
                \<lparr>pp_expected_voters = expected_voters,
                 pp_proposal_expiration = cfg_proposal_expiration cfg,
                 pp_consensus_timeout = cfg_consensus_timeout cfg,
                 pp_liveness_criteria_yes = cfg_liveness_criteria_yes cfg\<rparr> c)
              (\<lambda>(proposal_id, unbundled) c1.
                let c2 = on_queues (track_voting_proposal (env_x E) proposal_id request) c1;
                    c3 = (if is_emergency kind then on_queues (insert_emergency proposal_id) c2 else c2);
                    c4 = register_consensus_timeout proposal_id (cfg_consensus_timeout cfg) c3
                in case creator_vote of
                     CreatorYes \<Rightarrow>
                       try_then (on_engine (ce_cast_vote_and_get_proposal (env_ce E) (cn_id c4)
                                   proposal_id True (now_secs c4)) c4) (\<lambda>proposal c5.
                       try_then (send_app_message E (Some (ProposalPayload proposal)) c5) (\<lambda>_ c6.
                         (Inr (), emit_event (OwnProposalSubmitted proposal_id request) c6)))
                   | CreatorDeferred \<Rightarrow>
                       try_then (send_app_message E unbundled c4) (\<lambda>_ c5.
                         (Inr (), register_auto_vote proposal_id (cfg_voting_delay cfg)
                                    (cfg_liveness_criteria_yes cfg)
                                    (emit_event (VoteRequested proposal_id request) c5)))))"

definition broadcast_vote ::
  "('g, 'o, 'c, 's) environment \<Rightarrow> u32 \<Rightarrow> bool \<Rightarrow> ('g, 'o, 'c, 's) conversation \<Rightarrow>
   (conversation_error + unit) \<times> ('g, 'o, 'c, 's) conversation" where
  "broadcast_vote E proposal_id vote c =
     try_then (on_engine (ce_cast_vote (env_ce E) (cn_id c) proposal_id vote (now_secs c)) c)
       (\<lambda>vote_msg c'. send_app_message E (Some (VoteMessage vote_msg)) c')"

definition cast_manual_vote ::
  "('g, 'o, 'c, 's) environment \<Rightarrow> u32 \<Rightarrow> bool \<Rightarrow> ('g, 'o, 'c, 's) conversation \<Rightarrow>
   (conversation_error + unit) \<times> ('g, 'o, 'c, 's) conversation" where
  "cast_manual_vote E proposal_id vote c =
     (if cn_state c = Freezing \<or> cn_state c = Selection
      then (Inl (ConversationBlocked (state_name (cn_state c))), c)
      else broadcast_vote E proposal_id vote (cancel_auto_vote proposal_id c))"

section \<open>Leaving\<close>

definition self_leave_proposal ::
  "('g, 'o, 'c, 's) environment \<Rightarrow> ('g, 'o, 'c, 's) conversation \<Rightarrow> proposal_params \<Rightarrow> consensus_proposal" where
  "self_leave_proposal E c params =
     (let proposal_id = self_leave_proposal_id (env_x E) (cn_self_member_id c);
          now = now_secs c
      in \<lparr>cp_name = ''self-leave:'' @ show_nat (unat proposal_id),
          cp_payload = x_encode_request (env_x E) (remove_member_request (cn_self_member_id c)),
          cp_proposal_id = proposal_id, cp_proposal_owner = cn_self_member_id c, cp_votes = [],
          cp_expected_voters_count = pp_expected_voters params, cp_round = 1, cp_timestamp = now,
          cp_expiration_timestamp =
            saturating_add_u64 now (duration_as_secs (pp_proposal_expiration params)),
          cp_liveness_criteria_yes = pp_liveness_criteria_yes params\<rparr>)"

definition submit_self_leave_proposal ::
  "('g, 'o, 'c, 's) environment \<Rightarrow> proposal_params \<Rightarrow> ('g, 'o, 'c, 's) conversation \<Rightarrow>
   (conversation_error + (u32 \<times> app_message) option) \<times> ('g, 'o, 'c, 's) conversation" where
  "submit_self_leave_proposal E params c =
     (let proposal = self_leave_proposal E c params;
          now = now_secs c
      in case ce_build_vote (env_ce E) (cn_consensus c) proposal True now of
           Inl e \<Rightarrow> (Inl (Consensus e), c)
         | Inr yes_vote \<Rightarrow>
             let signed = proposal\<lparr>cp_votes := cp_votes proposal @ [yes_vote]\<rparr> in
             (case on_engine (ce_process_incoming_proposal (env_ce E) (cn_id c) signed now) c of
                (Inr _, c') \<Rightarrow>
                  (Inr (Some (cp_proposal_id signed, Some (ProposalPayload signed))), c')
              | (Inl (Consensus ProposalAlreadyExist), c') \<Rightarrow> (Inr None, c')
              | (Inl e, c') \<Rightarrow> (Inl e, c')))"

definition initiate_self_leave ::
  "('g, 'o, 'c, 's) environment \<Rightarrow> ('g, 'o, 'c, 's) conversation \<Rightarrow>
   (conversation_error + unit) \<times> ('g, 'o, 'c, 's) conversation" where
  "initiate_self_leave E c =
     (if is_pending_self_leave (env_x E) (cn_queues c) (cn_self_member_id c) then (Inr (), c)
      else
        let request = remove_member_request (cn_self_member_id c);
            proposal_id = self_leave_proposal_id (env_x E) (cn_self_member_id c);
            c1 = on_queues (track_voting_proposal (env_x E) proposal_id request) c
        in try_then (submit_self_leave_proposal E
               \<lparr>pp_expected_voters = 1,
                pp_proposal_expiration = cfg_proposal_expiration (cn_config c),
                pp_consensus_timeout = cfg_consensus_timeout (cn_config c),
                pp_liveness_criteria_yes = True\<rparr> c1)
             (\<lambda>submitted c2.
               case submitted of
                 None \<Rightarrow> (Inr (), c2)
               | Some (_, app_msg) \<Rightarrow> send_app_message E app_msg c2))"

datatype leave_outcome = LeaveInitiated

definition leave ::
  "('g, 'o, 'c, 's) environment \<Rightarrow> ('g, 'o, 'c, 's) conversation \<Rightarrow>
   (conversation_error + leave_outcome) \<times> ('g, 'o, 'c, 's) conversation" where
  "leave E c = try_then (initiate_self_leave E c) (\<lambda>_ c'. (Inr LeaveInitiated, c'))"

section \<open>Peers' votes and timeouts\<close>

definition forward_incoming_vote ::
  "('g, 'o, 'c, 's) environment \<Rightarrow> consensus_vote \<Rightarrow> ('g, 'o, 'c, 's) conversation \<Rightarrow>
   (conversation_error + unit) \<times> ('g, 'o, 'c, 's) conversation" where
  "forward_incoming_vote E vote c =
     (case on_engine (ce_process_incoming_vote (env_ce E) (cn_id c) vote (now_secs c)) c of
        (Inl (Consensus SessionNotActive), c') \<Rightarrow> (Inr (), c')
      | (Inl (Consensus SessionNotFound), c') \<Rightarrow> (Inr (), c')
      | r \<Rightarrow> r)"

definition resolve_on_timeout ::
  "('g, 'o, 'c, 's) environment \<Rightarrow> u32 \<Rightarrow> ('g, 'o, 'c, 's) conversation \<Rightarrow>
   ('g, 'o, 'c, 's) conversation" where
  "resolve_on_timeout E proposal_id c =
     (let still_active =
            (case ce_get_active_proposals (env_ce E) (cn_consensus c) (cn_id c) of
               Inr active \<Rightarrow> list_ex (\<lambda>p. cp_proposal_id p = proposal_id) active
             | Inl _ \<Rightarrow> False)
      in if \<not> still_active then c
         else snd (on_engine (ce_handle_consensus_timeout (env_ce E) (cn_id c) proposal_id (now_secs c)) c))"

end
