(* ===== verification/Steward_Ops.thy ===== *)
theory Steward_Ops
  imports Voting
begin

text \<open>
  What a conversation does about stewards and membership intent,
  \<^verbatim>\<open>src/conversation/steward.rs\<close>, and the integrator's entry points of
  \<^verbatim>\<open>src/conversation/messaging.rs\<close>. Where the source only logs a failed call and goes on, the
  definitions keep the state the failed call left.
\<close>

section \<open>The steward list\<close>

datatype steward_list_reconcile = Settled | NeedsElection

definition conv_sync_scoring_members ::
  "('g, 'o, 'c, 's) environment \<Rightarrow> bytes list \<Rightarrow> ('g, 'o, 'c, 's) conversation \<Rightarrow>
   (conversation_error + unit) \<times> ('g, 'o, 'c, 's) conversation" where
  "conv_sync_scoring_members E members c =
     on_scoring (sync_scoring_members (env_store E) members) c"

definition reconcile_steward_list ::
  "('g, 'o, 'c, 's) environment \<Rightarrow> ('g, 'o, 'c, 's) conversation \<Rightarrow>
   (conversation_error + steward_list_reconcile) \<times> ('g, 'o, 'c, 's) conversation" where
  "reconcile_steward_list E c =
     (let current_epoch = conv_epoch E c;
          settled = settled_members (cn_queues c) (conv_members E c) current_epoch
      in if \<not> svc_is_exhausted (cn_stewards c) current_epoch then (Inr Settled, c)
         else if election_required (cn_stewards c) (length settled) then (Inr NeedsElection, c)
         else
           let sn = compute_list_size (svc_config (cn_stewards c)) (length settled)
           in try_then (on_stewards (install_list (env_x E) current_epoch settled sn 0) c)
                (\<lambda>_ c'. (Inr Settled, c')))"

definition validate_election_list ::
  "('g, 'o, 'c, 's) environment \<Rightarrow> ('g, 'o, 'c, 's) conversation \<Rightarrow> steward_election_proposal \<Rightarrow>
   conversation_error + bool" where
  "validate_election_list E c election =
     (let epoch = se_election_epoch election;
          pool = filter (\<lambda>m. is_settled (cn_queues c) m epoch) (conv_members E c)
      in validate_proposed (env_x E) (cn_stewards c) (se_proposed_stewards election) epoch pool
           (se_retry_round election))"

definition initiate_steward_election ::
  "('g, 'o, 'c, 's) environment \<Rightarrow> bool \<Rightarrow> ('g, 'o, 'c, 's) conversation \<Rightarrow>
   (conversation_error + unit) \<times> ('g, 'o, 'c, 's) conversation" where
  "initiate_steward_election E recovery c =
     (let epoch = conv_epoch E c;
          candidate_pool = filter (\<lambda>m. is_settled (cn_queues c) m epoch) (conv_members E c);
          eligible = (\<lambda>m. \<not> (recovery \<and> has_approved_removal (cn_queues c) m))
      in if has_election_in_flight (cn_queues c) then (Inr (), c)
         else
           case propose_election (env_x E) (cn_stewards c) epoch candidate_pool (cn_self_member_id c)
                  eligible recovery of
             Inl e \<Rightarrow> (Inl e, c)
           | Inr (Skip _) \<Rightarrow> (Inr (), c)
           | Inr (Proposed proposed_stewards election_epoch retry_round) \<Rightarrow>
               initiate_proposal E
                 (steward_election_request
                    \<lparr>se_proposed_stewards = proposed_stewards, se_election_epoch = election_epoch,
                     se_retry_round = retry_round\<rparr>) CreatorYes c)"

definition steward_list_housekeeping ::
  "('g, 'o, 'c, 's) environment \<Rightarrow> ('g, 'o, 'c, 's) conversation \<Rightarrow>
   (conversation_error + unit) \<times> ('g, 'o, 'c, 's) conversation" where
  "steward_list_housekeeping E c =
     try_then (reconcile_steward_list E c) (\<lambda>reconcile c'.
       (Inr (), if reconcile = NeedsElection then snd (initiate_steward_election E False c') else c'))"

section \<open>Emergencies and the retry ladder\<close>

definition request_recovery ::
  "('g, 'o, 'c, 's) environment \<Rightarrow> ('g, 'o, 'c, 's) conversation \<Rightarrow>
   (conversation_error + unit) \<times> ('g, 'o, 'c, 's) conversation" where
  "request_recovery E c =
     (if is_in_recovery_mode c then (Inr (), c)
      else
        case into_update_request (with_creator (cn_self_member_id c) (deadlock_evidence (conv_epoch E c))) of
          Inl e \<Rightarrow> (Inl e, c)
        | Inr request \<Rightarrow> initiate_proposal E request CreatorYes c)"

definition propose_score_removal ::
  "('g, 'o, 'c, 's) environment \<Rightarrow> bytes \<Rightarrow> ('g, 'o, 'c, 's) conversation \<Rightarrow>
   (conversation_error + unit) \<times> ('g, 'o, 'c, 's) conversation" where
  "propose_score_removal E target c =
     (case score_for (env_store E) (cn_scoring c) target of
        Inl e \<Rightarrow> (Inl e, c)
      | Inr None \<Rightarrow> (Inl InvalidConversationUpdateRequest, c)
      | Inr (Some score) \<Rightarrow>
          (case into_update_request (with_creator (cn_self_member_id c)
                  (score_below_threshold target (conv_epoch E c) score)) of
             Inl e \<Rightarrow> (Inl e, c)
           | Inr request \<Rightarrow> initiate_proposal E request CreatorYes c))"

definition is_deadlock_proposer ::
  "('g, 'o, 'c, 's) environment \<Rightarrow> ('g, 'o, 'c, 's) conversation \<Rightarrow> bool" where
  "is_deadlock_proposer E c =
     (let members = conv_members E c
      in responsible_proposer (cn_stewards c) (svc_next_election_round (cn_stewards c)) members
           (\<lambda>m. m \<in> set members \<and> \<not> has_approved_removal (cn_queues c) m) =
         Some (cn_self_member_id c))"

definition advance_election_retry ::
  "('g, 'o, 'c, 's) environment \<Rightarrow> ('g, 'o, 'c, 's) conversation \<Rightarrow>
   (conversation_error + unit) \<times> ('g, 'o, 'c, 's) conversation" where
  "advance_election_retry E c0 =
     (let c = c0\<lparr>cn_stewards := bump_retry (cn_stewards c0)\<rparr>;
          round = svc_next_election_round (cn_stewards c)
      in if round > svc_max_retries (cn_stewards c) then
           (if is_deadlock_proposer E c then
              (case request_recovery E c of
                 (Inl e, c') \<Rightarrow>
                   (Inr (), emit_event (ErrorEvent ''Reelection stuck'' (Displayed e)) c')
               | (Inr _, c') \<Rightarrow> (Inr (), c'))
            else (Inr (), c))
         else (Inr (), snd (initiate_steward_election E True c)))"

section \<open>Buffered membership updates\<close>

definition handle_incoming_update_request ::
  "('g, 'o, 'c, 's) environment \<Rightarrow> conversation_update_request \<Rightarrow> ('g, 'o, 'c, 's) conversation \<Rightarrow>
   (conversation_error + unit) \<times> ('g, 'o, 'c, 's) conversation" where
  "handle_incoming_update_request E request c =
     (if target_member_id_of (env_x E) request = None then (Inr (), c)
      else
        let current_epoch = conv_epoch E c;
            c1 = on_queues (\<lambda>q. snd (insert_pending_update (env_x E) request current_epoch q)) c;
            is_epoch_steward =
              (svc_epoch_steward (cn_stewards c1) current_epoch
                 (steward_eligibility (cn_queues c1) (conv_members E c)) = Some (cn_self_member_id c1));
            should_propose = (is_epoch_steward \<and> cn_state c = Working)
        in (Inr (), if should_propose then snd (initiate_proposal E request CreatorDeferred c1) else c1))"

definition still_valid_update :: "bytes list \<Rightarrow> bytes \<Rightarrow> conversation_update_request \<Rightarrow> bool" where
  "still_valid_update members key request =
     (case request of
        Some (MemberInvite _) \<Rightarrow> key \<notin> set members
      | Some (RemoveMember _) \<Rightarrow> key \<in> set members
      | _ \<Rightarrow> False)"

definition actionable_buffered_updates ::
  "('g, 'o, 'c, 's) environment \<Rightarrow> ('g, 'o, 'c, 's) conversation \<Rightarrow> conversation_update_request list" where
  "actionable_buffered_updates E c =
     map (\<lambda>(_, p). pu_request p)
       (filter (\<lambda>(key, p). key \<notin> active_proposal_targets (env_x E) (cn_queues c) \<and>
                  still_valid_update (conv_members E c) key (pu_request p))
          (q_pending_updates (cn_queues c)))"

definition drain_buffered_updates ::
  "('g, 'o, 'c, 's) environment \<Rightarrow> ('g, 'o, 'c, 's) conversation \<Rightarrow> ('g, 'o, 'c, 's) conversation" where
  "drain_buffered_updates E c =
     fold (\<lambda>request c'. snd (initiate_proposal E request CreatorDeferred c'))
       (actionable_buffered_updates E c) c"

definition process_buffered_updates ::
  "('g, 'o, 'c, 's) environment \<Rightarrow> ('g, 'o, 'c, 's) conversation \<Rightarrow> ('g, 'o, 'c, 's) conversation" where
  "process_buffered_updates E c =
     (if \<not> is_epoch_steward E c then c else drain_buffered_updates E c)"

section \<open>The conversation sync\<close>

definition conversation_sync_of ::
  "('g, 'o, 'c, 's) environment \<Rightarrow> ('g, 'o, 'c, 's) conversation \<Rightarrow> score_snapshot \<Rightarrow> steward_list \<Rightarrow>
   conversation_sync" where
  "conversation_sync_of E c scores l =
     \<lparr>sy_steward_members = sl_members l,
      sy_election_epoch = sl_election_epoch l,
      sy_sn_min = word_of_nat (slc_sn_min (sl_config l)),
      sy_sn_max = word_of_nat (slc_sn_max (sl_config l)),
      sy_allow_subset_candidates = slc_allow_subset_candidates (svc_config (cn_stewards c)),
      sy_peer_scores = scores,
      sy_timing = Some (timing_config_from (cn_config c)),
      sy_retry_round = sl_retry_round l,
      sy_max_reelection_attempts = svc_max_retries (cn_stewards c),
      sy_liveness_criteria_yes = cfg_liveness_criteria_yes (cn_config c),
      sy_threshold_peer_score = sco_threshold (pss_config (cn_scoring c)),
      sy_pending_update_max_epochs = cfg_pending_update_max_epochs (cn_config c),
      sy_unsettled_members =
        filter (\<lambda>m. \<not> is_settled (cn_queues c) m (sl_election_epoch l)) (conv_members E c),
      sy_default_peer_score = sco_default_score (pss_config (cn_scoring c))\<rparr>"

definition build_conversation_sync_payload ::
  "('g, 'o, 'c, 's) environment \<Rightarrow> ('g, 'o, 'c, 's) conversation \<Rightarrow>
   (conversation_error + bytes option) \<times> ('g, 'o, 'c, 's) conversation" where
  "build_conversation_sync_payload E c =
     (case scoring_snapshot (env_store E) (cn_scoring c) of
        Inl e \<Rightarrow> (Inl e, c)
      | Inr scores \<Rightarrow>
          (case svc_list (cn_stewards c) of
             None \<Rightarrow> (Inr None, c)
           | Some l \<Rightarrow>
               try_then (on_service (build_message (env_x E) (env_om E)
                           (Some (ConversationSyncPayload (conversation_sync_of E c scores l)))) c)
                 (\<lambda>payload c'. (Inr (Some payload), c'))))"

definition share_conversation_sync ::
  "('g, 'o, 'c, 's) environment \<Rightarrow> ('g, 'o, 'c, 's) conversation \<Rightarrow>
   (conversation_error + unit) \<times> ('g, 'o, 'c, 's) conversation" where
  "share_conversation_sync E c =
     try_then (build_conversation_sync_payload E c) (\<lambda>payload c'.
       (Inr (), case payload of Some p \<Rightarrow> broadcast p c' | None \<Rightarrow> c'))"

section \<open>The integrator's intents\<close>

definition send_message ::
  "('g, 'o, 'c, 's) environment \<Rightarrow> bytes \<Rightarrow> ('g, 'o, 'c, 's) conversation \<Rightarrow>
   (conversation_error + unit) \<times> ('g, 'o, 'c, 's) conversation" where
  "send_message E message c =
     (if cn_state c = Freezing \<or> cn_state c = Selection
      then (Inl (ConversationBlocked (state_name (cn_state c))), c)
      else send_app_message E (Some (ConversationMessage message (cn_id c))) c)"

definition request_conversation_sync ::
  "('g, 'o, 'c, 's) environment \<Rightarrow> ('g, 'o, 'c, 's) conversation \<Rightarrow>
   (conversation_error + unit) \<times> ('g, 'o, 'c, 's) conversation" where
  "request_conversation_sync E c = send_app_message E (Some ConversationSyncRequest) c"

text \<open>
  The key package's signature key is the one the decoder reports; the package was just
  validated, so the decoding cannot fail here.
\<close>

definition holds_signature_key ::
  "('g, 'o, 'c, 's) environment \<Rightarrow> ('g, 'o, 'c, 's) conversation \<Rightarrow> bytes \<Rightarrow> bool" where
  "holds_signature_key E c key_package_bytes =
     (case signature_key_of_key_package (env_x E) key_package_bytes of
        Inr key \<Rightarrow> list_ex (\<lambda>m. mbr_signature_key m = key) (om_members (env_om E) (ms_group (cn_mls c)))
      | Inl _ \<Rightarrow> False)"

definition propose_add ::
  "('g, 'o, 'c, 's) environment \<Rightarrow> bytes \<Rightarrow> creator_vote \<Rightarrow> ('g, 'o, 'c, 's) conversation \<Rightarrow>
   (conversation_error + unit) \<times> ('g, 'o, 'c, 's) conversation" where
  "propose_add E key_package_bytes creator_vote c =
     (case validate_key_package (env_x E) (env_om E) (ms_group (cn_mls c)) key_package_bytes of
        Inl e \<Rightarrow> (Inl (Mls e), c)
      | Inr _ \<Rightarrow>
          if holds_signature_key E c key_package_bytes then (Inl AlreadyMember, c)
          else initiate_proposal E (member_invite_request key_package_bytes) creator_vote c)"

definition add_member ::
  "('g, 'o, 'c, 's) environment \<Rightarrow> bytes \<Rightarrow> ('g, 'o, 'c, 's) conversation \<Rightarrow>
   (conversation_error + unit) \<times> ('g, 'o, 'c, 's) conversation" where
  "add_member E key_package_bytes c =
     (if cn_state c \<noteq> Working then (Inl (ConversationBlocked (state_name (cn_state c))), c)
      else propose_add E key_package_bytes CreatorYes c)"

definition sponsor_member ::
  "('g, 'o, 'c, 's) environment \<Rightarrow> bytes \<Rightarrow> ('g, 'o, 'c, 's) conversation \<Rightarrow>
   (conversation_error + unit) \<times> ('g, 'o, 'c, 's) conversation" where
  "sponsor_member E key_package_bytes c =
     (if cn_state c \<noteq> Working then (Inr (), c)
      else if is_epoch_steward E c then propose_add E key_package_bytes CreatorDeferred c
      else
        case validate_key_package (env_x E) (env_om E) (ms_group (cn_mls c)) key_package_bytes of
          Inl e \<Rightarrow> (Inl (Mls e), c)
        | Inr _ \<Rightarrow>
            if holds_signature_key E c key_package_bytes then (Inr (), c)
            else (Inr (), on_queues (\<lambda>q. snd (insert_pending_update (env_x E)
                            (member_invite_request key_package_bytes) (conv_epoch E c) q)) c))"

definition remove_member ::
  "('g, 'o, 'c, 's) environment \<Rightarrow> member_id \<Rightarrow> ('g, 'o, 'c, 's) conversation \<Rightarrow>
   (conversation_error + unit) \<times> ('g, 'o, 'c, 's) conversation" where
  "remove_member E member c =
     (if cn_state c \<noteq> Working then (Inl (ConversationBlocked (state_name (cn_state c))), c)
      else
        case leaf_of (env_om E) (cn_mls c) member of
          None \<Rightarrow> (Inl MemberGone, c)
        | Some leaf \<Rightarrow> initiate_proposal E (remove_member_request (member_id_of leaf)) CreatorYes c)"

end
