(* ===== verification/Outcome_Handling.thy ===== *)
theory Outcome_Handling
  imports Steward_Ops
begin

text \<open>
  The follow-up of a resolved proposal, \<^verbatim>\<open>src/consensus/handle_outcome.rs\<close>: the queues are
  updated by \<open>apply_consensus_result\<close>, and what it asks for is carried out here.
\<close>

definition emit_phase_change ::
  "conversation_state option \<Rightarrow> ('g, 'o, 'c, 's) conversation \<Rightarrow> ('g, 'o, 'c, 's) conversation" where
  "emit_phase_change transition c =
     (case transition of Some s \<Rightarrow> emit_event (PhaseChange s) c | None \<Rightarrow> c)"

definition start_freezing_and_emit ::
  "('g, 'o, 'c, 's) conversation \<Rightarrow> ('g, 'o, 'c, 's) conversation" where
  "start_freezing_and_emit c = (case start_freezing c of (t, c') \<Rightarrow> emit_phase_change t c')"

definition resume_from_reelection ::
  "('g, 'o, 'c, 's) conversation \<Rightarrow> ('g, 'o, 'c, 's) conversation" where
  "resume_from_reelection c =
     (if cn_state c = Reelection
      then (case start_working c of (s, c') \<Rightarrow> emit_phase_change (Some s) c')
      else c)"

definition refresh_stewards_after_removal ::
  "('g, 'o, 'c, 's) environment \<Rightarrow> bytes \<Rightarrow> ('g, 'o, 'c, 's) conversation \<Rightarrow>
   ('g, 'o, 'c, 's) conversation" where
  "refresh_stewards_after_removal E target c =
     (if \<not> svc_is_steward (cn_stewards c) target then c
      else snd (initiate_steward_election E True c))"

definition handle_election_accepted ::
  "('g, 'o, 'c, 's) environment \<Rightarrow> steward_election_proposal \<Rightarrow> ('g, 'o, 'c, 's) conversation \<Rightarrow>
   (conversation_error + unit) \<times> ('g, 'o, 'c, 's) conversation" where
  "handle_election_accepted E election c =
     (case validate_election_list E c election of
        Inl e \<Rightarrow> (Inl e, c)
      | Inr False \<Rightarrow> (Inr (), c)
      | Inr True \<Rightarrow>
          try_then (on_stewards (install_list (env_x E) (se_election_epoch election)
                      (se_proposed_stewards election) (length (se_proposed_stewards election))
                      (se_retry_round election)) c)
            (\<lambda>_ c1.
              let c2 = exit_recovery_mode c1;
                  c3 = (if cn_state c2 = Reelection
                        then on_timing (\<lambda>t. t\<lparr>tm_reelection_recovered := True\<rparr>) c2 else c2);
                  c4 = resume_from_reelection c3;
                  (shared, c5) = (if is_epoch_steward E c4 then share_conversation_sync E c4
                                  else (Inr (), c4))
              in (shared, process_buffered_updates E c5)))"

definition handle_emergency_scored ::
  "('g, 'o, 'c, 's) environment \<Rightarrow> u32 \<Rightarrow> score_op list \<Rightarrow> ('g, 'o, 'c, 's) conversation \<Rightarrow>
   (conversation_error + unit) \<times> ('g, 'o, 'c, 's) conversation" where
  "handle_emergency_scored E proposal_id score_ops c =
     try_then (apply_score_ops E score_ops c) (\<lambda>_ c1.
       (Inr (), resume_from_reelection (on_queues (remove_emergency proposal_id) c1)))"

text \<open>The \<^verbatim>\<open>match\<close> on the result of \<open>apply_consensus_result\<close>.\<close>

fun follow_up ::
  "('g, 'o, 'c, 's) environment \<Rightarrow> consensus_apply_result \<Rightarrow> ('g, 'o, 'c, 's) conversation \<Rightarrow>
   (conversation_error + unit) \<times> ('g, 'o, 'c, 's) conversation" where
  "follow_up E NoAction c = (Inr (), c)"
| "follow_up E (ElectionAccepted election) c = handle_election_accepted E election c"
| "follow_up E ElectionRejected c = advance_election_retry E c"
| "follow_up E RecoveryModeOpened c =
     (Inr (), emit_event RecoveryModeOpenedEvent (start_freezing_and_emit (enter_recovery_mode c)))"
| "follow_up E (UrgentRemoval target) c =
     (case start_freezing c of
        (Some event, c1) \<Rightarrow>
          try_then (on_freeze_entered E event c1)
            (\<lambda>_ c2. (Inr (), refresh_stewards_after_removal E target c2))
      | (None, c1) \<Rightarrow> (Inr (), refresh_stewards_after_removal E target c1))"
| "follow_up E (QueuedRemoval target) c = (Inr (), refresh_stewards_after_removal E target c)"
| "follow_up E (RejectedMembership target) c =
     (Inr (), on_queues (\<lambda>q. snd (remove_pending_update target q)) c)"

fun event_outcome :: "consensus_event \<Rightarrow> u32 \<times> bool \<times> u64" where
  "event_outcome (ConsensusReached proposal_id result timestamp) = (proposal_id, result, timestamp)"
| "event_outcome (ConsensusFailed proposal_id timestamp) = (proposal_id, False, timestamp)"

definition handle_consensus_outcome ::
  "('g, 'o, 'c, 's) environment \<Rightarrow> consensus_event \<Rightarrow> ('g, 'o, 'c, 's) conversation \<Rightarrow>
   (conversation_error + unit) \<times> ('g, 'o, 'c, 's) conversation" where
  "handle_consensus_outcome E event c =
     (let (proposal_id, approved, timestamp) = event_outcome event;
          c1 = unregister_consensus_timeout proposal_id (cancel_auto_vote proposal_id c)
      in if is_consensus_outcome_applied (cn_queues c1) proposal_id then (Inr (), c1)
         else
           let c2 = emit_event (ConsensusReachedEvent proposal_id approved timestamp) c1 in
           (case ce_get_proposal (env_ce E) (cn_consensus c2) (cn_id c2) proposal_id of
              Inl e \<Rightarrow> (Inl (Consensus e), c2)
            | Inr proposal \<Rightarrow>
                (case x_decode_request (env_x E) (cp_payload proposal) of
                   Inl e \<Rightarrow> (Inl (Message e), c2)
                 | Inr request \<Rightarrow>
                     let c3 = on_queues (mark_consensus_outcome_applied proposal_id) c2;
                         (applied, q) = apply_consensus_result (env_x E) proposal_id approved request
                                          (cn_queues c3);
                         c4 = c3\<lparr>cn_queues := q\<rparr>
                     in try_then (applied, c4) (\<lambda>consensus_apply c5.
                        try_then (conv_replay_early_candidates E c5) (\<lambda>_ c6.
                        try_then (follow_up E consensus_apply c6) (\<lambda>_ c7.
                        try_then (let score_ops = emergency_score_ops request approved
                                  in if score_ops = [] then (Inr (), c7)
                                     else handle_emergency_scored E proposal_id score_ops c7) (\<lambda>_ c8.
                          on_engine (ce_remove_session (env_ce E) (cn_id c8) proposal_id) c8)))))))"

end
