(* ===== verification/Inbound.thy ===== *)
theory Inbound
  imports Outcome_Handling
begin

text \<open>
  Inbound packets, \<^verbatim>\<open>src/conversation/inbound.rs\<close>: decoding with its pre-checks, dispatch, and
  the handlers; the validation and adoption of a conversation sync.
\<close>

section \<open>Decoding\<close>

definition authorize_fast_path_proposal :: "externals \<Rightarrow> consensus_proposal \<Rightarrow> bytes \<Rightarrow> bool" where
  "authorize_fast_path_proposal x proposal mls_sender =
     (if cp_expected_voters_count proposal \<noteq> 1 then True
      else if cp_proposal_owner proposal \<noteq> mls_sender then False
      else
        case x_decode_request x (cp_payload proposal) of
          Inl _ \<Rightarrow> False
        | Inr (Some (RemoveMember m)) \<Rightarrow> m = mls_sender
        | Inr _ \<Rightarrow> False)"

text \<open>What follows the decryption: the checks by variant, then the conversion.\<close>

definition classify_app_message ::
  "externals \<Rightarrow> ('g, 'o) openmls \<Rightarrow> ('g, 'o) mls_service \<Rightarrow> member \<Rightarrow> app_message \<Rightarrow> process_result" where
  "classify_app_message x om mls member app_msg =
     (case app_msg of
        Some (ProposalPayload proposal) \<Rightarrow>
          if \<not> authorize_fast_path_proposal x proposal (member_id_of (mbr_index member))
          then Noop FastPathRejected
          else process_result_of_app app_msg
      | Some ConversationSyncRequest \<Rightarrow> ConversationSyncRequested (member_id_of (mbr_index member))
      | Some (BanRequest target _) \<Rightarrow>
          if \<not> is_member om mls target then Noop BanTargetNotMember
          else process_result_of_app app_msg
      | Some (ConversationMessage _ _) \<Rightarrow> AppMessageResult app_msg member
      | Some (MembershipChange _ _ _) \<Rightarrow> AppMessageResult app_msg member
      | _ \<Rightarrow> process_result_of_app app_msg)"

definition decode_encrypted_payload ::
  "externals \<Rightarrow> ('g, 'o) openmls \<Rightarrow> bytes \<Rightarrow> ('g, 'o) round_state \<Rightarrow>
   (conversation_error + process_result) \<times> ('g, 'o) round_state" where
  "decode_encrypted_payload x om payload st =
     try_then (on_mls (decrypt_application_only om payload) st) (\<lambda>decrypted st'.
       case decrypted of
         None \<Rightarrow> (Inr (Noop DecryptIgnored), st')
       | Some dm \<Rightarrow>
           (case x_decode_app x (dm_payload dm) of
              Inl e \<Rightarrow> (Inl (Message e), st')
            | Inr app_msg \<Rightarrow> (Inr (classify_app_message x om (snd st') (dm_member dm) app_msg), st')))"

definition decode_inbound_payload ::
  "externals \<Rightarrow> ('g, 'o) openmls \<Rightarrow> bytes \<Rightarrow> ('g, 'o) round_state \<Rightarrow>
   (conversation_error + process_result) \<times> ('g, 'o) round_state" where
  "decode_inbound_payload x om payload st =
     (case x_decode_app x payload of
        Inr (Some (CommitCandidatePayload candidate)) \<Rightarrow>
          (case receive_commit_candidate x om (snd st) candidate (fst st) of
             (r, q) \<Rightarrow> (r, (q, snd st)))
      | Inr (Some (MemberWelcomePayload welcome)) \<Rightarrow>
          if mw_welcome_bytes welcome = [] then (Inr (Noop EmptyWelcomePayload), st)
          else
            (case record_welcome_broadcast (compute_commit_hash x (mw_welcome_bytes welcome)) (fst st) of
               (False, q) \<Rightarrow> (Inr (Noop DuplicateWelcomeBroadcast), (q, snd st))
             | (True, q) \<Rightarrow> (Inr (WelcomeBroadcastReceived welcome), (q, snd st)))
      | _ \<Rightarrow> decode_encrypted_payload x om payload st)"

definition decode_inbound ::
  "('g, 'o, 'c, 's) environment \<Rightarrow> bytes \<Rightarrow> ('g, 'o, 'c, 's) conversation \<Rightarrow>
   (conversation_error + process_result) \<times> ('g, 'o, 'c, 's) conversation" where
  "decode_inbound E payload c = on_round (decode_inbound_payload (env_x E) (env_om E) payload) c"

section \<open>Proposals of peers\<close>

definition expired_message :: "u32 \<Rightarrow> u64 \<Rightarrow> u64 \<Rightarrow> string" where
  "expired_message proposal_id expiration local_now =
     ''proposal '' @ show_nat (unat proposal_id) @ '' expired on arrival (expiration '' @
     show_nat (unat expiration) @ '', local now '' @ show_nat (unat local_now) @
     ''); possible clock skew''"

text \<open>The bookkeeping of an accepted proposal: in flight, and mirrored into the buffers.\<close>

definition mirror_proposal ::
  "externals \<Rightarrow> u32 \<Rightarrow> conversation_update_request \<Rightarrow> u64 \<Rightarrow> conversation_queues \<Rightarrow>
   conversation_queues" where
  "mirror_proposal x proposal_id req current_epoch q =
     (let q1 = track_voting_proposal x proposal_id req q in
      case req of
        Some (EmergencyCriteria _) \<Rightarrow> insert_emergency proposal_id q1
      | Some (MemberInvite _) \<Rightarrow> snd (insert_pending_update x req current_epoch q1)
      | Some (RemoveMember _) \<Rightarrow> snd (insert_pending_update x req current_epoch q1)
      | _ \<Rightarrow> q1)"

definition arm_incoming_vote ::
  "('g, 'o, 'c, 's) environment \<Rightarrow> u32 \<Rightarrow> conversation_update_request option \<Rightarrow>
   ('g, 'o, 'c, 's) conversation \<Rightarrow> (conversation_error + unit) \<times> ('g, 'o, 'c, 's) conversation" where
  "arm_incoming_vote E proposal_id decoded c =
     try_then
       (case decoded of
          Some (Some (StewardElection election)) \<Rightarrow>
            (case validate_election_list E c election of
               Inl e \<Rightarrow> (Inl e, c)
             | Inr verdict \<Rightarrow> (Inr (), register_auto_vote proposal_id 0 verdict c))
        | _ \<Rightarrow>
            let c1 = (case decoded of
                        Some request \<Rightarrow> emit_event (VoteRequested proposal_id request) c
                      | None \<Rightarrow> c)
            in (Inr (), register_auto_vote proposal_id (cfg_voting_delay (cn_config c1))
                          (cfg_liveness_criteria_yes (cn_config c1)) c1))
       (\<lambda>_ c'. (Inr (), register_consensus_timeout proposal_id (cfg_consensus_timeout (cn_config c')) c'))"

definition on_incoming_proposal ::
  "('g, 'o, 'c, 's) environment \<Rightarrow> consensus_proposal \<Rightarrow> ('g, 'o, 'c, 's) conversation \<Rightarrow>
   (conversation_error + unit) \<times> ('g, 'o, 'c, 's) conversation" where
  "on_incoming_proposal E proposal c =
     (let decoded = result_ok (x_decode_request (env_x E) (cp_payload proposal));
          kind = (case decoded of Some r \<Rightarrow> proposal_kind_of r | None \<Rightarrow> CommitKind);
          proposal_id = cp_proposal_id proposal
      in if partial_freeze_blocks (cn_queues c) kind then (Inr (), c)
         else
           (case on_engine (ce_process_incoming_proposal (env_ce E) (cn_id c) proposal (now_secs c)) c of
              (Inl e, c1) \<Rightarrow>
                (Inl e,
                 if e = Consensus ProposalExpired
                 then emit_event (ErrorEvent ''incoming_proposal'' (MessageText
                        (expired_message proposal_id (cp_expiration_timestamp proposal) (now_secs c)))) c1
                 else c1)
            | (Inr _, c1) \<Rightarrow>
                let c2 = (case decoded of
                            Some req \<Rightarrow>
                              on_queues (mirror_proposal (env_x E) proposal_id req (conv_epoch E c1)) c1
                          | None \<Rightarrow> c1)
                in if cp_expected_voters_count proposal > 1
                   then arm_incoming_vote E proposal_id decoded c2
                   else (Inr (), c2)))"

section \<open>Joining and merging\<close>

definition on_joined ::
  "('g, 'o, 'c, 's) environment \<Rightarrow> ('g, 'o, 'c, 's) conversation \<Rightarrow>
   (conversation_error + unit) \<times> ('g, 'o, 'c, 's) conversation" where
  "on_joined E c =
     (let members = conv_members E c in
      try_then (send_app_message E (Some (MembershipChange (cn_id c) (cn_self_member_id c) 0)) c)
        (\<lambda>_ c'. conv_sync_scoring_members E members c'))"

definition reconcile_membership_after_commit ::
  "('g, 'o, 'c, 's) environment \<Rightarrow> ('g, 'o, 'c, 's) conversation \<Rightarrow>
   (conversation_error + unit) \<times> ('g, 'o, 'c, 's) conversation" where
  "reconcile_membership_after_commit E c =
     (case take_membership_delta (cn_queues c) of
        (delta, q) \<Rightarrow>
          try_then (on_scoring (try_fold (\<lambda>m. scoring_remove_member (env_store E) (member_id_of (mid_leaf m)))
                      (md_removed delta)) (c\<lparr>cn_queues := q\<rparr>)) (\<lambda>_ c1.
          try_then (on_scoring (try_fold (\<lambda>m. scoring_add_member (env_store E) (member_id_of (mbr_index m)))
                      (md_added delta)) c1) (\<lambda>_ c2.
            let c3 = on_queues (\<lambda>q. snd (expire_pending_updates (conv_epoch E c2)
                       (cfg_pending_update_max_epochs (cn_config c2)) q)) c2
            in (Inr (), if md_added delta \<noteq> [] \<or> md_removed delta \<noteq> []
                        then emit_event (MembersChanged (md_added delta) (md_removed delta)) c3
                        else c3))))"

definition maybe_close_recovery_window ::
  "('g, 'o, 'c, 's) environment \<Rightarrow> ('g, 'o, 'c, 's) conversation \<Rightarrow> ('g, 'o, 'c, 's) conversation" where
  "maybe_close_recovery_window E c =
     (if \<not> is_in_recovery_mode c then c else snd (initiate_steward_election E True c))"

definition on_conversation_updated ::
  "('g, 'o, 'c, 's) environment \<Rightarrow> ('g, 'o, 'c, 's) conversation \<Rightarrow>
   (conversation_error + unit) \<times> ('g, 'o, 'c, 's) conversation" where
  "on_conversation_updated E c =
     (let c1 = on_timing (\<lambda>t. t\<lparr>tm_reelection_recovered := False\<rparr>)
                 (c\<lparr>cn_stewards := reset_retry (cn_stewards c)\<rparr>);
          (event, c2) = start_working c1;
          c3 = emit_event (PhaseChange event) c2
      in try_then (reconcile_membership_after_commit E c3) (\<lambda>_ c4.
         try_then (steward_list_housekeeping E c4) (\<lambda>_ c5.
           (Inr (), maybe_close_recovery_window E (process_buffered_updates E c5)))))"

definition prepare_self_leave ::
  "('g, 'o, 'c, 's) environment \<Rightarrow> ('g, 'o, 'c, 's) conversation \<Rightarrow> ('g, 'o, 'c, 's) conversation" where
  "prepare_self_leave E c =
     snd (on_service (mls_delete (env_om E)) (cancel_all_auto_votes (emit_event Leaving c)))"

definition on_commit_candidate_received ::
  "('g, 'o, 'c, 's) environment \<Rightarrow> ('g, 'o, 'c, 's) conversation \<Rightarrow>
   (conversation_error + unit) \<times> ('g, 'o, 'c, 's) conversation" where
  "on_commit_candidate_received E c =
     (if cn_state c \<noteq> Working \<and> cn_state c \<noteq> Reelection then (Inr (), c)
      else
        case start_freezing c of
          (None, c1) \<Rightarrow> (Inr (), c1)
        | (Some event, c1) \<Rightarrow> on_freeze_entered E event c1)"

section \<open>The conversation sync\<close>

definition synced_default_peer_score :: "conversation_sync \<Rightarrow> i64" where
  "synced_default_peer_score sync =
     (if sy_default_peer_score sync = 0 then DEFAULT_PEER_SCORE else sy_default_peer_score sync)"

definition first_zero_timing_field :: "timing_config \<Rightarrow> string option" where
  "first_zero_timing_field t =
     (if tc_commit_batch_window_ms t = 0 then Some ''commit_batch_window_ms''
      else if tc_freeze_duration_ms t = 0 then Some ''freeze_duration_ms''
      else if tc_proposal_expiration_ms t = 0 then Some ''proposal_expiration_ms''
      else if tc_consensus_timeout_ms t = 0 then Some ''consensus_timeout_ms''
      else if tc_retry_window_ms t = 0 then Some ''retry_window_ms''
      else None)"

definition validate_conversation_sync ::
  "externals \<Rightarrow> string \<Rightarrow> conversation_sync \<Rightarrow> u64 \<Rightarrow> bytes list \<Rightarrow> conversation_error + bool" where
  "validate_conversation_sync x conversation_id sync current_epoch members =
     (if sy_election_epoch sync > current_epoch then Inr False
      else
        let any_present = list_ex (\<lambda>s. s \<in> set members) (sy_steward_members sync) in
        if \<not> list_all (\<lambda>u. u \<in> set members) (sy_unsettled_members sync) then Inr False
        else
          let pool = filter (\<lambda>m. m \<notin> set (sy_unsettled_members sync)) members in
          result_then (steward_list_config_new (unat (sy_sn_min sync)) (unat (sy_sn_max sync))) (\<lambda>config.
          result_then (steward_list_validate x (sy_steward_members sync) (sy_election_epoch sync)
                         (string_bytes conversation_id) pool config (sy_retry_round sync))
            (\<lambda>ordering_valid.
              if \<not> (any_present \<and> ordering_valid) then Inr False
              else if (case sy_timing sync of
                         Some timing \<Rightarrow> first_zero_timing_field timing \<noteq> None | None \<Rightarrow> False)
              then Inr False
              else case scoring_config_validate
                          \<lparr>sco_default_score = synced_default_peer_score sync,
                           sco_threshold = sy_threshold_peer_score sync\<rparr> of
                     Inl _ \<Rightarrow> Inr False
                   | Inr _ \<Rightarrow> Inr True)))"

definition apply_conversation_sync_to_entry ::
  "('g, 'o, 'c, 's) environment \<Rightarrow> conversation_sync \<Rightarrow> ('g, 'o, 'c, 's) conversation \<Rightarrow>
   (conversation_error + unit) \<times> ('g, 'o, 'c, 's) conversation" where
  "apply_conversation_sync_to_entry E sync c =
     (case steward_list_config_new (unat (sy_sn_min sync)) (unat (sy_sn_max sync)) of
        Inl e \<Rightarrow> (Inl e, c)
      | Inr config \<Rightarrow>
          let protocol_config = config\<lparr>slc_allow_subset_candidates := sy_allow_subset_candidates sync\<rparr>;
              c1 = c\<lparr>cn_stewards := svc_set_config protocol_config (cn_stewards c)\<rparr>
          in try_then (on_stewards (install_list (env_x E) (sy_election_epoch sync)
                         (sy_steward_members sync) (length (sy_steward_members sync))
                         (sy_retry_round sync)) c1) (\<lambda>_ c2.
             let c3 = c2\<lparr>cn_stewards := svc_set_max_retries (sy_max_reelection_attempts sync) (cn_stewards c2),
                         cn_scoring := set_threshold (sy_threshold_peer_score sync) (cn_scoring c2)\<rparr>
             in try_then (on_scoring (set_default_score (env_store E) (synced_default_peer_score sync)) c3)
                  (\<lambda>_ c4.
                try_then (apply_score_snapshot E (sy_peer_scores sync) c4) (\<lambda>_ c5.
                  let cfg = (cn_config c5)
                        \<lparr>cfg_liveness_criteria_yes := sy_liveness_criteria_yes sync,
                         cfg_pending_update_max_epochs := sy_pending_update_max_epochs sync\<rparr>
                  in (Inr (), c5\<lparr>cn_config :=
                        (case sy_timing sync of Some t \<Rightarrow> apply_timing t cfg | None \<Rightarrow> cfg)\<rparr>)))))"

definition on_conversation_sync ::
  "('g, 'o, 'c, 's) environment \<Rightarrow> conversation_sync \<Rightarrow> ('g, 'o, 'c, 's) conversation \<Rightarrow>
   (conversation_error + unit) \<times> ('g, 'o, 'c, 's) conversation" where
  "on_conversation_sync E sync c0 =
     (let c = on_timing (\<lambda>t. t\<lparr>tm_sync_resend_anchor := None\<rparr>) c0;
          current_epoch = conv_epoch E c
      in if (case svc_election_epoch (cn_stewards c) of
               Some mine \<Rightarrow> \<not> svc_is_exhausted (cn_stewards c) current_epoch \<or>
                            sy_election_epoch sync \<le> mine
             | None \<Rightarrow> False)
         then (Inr (), c)
         else
           case validate_conversation_sync (env_x E) (cn_id c) sync current_epoch (conv_members E c) of
             Inl e \<Rightarrow> (Inl e, c)
           | Inr False \<Rightarrow> (Inr (), c)
           | Inr True \<Rightarrow>
               try_then (apply_conversation_sync_to_entry E sync c)
                 (\<lambda>_ c'. (Inr (), emit_event ConversationSyncApplied c')))"

definition on_conversation_sync_request ::
  "('g, 'o, 'c, 's) environment \<Rightarrow> ('g, 'o, 'c, 's) conversation \<Rightarrow>
   (conversation_error + unit) \<times> ('g, 'o, 'c, 's) conversation" where
  "on_conversation_sync_request E c =
     (if is_epoch_steward E c
      then share_conversation_sync E (on_timing (\<lambda>t. t\<lparr>tm_sync_resend_anchor := None\<rparr>) c)
      else if is_steward c \<and> tm_sync_resend_anchor (cn_timing c) = None
      then (Inr (), on_timing (\<lambda>t. t\<lparr>tm_sync_resend_anchor := Some (cn_now c)\<rparr>) c)
      else (Inr (), c))"

section \<open>Dispatch\<close>

datatype dispatch_outcome = Done | Dropped | LeaveRequested

definition done_after ::
  "(conversation_error + unit) \<times> ('g, 'o, 'c, 's) conversation \<Rightarrow>
   (conversation_error + dispatch_outcome) \<times> ('g, 'o, 'c, 's) conversation" where
  "done_after r = try_then r (\<lambda>_ c. (Inr Done, c))"

fun dispatch_inbound_result ::
  "('g, 'o, 'c, 's) environment \<Rightarrow> process_result \<Rightarrow> ('g, 'o, 'c, 's) conversation \<Rightarrow>
   (conversation_error + dispatch_outcome) \<times> ('g, 'o, 'c, 's) conversation" where
  "dispatch_inbound_result E (AppMessageResult msg sender) c =
     (Inr Done, emit_event (ConversationMessageEvent msg sender) c)"
| "dispatch_inbound_result E (ProposalResult proposal) c = done_after (on_incoming_proposal E proposal c)"
| "dispatch_inbound_result E (VoteResult vote) c = done_after (forward_incoming_vote E vote c)"
| "dispatch_inbound_result E (MembershipChangeReceived request) c =
     done_after (handle_incoming_update_request E request c)"
| "dispatch_inbound_result E ConversationUpdated c = done_after (on_conversation_updated E c)"
| "dispatch_inbound_result E LeaveConversation c = (Inr LeaveRequested, prepare_self_leave E c)"
| "dispatch_inbound_result E (CommitCandidateReceived steward) c =
     done_after (on_commit_candidate_received E c)"
| "dispatch_inbound_result E (ConversationSyncReceived sync) c =
     done_after (on_conversation_sync E sync c)"
| "dispatch_inbound_result E (ConversationSyncRequested requester) c =
     done_after (on_conversation_sync_request E c)"
| "dispatch_inbound_result E (WelcomeBroadcastReceived welcome) c =
     (Inr Done, emit_event (WelcomeReady welcome False) c)"
| "dispatch_inbound_result E (Noop reason) c = (Inr Done, c)"

definition process_inbound ::
  "('g, 'o, 'c, 's) environment \<Rightarrow> bytes \<Rightarrow> bytes \<Rightarrow> ('g, 'o, 'c, 's) conversation \<Rightarrow>
   (conversation_error + dispatch_outcome) \<times> ('g, 'o, 'c, 's) conversation" where
  "process_inbound E sender payload c =
     (if sender = cn_app_id c then (Inr Dropped, c)
      else try_then (decode_inbound E payload c) (\<lambda>result c'. dispatch_inbound_result E result c'))"

definition apply_welcome_sync ::
  "('g, 'o, 'c, 's) environment \<Rightarrow> bytes \<Rightarrow> ('g, 'o, 'c, 's) conversation \<Rightarrow>
   (conversation_error + unit) \<times> ('g, 'o, 'c, 's) conversation" where
  "apply_welcome_sync E sync_bytes c =
     (if sync_bytes = [] then (Inr (), emit_event ConversationSyncMissing c)
      else
        try_then (decode_inbound E sync_bytes c) (\<lambda>result c1.
        try_then (dispatch_inbound_result E result c1) (\<lambda>_ c2. (Inr (), c2))))"

end
