(* ===== verification/Polling.thy ===== *)
theory Polling
  imports Inbound
begin

text \<open>
  The polling cycle: \<^verbatim>\<open>tick_deadlines\<close> of \<^verbatim>\<open>src/consensus/voting.rs\<close> and
  \<^verbatim>\<open>src/conversation/poll.rs\<close>, and the construction of a conversation,
  \<^verbatim>\<open>src/conversation/construct.rs\<close>.

  The loop that empties the outcome bus runs the handler of each outcome, and a handler may
  publish further outcomes; nothing in this code bounds that. It is a partial function: \<open>None\<close>
  is a bus that never runs empty, and so a poll that never returns.
\<close>

section \<open>Deadlines\<close>

definition due_auto_votes :: "('g, 'o, 'c, 's) conversation \<Rightarrow> (u32 \<times> bool) list" where
  "due_auto_votes c =
     map (\<lambda>(pid, e). (pid, av_vote e))
       (filter (\<lambda>(_, e). av_fire_at e \<le> cn_now c) (tm_pending_auto_votes (cn_timing c)))"

definition due_timeouts :: "('g, 'o, 'c, 's) conversation \<Rightarrow> u32 list" where
  "due_timeouts c =
     map fst (filter (\<lambda>(_, fire_at). fire_at \<le> cn_now c) (tm_pending_consensus_timeouts (cn_timing c)))"

definition fire_deadlines ::
  "('g, 'o, 'c, 's) environment \<Rightarrow> ('g, 'o, 'c, 's) conversation \<Rightarrow> ('g, 'o, 'c, 's) conversation" where
  "fire_deadlines E c =
     (let votes = due_auto_votes c;
          timeouts = due_timeouts c;
          c1 = on_timing (\<lambda>t. t\<lparr>tm_pending_auto_votes :=
                 fold imap_remove (map fst votes) (tm_pending_auto_votes t),
                 tm_pending_consensus_timeouts :=
                   fold imap_remove timeouts (tm_pending_consensus_timeouts t)\<rparr>) c;
          c2 = fold (\<lambda>(pid, vote) s. snd (broadcast_vote E pid vote s)) votes c1
      in fold (resolve_on_timeout E) timeouts c2)"

partial_function (option) drain_outcomes ::
  "('g, 'o, 'c, 's) environment \<Rightarrow> ('g, 'o, 'c, 's) conversation \<Rightarrow>
   ('g, 'o, 'c, 's) conversation option" where
  "drain_outcomes E c =
     (case outcome_try_recv c of
        (None, c') \<Rightarrow> Some c'
      | (Some (_, event), c') \<Rightarrow> drain_outcomes E (snd (handle_consensus_outcome E event c')))"

definition tick_deadlines ::
  "('g, 'o, 'c, 's) environment \<Rightarrow> ('g, 'o, 'c, 's) conversation \<Rightarrow>
   ('g, 'o, 'c, 's) conversation option" where
  "tick_deadlines E c = drain_outcomes E (fire_deadlines E c)"

section \<open>The freeze step\<close>

definition maybe_auto_commit_recovery ::
  "('g, 'o, 'c, 's) environment \<Rightarrow> ('g, 'o, 'c, 's) conversation \<Rightarrow> ('g, 'o, 'c, 's) conversation" where
  "maybe_auto_commit_recovery E c =
     (case cfg_recovery_auto_commit_delay (cn_config c) of
        None \<Rightarrow> c
      | Some delay \<Rightarrow>
          if \<not> elapsed_since_anchor (tm_phase_timer (cn_timing c)) (cn_now c) delay \<or>
             has_local_candidate (q_commit_round (cn_queues c))
          then c
          else snd (mint_and_broadcast_candidate E c))"

definition deliver_welcome ::
  "('g, 'o, 'c, 's) environment \<Rightarrow> member_welcome \<Rightarrow> ('g, 'o, 'c, 's) conversation \<Rightarrow>
   ('g, 'o, 'c, 's) conversation" where
  "deliver_welcome E welcome c =
     (let (w, c1) =
        (case try_then (reconcile_steward_list E c) (\<lambda>_ c'. build_conversation_sync_payload E c') of
           (Inr sync_bytes, c') \<Rightarrow>
             (welcome\<lparr>mw_conversation_sync_bytes :=
                (case sync_bytes of Some b \<Rightarrow> b | None \<Rightarrow> [])\<rparr>, c')
         | (Inl e, c') \<Rightarrow>
             (welcome, emit_event (ErrorEvent ''welcome_conversation_sync'' (Displayed e)) c'))
      in broadcast (x_encode_app (env_x E) (Some (MemberWelcomePayload w)))
           (emit_event (WelcomeReady w True) c1))"

definition retry_or_exhaust_recovery ::
  "('g, 'o, 'c, 's) conversation \<Rightarrow> ('g, 'o, 'c, 's) conversation" where
  "retry_or_exhaust_recovery c0 =
     (let c = c0\<lparr>cn_recovery_rounds := cn_recovery_rounds c0 + 1\<rparr>;
          mx = cfg_recovery_max_rounds (cn_config c)
      in if mx \<noteq> 0 \<and> cn_recovery_rounds c \<ge> mx then
           (case start_working (exit_recovery_mode c) of
              (resumed, c1) \<Rightarrow> emit_event (PhaseChange resumed) (emit_event RecoveryExhausted c1))
         else
           (case reopen_recovery_window c of
              (Some reopened, c1) \<Rightarrow> emit_event (PhaseChange reopened) c1
            | (None, c1) \<Rightarrow> c1))"

definition resume_working :: "('g, 'o, 'c, 's) conversation \<Rightarrow> ('g, 'o, 'c, 's) conversation" where
  "resume_working c = (case start_working c of (s, c') \<Rightarrow> emit_event (PhaseChange s) c')"

definition recover_from_finalize_error ::
  "('g, 'o, 'c, 's) conversation \<Rightarrow> ('g, 'o, 'c, 's) conversation" where
  "recover_from_finalize_error c =
     (if is_in_recovery_mode c then retry_or_exhaust_recovery c else resume_working c)"

definition clear_commit_round :: "('g, 'o, 'c, 's) conversation \<Rightarrow> ('g, 'o, 'c, 's) conversation" where
  "clear_commit_round = on_queues (\<lambda>q. q\<lparr>q_commit_round := buffer_clear (q_commit_round q)\<rparr>)"

text \<open>The steward a missed commit is attributed to: the live epoch steward, unless it is us.\<close>

definition missed_commit_target ::
  "('g, 'o, 'c, 's) environment \<Rightarrow> ('g, 'o, 'c, 's) conversation \<Rightarrow> bytes option" where
  "missed_commit_target E c =
     (case svc_epoch_steward (cn_stewards c) (conv_epoch E c)
             (steward_eligibility (cn_queues c) (conv_members E c)) of
        Some m \<Rightarrow> if m \<noteq> [] \<and> m \<noteq> cn_self_member_id c then Some m else None
      | None \<Rightarrow> None)"

definition no_candidate_outside_recovery ::
  "('g, 'o, 'c, 's) environment \<Rightarrow> bool \<Rightarrow> ('g, 'o, 'c, 's) conversation \<Rightarrow>
   (conversation_error + dispatch_outcome) \<times> ('g, 'o, 'c, 's) conversation" where
  "no_candidate_outside_recovery E has_proposals c =
     (if \<not> has_proposals then (Inr Done, resume_working (clear_commit_round c))
      else
        case start_reelection c of
          (event, c1) \<Rightarrow>
            try_then (case missed_commit_target E c1 of
                        Some steward_id \<Rightarrow>
                          apply_score_ops E
                            [\<lparr>op_member_id = steward_id, op_event = CensorshipInactivity\<rparr>] c1
                      | None \<Rightarrow> (Inr (), c1))
              (\<lambda>_ c2. (Inr Done, snd (initiate_steward_election E True (emit_event (PhaseChange event) c2)))))"

text \<open>The penalties and the batch of a finished round are recorded first.\<close>

definition record_round ::
  "('g, 'o, 'c, 's) environment \<Rightarrow> commit_round_result \<Rightarrow> ('g, 'o, 'c, 's) conversation \<Rightarrow>
   ('g, 'o, 'c, 's) conversation" where
  "record_round E result c =
     (let c1 = (if crr_score_ops result = [] then c
                else case apply_score_ops E (crr_score_ops result) c of
                       (Inr _, c') \<Rightarrow> c'
                     | (Inl e, c') \<Rightarrow>
                         emit_event (ErrorEvent ''apply_commit_round_score_ops'' (Displayed e)) c')
      in if crr_committed_batch result = [] then c1
         else emit_event (CommitApplied (crr_committed_batch result)) c1)"

text \<open>What follows a finished round; \<open>has_proposals\<close> was read when selection began.\<close>

definition after_round ::
  "('g, 'o, 'c, 's) environment \<Rightarrow> bool \<Rightarrow> bool \<Rightarrow> commit_round_result \<Rightarrow>
   ('g, 'o, 'c, 's) conversation \<Rightarrow>
   (conversation_error + dispatch_outcome) \<times> ('g, 'o, 'c, 's) conversation" where
  "after_round E in_recovery has_proposals result c =
     (let c2 = record_round E result c
      in case crr_outcome result of
           Applied r welcome \<Rightarrow>
             let c3 = (if in_recovery then exit_recovery_mode c2 else c2);
                 c4 = (case welcome of Some w \<Rightarrow> deliver_welcome E w c3 | None \<Rightarrow> c3)
             in (case dispatch_inbound_result E r c4 of
                   (Inr outcome, c5) \<Rightarrow> (Inr outcome, c5)
                 | (Inl _, c5) \<Rightarrow> (Inr Done, c5))
         | NoCandidate \<Rightarrow>
             if in_recovery then
               (if \<not> has_proposals
                then (Inr Done, resume_working (exit_recovery_mode (clear_commit_round c2)))
                else (Inr Done, retry_or_exhaust_recovery c2))
             else no_candidate_outside_recovery E has_proposals c2)"

text \<open>The conversation the applied result is dispatched on.\<close>

definition merged_round ::
  "('g, 'o, 'c, 's) environment \<Rightarrow> bool \<Rightarrow> member_welcome option \<Rightarrow> ('g, 'o, 'c, 's) conversation \<Rightarrow>
   ('g, 'o, 'c, 's) conversation" where
  "merged_round E in_recovery welcome c =
     (let c3 = (if in_recovery then exit_recovery_mode c else c)
      in case welcome of Some w \<Rightarrow> deliver_welcome E w c3 | None \<Rightarrow> c3)"

lemma after_round_Applied:
  assumes "crr_outcome res = Applied r w"
  shows "after_round E rec hp res c =
    (case dispatch_inbound_result E r (merged_round E rec w (record_round E res c)) of
       (o5, c5) \<Rightarrow> (case o5 of Inr outcome \<Rightarrow> Inr outcome | Inl _ \<Rightarrow> Inr Done, c5))"
  using assms unfolding after_round_def merged_round_def Let_def
  by (simp split: prod.split sum.split)

lemma after_round_NoCandidate:
  assumes "crr_outcome res = NoCandidate"
  shows "after_round E rec hp res c =
    (if rec then
       (Inr Done, if \<not> hp then resume_working (exit_recovery_mode (clear_commit_round (record_round E res c)))
                  else retry_or_exhaust_recovery (record_round E res c))
     else no_candidate_outside_recovery E hp (record_round E res c))"
  using assms unfolding after_round_def Let_def by simp

definition freeze_complete ::
  "('g, 'o, 'c, 's) conversation \<Rightarrow> bool" where
  "freeze_complete c =
     (let in_recovery = is_in_recovery_mode c;
          received = fst (commit_candidate_count c);
          all_candidates_in =
            (\<not> in_recovery \<and>
             (case svc_list (cn_stewards c) of
                Some l \<Rightarrow> received \<ge> length (sl_members l) | None \<Rightarrow> False));
          window_elapsed =
            (if in_recovery then
               elapsed_since_anchor (tm_phase_timer (cn_timing c)) (cn_now c)
                 ((case cfg_recovery_auto_commit_delay (cn_config c) of Some d \<Rightarrow> d | None \<Rightarrow> 0) +
                  cfg_retry_window (cn_config c))
             else is_freeze_window_elapsed c)
      in all_candidates_in \<or> window_elapsed)"

definition run_selection ::
  "('g, 'o, 'c, 's) environment \<Rightarrow> ('g, 'o, 'c, 's) conversation \<Rightarrow>
   (conversation_error + dispatch_outcome) \<times> ('g, 'o, 'c, 's) conversation" where
  "run_selection E c =
     (let in_recovery = is_in_recovery_mode c;
          (selection_event, c1) = start_selection c;
          has_proposals = (approved_proposals_count (cn_queues c1) > 0);
          c2 = emit_event (PhaseChange selection_event) c1;
          allow_subset = (in_recovery \<or> slc_allow_subset_candidates (svc_config (cn_stewards c2)))
      in case conv_finalize_commit_round E allow_subset (cn_self_member_id c2) c2 of
           (Inl e, c3) \<Rightarrow>
             (Inr Done, recover_from_finalize_error
                          (emit_event (ErrorEvent ''commit_round_finalize'' (Displayed e)) c3))
         | (Inr result, c3) \<Rightarrow> after_round E in_recovery has_proposals result c3)"

definition advance_freezing ::
  "('g, 'o, 'c, 's) environment \<Rightarrow> ('g, 'o, 'c, 's) conversation \<Rightarrow>
   (conversation_error + dispatch_outcome) \<times> ('g, 'o, 'c, 's) conversation" where
  "advance_freezing E c =
     (let forget = on_timing (\<lambda>t. t\<lparr>tm_last_commit_round_progress := None\<rparr>) in
      if cn_state c \<noteq> Freezing then (Inr Done, forget c)
      else
        let c1 = (if is_in_recovery_mode c then maybe_auto_commit_recovery E c else c);
            (received, expected) = commit_candidate_count c1
        in if \<not> freeze_complete c1 then
             (Inr Done,
              if tm_last_commit_round_progress (cn_timing c1) \<noteq> Some (received, expected)
              then emit_event (CommitRoundProgress received expected)
                     (on_timing (\<lambda>t. t\<lparr>tm_last_commit_round_progress := Some (received, expected)\<rparr>) c1)
              else c1)
           else run_selection E (forget c1))"

section \<open>The drivers\<close>

definition drive_buffered_proposals ::
  "('g, 'o, 'c, 's) environment \<Rightarrow> ('g, 'o, 'c, 's) conversation \<Rightarrow> ('g, 'o, 'c, 's) conversation" where
  "drive_buffered_proposals E c =
     (let disarm = on_timing (\<lambda>t. t\<lparr>tm_buffered_propose_anchor := None\<rparr>) in
      if cn_state c \<noteq> Working \<or> approved_proposals_count (cn_queues c) > 0 \<or>
         actionable_buffered_updates E c = []
      then disarm c
      else if is_epoch_steward E c then drain_buffered_updates E (disarm c)
      else if \<not> is_steward c then c
      else
        case tm_buffered_propose_anchor (cn_timing c) of
          None \<Rightarrow> on_timing (\<lambda>t. t\<lparr>tm_buffered_propose_anchor := Some (cn_now c)\<rparr>) c
        | Some anchor \<Rightarrow>
            if cn_now c < timestamp_add anchor (cfg_backup_takeover_window (cn_config c)) then c
            else drain_buffered_updates E (disarm c))"

definition drive_sync_resend ::
  "('g, 'o, 'c, 's) environment \<Rightarrow> ('g, 'o, 'c, 's) conversation \<Rightarrow>
   (conversation_error + unit) \<times> ('g, 'o, 'c, 's) conversation" where
  "drive_sync_resend E c =
     (let disarm = on_timing (\<lambda>t. t\<lparr>tm_sync_resend_anchor := None\<rparr>) in
      case tm_sync_resend_anchor (cn_timing c) of
        None \<Rightarrow> (Inr (), c)
      | Some anchor \<Rightarrow>
          if is_epoch_steward E c \<or> \<not> is_steward c then (Inr (), disarm c)
          else if cn_now c < timestamp_add anchor (cfg_backup_takeover_window (cn_config c))
          then (Inr (), c)
          else share_conversation_sync E (disarm c))"

definition drive_sync_request ::
  "('g, 'o, 'c, 's) environment \<Rightarrow> ('g, 'o, 'c, 's) conversation \<Rightarrow>
   (conversation_error + unit) \<times> ('g, 'o, 'c, 's) conversation" where
  "drive_sync_request E c =
     (let needs_sync = (svc_list (cn_stewards c) = None \<or>
                        svc_is_exhausted (cn_stewards c) (conv_epoch E c))
      in if \<not> needs_sync \<or> has_election_in_flight (cn_queues c)
         then (Inr (), on_timing (\<lambda>t. t\<lparr>tm_sync_request_anchor := None\<rparr>) c)
         else if (case tm_sync_request_anchor (cn_timing c) of
                    Some anchor \<Rightarrow>
                      cn_now c < timestamp_add anchor (cfg_backup_takeover_window (cn_config c))
                  | None \<Rightarrow> False)
         then (Inr (), c)
         else request_conversation_sync E
                (on_timing (\<lambda>t. t\<lparr>tm_sync_request_anchor := Some (cn_now c)\<rparr>) c))"

definition start_freeze_on_inactivity ::
  "('g, 'o, 'c, 's) environment \<Rightarrow> ('g, 'o, 'c, 's) conversation \<Rightarrow>
   (conversation_error + unit) \<times> ('g, 'o, 'c, 's) conversation" where
  "start_freeze_on_inactivity E c =
     (if has_election_in_flight (cn_queues c) then (Inr (), c)
      else
        let in_recovery = (is_in_recovery_mode c \<or> svc_next_election_round (cn_stewards c) > 0 \<or>
                           tm_reelection_recovered (cn_timing c));
            inactivity = (if in_recovery then cfg_retry_window (cn_config c)
                          else cfg_commit_batch_window (cn_config c))
        in case check_steward_inactivity (approved_proposals_count (cn_queues c)) inactivity c of
             (None, c1) \<Rightarrow> (Inr (), c1)
           | (Some event, c1) \<Rightarrow> on_freeze_entered E event c1)"

definition drive_reelection_retry ::
  "('g, 'o, 'c, 's) environment \<Rightarrow> ('g, 'o, 'c, 's) conversation \<Rightarrow>
   (conversation_error + unit) \<times> ('g, 'o, 'c, 's) conversation" where
  "drive_reelection_retry E c =
     (let disarm = on_timing (\<lambda>t. t\<lparr>tm_reelection_silence_anchor := None\<rparr>) in
      if cn_state c \<noteq> Reelection \<or> has_election_in_flight (cn_queues c) then (Inr (), disarm c)
      else
        case tm_reelection_silence_anchor (cn_timing c) of
          None \<Rightarrow> (Inr (), on_timing (\<lambda>t. t\<lparr>tm_reelection_silence_anchor := Some (cn_now c)\<rparr>) c)
        | Some anchor \<Rightarrow>
            if cn_now c < timestamp_add anchor (cfg_retry_window (cn_config c)) then (Inr (), c)
            else advance_election_retry E (disarm c))"

record poll_outcome =
  po_next_wakeup_in :: "duration option"
  po_leave_requested :: bool

definition poll ::
  "('g, 'o, 'c, 's) environment \<Rightarrow> ('g, 'o, 'c, 's) conversation \<Rightarrow>
   (poll_outcome \<times> ('g, 'o, 'c, 's) conversation) option" where
  "poll E c =
     (case tick_deadlines E c of
        None \<Rightarrow> None
      | Some c1 \<Rightarrow>
          let (dispatched, c2) = advance_freezing E c1;
              leave_requested = (dispatched = Inr LeaveRequested);
              c3 = drive_buffered_proposals E c2;
              c4 = snd (drive_sync_resend E c3);
              c5 = snd (drive_sync_request E c4);
              c6 = snd (start_freeze_on_inactivity E c5);
              c7 = snd (drive_reelection_retry E c6)
          in Some (\<lparr>po_next_wakeup_in = next_wakeup_in c7, po_leave_requested = leave_requested\<rparr>, c7))"

section \<open>Construction\<close>

definition assemble ::
  "('g, 'o, 'c, 's) environment \<Rightarrow> string \<Rightarrow> ('g, 'o) mls_service \<Rightarrow> 's peer_scoring_service \<Rightarrow>
   timestamp \<Rightarrow> bytes \<Rightarrow> conversation_config \<Rightarrow> bool \<Rightarrow>
   conversation_error + ('g, 'o, 'c, 's) conversation" where
  "assemble E conversation_id mls scoring now app_id config is_creation =
     result_then (config_validate config) (\<lambda>_.
     result_then (scoring_config_validate (pss_config scoring)) (\<lambda>_.
       let self_member_id = u32_to_be_bytes (om_own_leaf_index (env_om E) (ms_group mls));
           queues = queues_new conversation_id (cfg_dedup_window config);
           stewards = svc_set_max_retries (cfg_max_reelection_attempts config)
                        (svc_set_conversation_id (string_bytes conversation_id)
                           (svc_empty (cfg_steward_list config)));
           finish = (\<lambda>stewards scoring.
             emit_event (PhaseChange sm_new_as_member)
               (conversation_new conversation_id queues mls scoring stewards
                  (ce_new (env_ce E) (cfg_max_consensus_sessions config)) sm_new_as_member config now
                  self_member_id app_id))
       in if is_creation then
            (case install_list (env_x E) 0 [self_member_id] 1 0 stewards of
               (Inl e, _) \<Rightarrow> Inl e
             | (Inr _, stewards') \<Rightarrow>
                 (case scoring_add_member (env_store E) self_member_id scoring of
                    (Inl e, _) \<Rightarrow> Inl e
                  | (Inr _, scoring') \<Rightarrow> Inr (finish stewards' scoring')))
          else Inr (finish stewards scoring)))"

fun signature_keys_of :: "externals \<Rightarrow> bytes list \<Rightarrow> mls_error + bytes list" where
  "signature_keys_of x [] = Inr []"
| "signature_keys_of x (kp # kps) =
     result_then (signature_key_of_key_package x kp) (\<lambda>k.
     result_then (signature_keys_of x kps) (\<lambda>ks. Inr (k # ks)))"

definition seed_initial_members ::
  "('g, 'o, 'c, 's) environment \<Rightarrow> bytes list \<Rightarrow> ('g, 'o, 'c, 's) conversation \<Rightarrow>
   (conversation_error + unit) \<times> ('g, 'o, 'c, 's) conversation" where
  "seed_initial_members E initial_members c =
     (if initial_members = [] then (Inr (), c)
      else
        case signature_keys_of (env_x E) initial_members of
          Inl e \<Rightarrow> (Inl (Mls e), c)
        | Inr joiner_identities \<Rightarrow>
            try_then (on_service (create_commit_candidate (env_x E) (env_om E)
                        (map AddInput initial_members)) c) (\<lambda>artifacts c1.
            try_then (on_service (merge_own_commit (env_om E)) c1) (\<lambda>delta c2.
            try_then (on_scoring (try_fold (\<lambda>m. scoring_add_member (env_store E) (member_id_of (mbr_index m)))
                        (md_added delta)) c2) (\<lambda>_ c3.
              let epoch = conv_epoch E c3;
                  settled = settled_members (cn_queues c3) (conv_members E c3) epoch;
                  sn = compute_list_size (svc_config (cn_stewards c3)) (length settled)
              in try_then (on_stewards (install_list (env_x E) epoch settled sn 0) c3) (\<lambda>_ c4.
                   (Inr (),
                    case ca_welcome artifacts of
                      Some welcome_bytes \<Rightarrow>
                        deliver_welcome E \<lparr>mw_welcome_bytes = welcome_bytes,
                          mw_conversation_sync_bytes = [], mw_joiner_identities = joiner_identities\<rparr> c4
                    | None \<Rightarrow> c4))))))"

definition create_conversation ::
  "('g, 'o, 'c, 's) environment \<Rightarrow> string \<Rightarrow> 's peer_scoring_service \<Rightarrow> timestamp \<Rightarrow> bytes \<Rightarrow>
   conversation_config \<Rightarrow> bytes list \<Rightarrow> conversation_error + ('g, 'o, 'c, 's) conversation" where
  "create_conversation E conversation_id scoring now app_id config initial_members =
     (case new_as_creator (env_om E) conversation_id of
        Inl e \<Rightarrow> Inl (Mls e)
      | Inr mls \<Rightarrow>
          result_then (assemble E conversation_id mls scoring now app_id config True) (\<lambda>c.
            case seed_initial_members E initial_members c of
              (Inl e, _) \<Rightarrow> Inl e
            | (Inr _, c') \<Rightarrow> Inr c'))"

definition join_conversation ::
  "('g, 'o, 'c, 's) environment \<Rightarrow> (bytes \<Rightarrow> string) \<Rightarrow> bytes \<Rightarrow> bytes \<Rightarrow> 's peer_scoring_service \<Rightarrow>
   timestamp \<Rightarrow> bytes \<Rightarrow> conversation_config \<Rightarrow>
   conversation_error + ('g, 'o, 'c, 's) conversation option" where
  "join_conversation E utf8_lossy welcome_bytes conversation_sync_bytes scoring now app_id config =
     (case new_from_welcome (env_om E) utf8_lossy welcome_bytes of
        Inl e \<Rightarrow> Inl (Mls e)
      | Inr None \<Rightarrow> Inr None
      | Inr (Some mls) \<Rightarrow>
          result_then (assemble E (ms_conversation_id mls) mls scoring now app_id config False) (\<lambda>c.
            case try_then (on_joined E c) (\<lambda>_ c'. apply_welcome_sync E conversation_sync_bytes c') of
              (Inl e, _) \<Rightarrow> Inl e
            | (Inr _, c') \<Rightarrow> Inr (Some c')))"

end
