(* ===== verification/Component_Steps.thy ===== *)
theory Component_Steps
  imports Polling
begin

text \<open>
  The operations through which a conversation changes its queues, its steward list and its score
  table, as one step relation per component, and the proof that a commit round and the decoding
  of a packet are sequences of such steps. Only the outcome of a vote adds to the approved work,
  and only a packet that is a candidate adds to the candidates of others.
\<close>

section \<open>Queues\<close>

text \<open>
  A step is \<open>calm\<close> if it adds nothing to the approved work, and a run of calm steps is \<open>quiet\<close> if it
  also adds no candidate of another member, buffered or stashed.
\<close>

definition calm_step :: "externals \<Rightarrow> conversation_queues \<Rightarrow> conversation_queues \<Rightarrow> bool" where
  "calm_step x q q' \<longleftrightarrow>
     queue_step x q q' \<and> set (q_approved_proposals q') \<subseteq> set (q_approved_proposals q)"

abbreviation calm_steps :: "externals \<Rightarrow> conversation_queues \<Rightarrow> conversation_queues \<Rightarrow> bool" where
  "calm_steps x \<equiv> (calm_step x)\<^sup>*\<^sup>*"

definition remote_candidates :: "conversation_queues \<Rightarrow> commit_candidate set" where
  "remote_candidates q =
     bc_candidate_msg ` {b \<in> set (cb_candidates (q_commit_round q)). \<not> bc_is_local_candidate b} \<union>
     snd ` set (q_early_candidates q)"

definition quiet_steps :: "externals \<Rightarrow> conversation_queues \<Rightarrow> conversation_queues \<Rightarrow> bool" where
  "quiet_steps x q q' \<longleftrightarrow> calm_steps x q q' \<and> remote_candidates q' \<subseteq> remote_candidates q"

inductive queue_evolves :: "externals \<Rightarrow> conversation_queues \<Rightarrow> conversation_queues \<Rightarrow> bool"
  for x where
  calm: "calm_step x q q' \<Longrightarrow> queue_evolves x q q'"
| resolved: "queue_evolves x q (snd (apply_consensus_result x pid approved request q))"

named_theorems quiet_intros

lemma calm_approved: "calm_steps x q q' \<Longrightarrow> set (q_approved_proposals q') \<subseteq> set (q_approved_proposals q)"
  by (induction rule: rtranclp_induct) (auto simp: calm_step_def)

lemma quiet_refl [simp]: "quiet_steps x q q"
  by (simp add: quiet_steps_def)

lemma quiet_trans: "quiet_steps x q q' \<Longrightarrow> quiet_steps x q' q'' \<Longrightarrow> quiet_steps x q q''"
  by (auto simp: quiet_steps_def)

lemma quiet_of_step:
  "queue_step x q q' \<Longrightarrow> set (q_approved_proposals q') \<subseteq> set (q_approved_proposals q) \<Longrightarrow>
     remote_candidates q' \<subseteq> remote_candidates q \<Longrightarrow> quiet_steps x q q'"
  by (auto simp: quiet_steps_def calm_step_def)

lemma bookkeeping_approved:
  "set (q_approved_proposals (apply_membership_delta_bookkeeping e q)) \<subseteq> set (q_approved_proposals q)"
  by (auto simp: apply_membership_delta_bookkeeping_def fold_record_approved fold_forget_approved
      imap_retain_def split: option.split)

lemma bookkeeping_remote: "remote_candidates (apply_membership_delta_bookkeeping e q) = remote_candidates q"
proof -
  have "remote_candidates (fold (record_added_member e) as q0) = remote_candidates q0"
    "remote_candidates (fold forget_removed_member rs q0) = remote_candidates q0" for "as" rs q0
    by (induction "as" arbitrary: q0; simp add: record_added_member_def Let_def remote_candidates_def)
       (induction rs arbitrary: q0; simp add: forget_removed_member_def Let_def drop_approved_removals_for_def
          remote_candidates_def)
  then show ?thesis
    by (simp add: apply_membership_delta_bookkeeping_def remote_candidates_def split: option.split)
qed

lemma quiet_ops [quiet_intros]:
  "quiet_steps x q (snd (drain_approved_proposals q))"
  "quiet_steps x q (drop_approved_removals_for t q)"
  "quiet_steps x q (store_membership_delta d q)"
  "quiet_steps x q (snd (take_membership_delta q))"
  "quiet_steps x q (track_voting_proposal x pid r q)"
  "quiet_steps x q (insert_emergency pid q)"
  "quiet_steps x q (remove_emergency pid q)"
  "quiet_steps x q (insert_committed_hash h q)"
  "quiet_steps x q (snd (record_welcome_broadcast h q))"
  "quiet_steps x q (snd (take_early_candidates e q))"
  "quiet_steps x q (snd (insert_pending_update x r e q))"
  "quiet_steps x q (snd (remove_pending_update k q))"
  "quiet_steps x q (snd (expire_pending_updates e a q))"
  "quiet_steps x q (snd (take_urgent_commit_target q))"
  "quiet_steps x q (mark_consensus_outcome_applied pid q)"
  by (rule quiet_of_step, rule queue_step.intros; auto simp:
      queue_op_defs insert_pending_update_def expire_pending_updates_def imap_retain_def Let_def
      remote_candidates_def split: prod.splits option.splits if_splits)+

lemma quiet_bookkeeping [quiet_intros]: "quiet_steps x q (apply_membership_delta_bookkeeping e q)"
  by (rule quiet_of_step, rule queue_step.intros) (simp_all add: bookkeeping_approved bookkeeping_remote)

lemma quiet_buffer [quiet_intros]:
  "quiet_steps x q (q\<lparr>q_commit_round := snd (buffer_add x c True w j e n (q_commit_round q))\<rparr>)"
  "quiet_steps x q (q\<lparr>q_commit_round := snd (buffer_take e (q_commit_round q))\<rparr>)"
  "quiet_steps x q (q\<lparr>q_commit_round := buffer_clear (q_commit_round q)\<rparr>)"
  by (rule quiet_of_step, rule queue_step.intros; auto simp: buffer_add_def buffer_take_def buffer_clear_def
      remote_candidates_def Let_def)+

lemma quiet_mirror [quiet_intros]: "quiet_steps x q (mirror_proposal x pid req e q)"
  by (cases req rule: removal_of.cases)
     (auto simp: mirror_proposal_def Let_def intro: quiet_trans [OF quiet_ops(5)] quiet_ops
        split: option.split request_payload.split)

section \<open>Candidates of other members\<close>

lemma receive_steps:
  "calm_steps x q (snd (receive_commit_candidate x om mls c q))"
  "remote_candidates (snd (receive_commit_candidate x om mls c q)) \<subseteq> insert c (remote_candidates q)"
proof -
  define buffered where "buffered = (\<lambda>e n. q\<lparr>q_commit_round := snd (buffer_add x c False None [] e n (q_commit_round q))\<rparr>)"
  have "calm_step x q (buffered e n)" "remote_candidates (buffered e n) \<subseteq> insert c (remote_candidates q)" for e n
    by (simp_all add: buffered_def calm_step_def queue_step.intros)
       (auto simp: remote_candidates_def buffer_add_def Let_def)
  moreover have "q_approved_proposals (stash_early_candidate e c n q) = q_approved_proposals q"
    "remote_candidates (stash_early_candidate e c n q) \<subseteq> insert c (remote_candidates q)" for e n
    by (simp add: stash_early_candidate_def Let_def)
       (auto simp: stash_early_candidate_def Let_def remote_candidates_def)
  then have "calm_step x q (stash_early_candidate e c n q)"
    "remote_candidates (stash_early_candidate e c n q) \<subseteq> insert c (remote_candidates q)" for e n
    by (simp_all add: calm_step_def queue_step.intros)
  moreover have "snd (receive_commit_candidate x om mls c q) \<in> {q,
      stash_early_candidate (mls_epoch om mls) c (length (mls_members om mls)) q,
      buffered (mls_epoch om mls) (length (mls_members om mls))}"
    by (simp add: receive_commit_candidate_def Let_def split_beta buffered_def)
  ultimately show "calm_steps x q (snd (receive_commit_candidate x om mls c q))"
    "remote_candidates (snd (receive_commit_candidate x om mls c q)) \<subseteq> insert c (remote_candidates q)"
    by (elim insertE emptyE; simp add: subset_insertI r_into_rtranclp)+
qed

lemma quiet_replay [quiet_intros]: "quiet_steps x q (snd (replay_early_candidates x om mls q))"
proof -
  let ?f = "\<lambda>c s. try_then (receive_commit_candidate x om mls c s) (\<lambda>_ s'. (Inr (), s'))"
  let ?early = "take_early_candidates (mls_epoch om mls) q"
  have step: "snd (?f c s) = snd (receive_commit_candidate x om mls c s)" for c s
    by (cases "receive_commit_candidate x om mls c s"; cases "fst (receive_commit_candidate x om mls c s)") auto
  have "quiet_steps x q (snd ?early)" by (rule quiet_ops)
  then have "calm_steps x q (snd (try_fold ?f cs (snd ?early))) \<and>
      remote_candidates (snd (try_fold ?f cs (snd ?early))) \<subseteq> set cs \<union> remote_candidates q" for cs
  proof (induction cs rule: rev_induct)
    case (snoc c cs)
    let ?r = "try_fold ?f cs (snd ?early)"
    have IH: "calm_steps x q (snd ?r)" "remote_candidates (snd ?r) \<subseteq> set cs \<union> remote_candidates q"
      using snoc by auto
    show ?case
    proof (cases "fst ?r")
      case (Inl e)
      then have "try_fold ?f (cs @ [c]) (snd ?early) = ?r"
        by (cases ?r) (simp add: try_fold_append)
      then show ?thesis using IH by auto
    next
      case (Inr u)
      then have "snd (try_fold ?f (cs @ [c]) (snd ?early)) = snd (receive_commit_candidate x om mls c (snd ?r))"
        using step [of c "snd ?r"] by (cases ?r; cases "?f c (snd ?r)"; cases "fst (?f c (snd ?r))")
          (simp_all add: try_fold_append)
      moreover have "calm_steps x q (snd (receive_commit_candidate x om mls c (snd ?r)))"
        using IH(1) receive_steps(1) by (rule rtranclp_trans)
      ultimately show ?thesis using IH(2) receive_steps(2) [of x om mls c "snd ?r"] by auto
    qed
  qed (auto simp: quiet_steps_def)
  moreover have "set (fst ?early) \<subseteq> remote_candidates q"
    by (auto simp: take_early_candidates_def remote_candidates_def)
  ultimately show ?thesis
    by (fastforce simp: replay_early_candidates_def split_beta quiet_steps_def)
qed

section \<open>The commit round on the queues\<close>

lemma on_mls_queues [simp]: "fst (snd (on_mls f st)) = fst st"
  by (simp add: on_mls_def split: prod.split sum.split)

lemma quiet_try:
  assumes "quiet_steps x q (fst (snd r))"
    and "\<And>v d. r = (Inr v, d) \<Longrightarrow> quiet_steps x q (fst d) \<Longrightarrow> quiet_steps x q (fst (snd (k v d)))"
  shows "quiet_steps x q (fst (snd (try_then r k)))"
proof (cases r rule: prod.exhaust)
  case (Pair a d)
  with assms show ?thesis by (cases a) auto
qed

lemma quiet_finalize_batch: "quiet_steps x q (snd (finalize_committed_batch h e q))"
proof -
  let ?q1 = "apply_membership_delta_bookkeeping e (insert_committed_hash h q)"
  let ?q2 = "snd (take_urgent_commit_target ?q1)"
  have "quiet_steps x q ?q1"
    by (rule quiet_trans [OF _ quiet_bookkeeping]) (rule quiet_ops)
  then have "quiet_steps x q ?q2" by (rule quiet_trans) (rule quiet_ops)
  then show ?thesis
    by (auto simp: finalize_committed_batch_def Let_def split_beta intro: quiet_trans quiet_ops
        split: option.split)
qed

lemma quiet_merged:
  "quiet_steps x q (snd (finalize_committed_batch h e (store_membership_delta delta q)))"
  by (rule quiet_trans [OF _ quiet_finalize_batch]) (rule quiet_ops)

lemma quiet_apply_candidate:
  "quiet_steps x (fst st) (fst (snd (apply_local_candidate om chosen ctx st)))"
  "quiet_steps x (fst st) (fst (snd (apply_incoming_candidate y om svc chosen ctx st)))"
proof -
  show "quiet_steps x (fst st) (fst (snd (apply_local_candidate om chosen ctx st)))"
    unfolding apply_local_candidate_def
    by (rule quiet_try) (auto simp: split_beta Let_def intro: quiet_trans [OF _ quiet_merged])
  have reject: "fst (snd (reject_staged om p (fst st, mls))) = fst st" for p mls
    by (cases "on_mls (discard_staged_commit om) (fst st, mls)";
        cases "fst (on_mls (discard_staged_commit om) (fst st, mls))")
       (auto simp: reject_staged_def dest: arg_cong [where f = "\<lambda>r. fst (snd r)"])
  have merge: "quiet_steps x (fst st) (fst (snd (try_then (on_mls (discard_own_commit om) (fst st, mls1))
      (\<lambda>_ st2. try_then (on_mls (merge_staged_commit om) st2) (\<lambda>delta (q, mls).
         case finalize_committed_batch h e (store_membership_delta delta q) of
           (batch, q') \<Rightarrow> (Inr (Terminal (Applied r None) s batch), (q', mls)))))))" for mls1 h e r s
    by (rule quiet_try, simp, rule quiet_try, simp)
       (auto simp: split_beta Let_def intro: quiet_trans [OF _ quiet_merged])
  show "quiet_steps x (fst st) (fst (snd (apply_incoming_candidate y om svc chosen ctx st)))"
    unfolding apply_incoming_candidate_def
    by (auto simp: reject split: prod.split sum.split staging_outcome.split option.split intro: merge)
qed

lemma quiet_discard: "fst (snd (discard_and_finish om ops st)) = fst st"
  by (cases "on_mls (discard_own_commit om) st"; cases "fst (on_mls (discard_own_commit om) st)")
     (auto simp: discard_and_finish_def dest: arg_cong [where f = "\<lambda>r. fst (snd r)"])

lemma quiet_priority_order:
  fixes st :: "('g, 'o) round_state"
  shows "quiet_steps x (fst st) (fst (snd (apply_in_priority_order x om svc ctx self cs ops st)))"
proof (induction cs arbitrary: ops st)
  case Nil
  then show ?case by (simp add: quiet_discard)
next
  case (Cons chosen remaining)
  show ?case
    unfolding apply_in_priority_order.simps
  proof (rule quiet_try)
    fix r and d :: "('g, 'o) round_state" assume "quiet_steps x (fst st) (fst d)"
    then show "quiet_steps x (fst st) (fst (snd (case r of
        Terminal outcome committer batch \<Rightarrow>
          (Inr \<lparr>crr_outcome = outcome,
                crr_score_ops = record_winner_scores ops committer self ctx remaining svc,
                crr_committed_batch = batch\<rparr>, d)
      | DropCandidate op \<Rightarrow> apply_in_priority_order x om svc ctx self remaining
          (ops @ (case op of Some o' \<Rightarrow> [o'] | None \<Rightarrow> [])) d)))"
      by (auto split: candidate_outcome.split intro: quiet_trans [OF _ Cons.IH])
  qed (simp add: quiet_apply_candidate)
qed

lemma quiet_finalize_round [quiet_intros]:
  "quiet_steps x (fst st) (fst (snd (finalize_commit_round x om svc rec sub self st)))"
proof -
  let ?e = "mls_epoch om (snd st)"
  have "quiet_steps x (fst st) ((fst st)\<lparr>q_commit_round := snd (buffer_take ?e (q_commit_round (fst st)))\<rparr>)"
    by (rule quiet_buffer)
  then have "quiet_steps x (fst st)
      (fst ((fst st)\<lparr>q_commit_round := snd (buffer_take ?e (q_commit_round (fst st)))\<rparr>, snd st))"
    by simp
  then show ?thesis
    by (auto simp: finalize_commit_round_def Let_def split_beta quiet_discard
        intro: quiet_trans [OF _ quiet_priority_order])
qed

text \<open>Only a packet that is a candidate adds to the candidates of others.\<close>

lemma decode_steps:
  "calm_steps x (fst st) (fst (snd (decode_inbound_payload x om payload st)))"
  "remote_candidates (fst (snd (decode_inbound_payload x om payload st))) \<subseteq> remote_candidates (fst st) \<union>
     {c. x_decode_app x payload = Inr (Some (CommitCandidatePayload c))}"
proof -
  have enc: "fst (snd (decode_encrypted_payload x om payload st)) = fst st"
    by (cases "on_mls (decrypt_application_only om payload) st";
        cases "fst (on_mls (decrypt_application_only om payload) st)")
       (auto simp: decode_encrypted_payload_def split: option.split sum.split
          dest: arg_cong [where f = "\<lambda>r. fst (snd r)"])
  have receive: "receive_commit_candidate x om mls c (fst st) = (r, q) \<Longrightarrow>
      calm_steps x (fst st) q \<and> remote_candidates q \<subseteq> insert c (remote_candidates (fst st))" for mls c r q
    using receive_steps(1) [of x "fst st" om mls c] receive_steps(2) [of x om mls c "fst st"] by simp
  have fresh: "record_welcome_broadcast h (fst st) = (b, q) \<Longrightarrow>
      calm_steps x (fst st) q \<and> remote_candidates q \<subseteq> remote_candidates (fst st)" for h b q
    using quiet_ops(9) [of x "fst st" h] by (simp add: quiet_steps_def)
  show "calm_steps x (fst st) (fst (snd (decode_inbound_payload x om payload st)))"
    by (auto simp: decode_inbound_payload_def enc split: sum.split option.split app_payload.split prod.split
        bool.split dest: receive fresh)
  show "remote_candidates (fst (snd (decode_inbound_payload x om payload st))) \<subseteq> remote_candidates (fst st) \<union>
     {c. x_decode_app x payload = Inr (Some (CommitCandidatePayload c))}"
    by (auto simp: decode_inbound_payload_def enc split: sum.split option.split app_payload.split prod.split
        bool.split dest!: receive fresh)
qed

section \<open>Stewards and scores\<close>

inductive steward_step :: "externals \<Rightarrow> steward_list_service \<Rightarrow> steward_list_service \<Rightarrow> bool" for x where
  installed: "steward_step x svc (snd (install_list x epoch pool sn r svc))"
| retried: "steward_step x svc (bump_retry svc)"
| succeeded: "steward_step x svc (reset_retry svc)"
| reconfigured: "steward_list_config_new lo hi = Inr config \<Longrightarrow>
    steward_step x svc (svc_set_config (config\<lparr>slc_allow_subset_candidates := b\<rparr>) svc)"
| relimited: "steward_step x svc (svc_set_max_retries m svc)"

inductive score_step ::
  "'s score_storage_ops \<Rightarrow> 's peer_scoring_service \<Rightarrow> 's peer_scoring_service \<Rightarrow> bool" for S where
  scored: "score_step S sc (snd (apply_ops S ops sc))"
| adopted: "score_step S sc (snd (apply_snapshot S snap sc))"
| synced: "score_step S sc (snd (sync_scoring_members S ms sc))"
| tracked: "score_step S sc (snd (scoring_add_member S m sc))"
| untracked: "score_step S sc (snd (scoring_remove_member S m sc))"
| rethresholded: "score_step S sc (set_threshold t sc)"
| redefaulted: "score_step S sc (snd (set_default_score S d sc))"

end
