(* ===== verification/Evolution.thy ===== *)
theory Evolution
  imports Component_Steps
begin

text \<open>
  What holds of a conversation before an operation and after it. Each locale fixes a property
  and asks that the primitive updates keep it; the operations built from them then keep it too.
  \<open>still_invariant\<close> has the operations on queues, services, events and traffic that open no
  proposal, \<open>base_invariant\<close> adds those that do,
  \<open>decoding_invariant\<close> adds the reading of a packet, \<open>traffic_invariant\<close> the calls into peers'
  consensus sessions, \<open>lifecycle_invariant\<close> the state machine and the recovery mode,
  \<open>exchange_invariant\<close> combines the last two and \<open>packet_invariant\<close> all of them;
  \<open>outcome_invariant\<close> has the resolution of votes, \<open>poll_invariant\<close> a poll, and \<open>whole_invariant\<close>
  every operation.
\<close>

section \<open>Operations that keep the lifecycle\<close>

locale still_invariant =
  fixes E :: "('g, 'o, 'c, 's) environment" and P :: "('g, 'o, 'c, 's) conversation \<Rightarrow> bool"
  assumes inv_queue_steps:
      "P c \<Longrightarrow> quiet_steps (env_x E) (cn_queues c) q \<Longrightarrow> P (c\<lparr>cn_queues := q\<rparr>)"
    and inv_steward_step: "P c \<Longrightarrow> steward_step (env_x E) (cn_stewards c) svc \<Longrightarrow> P (c\<lparr>cn_stewards := svc\<rparr>)"
    and inv_score_step: "P c \<Longrightarrow> score_step (env_store E) (cn_scoring c) sc \<Longrightarrow> P (c\<lparr>cn_scoring := sc\<rparr>)"
    and inv_mls [simp]: "P c \<Longrightarrow> P (c\<lparr>cn_mls := mls\<rparr>)"
    and inv_events [simp]: "P c \<Longrightarrow> P (c\<lparr>cn_events := es\<rparr>)"
    and inv_broadcast [simp]: "P c \<Longrightarrow> P (broadcast b c)"
    and inv_timing: "P c \<Longrightarrow> tm_phase_timer t = tm_phase_timer (cn_timing c) \<Longrightarrow> P (c\<lparr>cn_timing := t\<rparr>)"
begin

lemma inv_try:
  assumes "P (snd r)" and "\<And>v d. r = (Inr v, d) \<Longrightarrow> P d \<Longrightarrow> P (snd (k v d))"
  shows "P (snd (try_then r k))"
proof (cases r)
  case (Pair a d)
  with assms show ?thesis by (cases a) auto
qed

lemma inv_fold:
  assumes "P c" and "\<And>v d. P d \<Longrightarrow> P (f v d)"
  shows "P (fold f vs c)"
  using assms by (induction vs arbitrary: c) simp_all

lemma inv_snd: "r = (a, d) \<Longrightarrow> P (snd r) \<Longrightarrow> P d"
  by simp

text \<open>The components, over any number of their steps.\<close>

lemma inv_queues [simp]:
  "P c \<Longrightarrow> P (on_queues (track_voting_proposal (env_x E) pid r) c)"
  "P c \<Longrightarrow> P (on_queues (insert_emergency pid) c)"
  "P c \<Longrightarrow> P (on_queues (remove_emergency pid) c)"
  "P c \<Longrightarrow> P (on_queues (mark_consensus_outcome_applied pid) c)"
  "P c \<Longrightarrow> P (on_queues (\<lambda>q. snd (insert_pending_update (env_x E) r e q)) c)"
  "P c \<Longrightarrow> P (on_queues (\<lambda>q. snd (remove_pending_update k q)) c)"
  "P c \<Longrightarrow> P (on_queues (\<lambda>q. snd (expire_pending_updates e a q)) c)"
  "P c \<Longrightarrow> P (on_queues (mirror_proposal (env_x E) pid r e) c)"
  "P c \<Longrightarrow> P (clear_commit_round c)"
  unfolding on_queues_def clear_commit_round_def
  by (erule inv_queue_steps, rule quiet_intros)+

lemma inv_buffered [simp]:
  "P c \<Longrightarrow> q = cn_queues c \<Longrightarrow> P (on_queues (\<lambda>q'. q'\<lparr>q_commit_round :=
     snd (buffer_add (env_x E) cand True w j e n (q_commit_round q))\<rparr>) c)"
  unfolding on_queues_def by (erule inv_queue_steps) (simp add: quiet_buffer)

lemma inv_taken_delta [simp]: "P c \<Longrightarrow> P (c\<lparr>cn_queues := snd (take_membership_delta (cn_queues c))\<rparr>)"
  by (erule inv_queue_steps) (rule quiet_intros)

lemma inv_stewards [simp]:
  "P c \<Longrightarrow> P (snd (on_stewards (install_list (env_x E) epoch pool sn r) c))"
  "P c \<Longrightarrow> P (c\<lparr>cn_stewards := bump_retry (cn_stewards c)\<rparr>)"
  "P c \<Longrightarrow> P (c\<lparr>cn_stewards := reset_retry (cn_stewards c)\<rparr>)"
  "P c \<Longrightarrow> P (c\<lparr>cn_stewards := svc_set_max_retries m (cn_stewards c)\<rparr>)"
  by (simp_all add: on_stewards_def split_beta inv_steward_step steward_step.intros)

lemma inv_scoring_steps:
  assumes "P c" and "(score_step (env_store E))\<^sup>*\<^sup>* (cn_scoring c) sc"
  shows "P (c\<lparr>cn_scoring := sc\<rparr>)"
  using assms(2)
proof (induction rule: rtranclp_induct)
  case (step sc sc')
  then show ?case using inv_score_step [of "c\<lparr>cn_scoring := sc\<rparr>" sc'] by simp
qed (use assms(1) in simp)

lemma inv_scoring_fold:
  assumes "P c" and "\<And>m sc. score_step (env_store E) sc (snd (f m sc))"
  shows "P (snd (on_scoring (try_fold f ms) c))"
proof -
  have "(score_step (env_store E))\<^sup>*\<^sup>* (cn_scoring c) (snd (try_fold f ms (cn_scoring c)))"
    by (rule try_fold_invariant) (use assms(2) in \<open>auto intro: rtranclp.rtrancl_into_rtrancl\<close>)
  then show ?thesis using inv_scoring_steps [OF assms(1)] by (simp add: on_scoring_def split_beta)
qed

lemma inv_scoring [simp]:
  "P c \<Longrightarrow> P (snd (on_scoring (apply_ops (env_store E) ops) c))"
  "P c \<Longrightarrow> P (snd (on_scoring (apply_snapshot (env_store E) snap) c))"
  "P c \<Longrightarrow> P (snd (on_scoring (sync_scoring_members (env_store E) ms) c))"
  "P c \<Longrightarrow> P (snd (on_scoring (set_default_score (env_store E) d) c))"
  "P c \<Longrightarrow> P (snd (on_scoring (try_fold (\<lambda>m. scoring_add_member (env_store E) (g m)) added) c))"
  "P c \<Longrightarrow> P (snd (on_scoring (try_fold (\<lambda>m. scoring_remove_member (env_store E) (h m)) removed) c))"
  by (simp_all add: inv_scoring_fold score_step.intros)
     (simp_all add: on_scoring_def split_beta inv_score_step score_step.intros)

lemma inv_service [simp]: "P c \<Longrightarrow> P (snd (on_service fm c))"
  by (simp add: on_service_def split: prod.split sum.split)

lemma inv_rounds [simp]:
  "P c \<Longrightarrow> P (snd (conv_finalize_commit_round E b m c))"
  "P c \<Longrightarrow> P (snd (conv_replay_early_candidates E c))"
proof -
  have both: "P c \<Longrightarrow> quiet_steps (env_x E) (cn_queues c) q \<Longrightarrow> P (c\<lparr>cn_queues := q, cn_mls := mls\<rparr>)" for q mls
    using inv_mls [OF inv_queue_steps, of c q mls] by simp
  show "P c \<Longrightarrow> P (snd (conv_finalize_commit_round E b m c))"
    using quiet_finalize_round [of "env_x E" "(cn_queues c, cn_mls c)"]
    by (auto simp: conv_finalize_commit_round_def on_round_def split_beta intro!: both)
  show "P c \<Longrightarrow> P (snd (conv_replay_early_candidates E c))"
    by (auto simp: conv_replay_early_candidates_def split_beta intro!: inv_queue_steps quiet_replay)
qed

text \<open>The operations built from them.\<close>

lemma inv_basic [simp]:
  "P c \<Longrightarrow> P (emit_event e c)"
  "P c \<Longrightarrow> P (register_auto_vote p d v c)"
  "P c \<Longrightarrow> P (cancel_auto_vote p c)"
  "P c \<Longrightarrow> P (cancel_all_auto_votes c)"
  "P c \<Longrightarrow> P (register_consensus_timeout p d c)"
  "P c \<Longrightarrow> P (unregister_consensus_timeout p c)"
  "P c \<Longrightarrow> P (snd (drain_events c))"
  by (simp_all add: emit_event_def register_auto_vote_def
      cancel_auto_vote_def cancel_all_auto_votes_def register_consensus_timeout_def
      unregister_consensus_timeout_def on_timing_def inv_timing drain_events_def)

lemma inv_anchors [simp]:
  "P c \<Longrightarrow> P (on_timing (\<lambda>t. t\<lparr>tm_last_commit_round_progress := a\<rparr>) c)"
  "P c \<Longrightarrow> P (on_timing (\<lambda>t. t\<lparr>tm_buffered_propose_anchor := b\<rparr>) c)"
  "P c \<Longrightarrow> P (on_timing (\<lambda>t. t\<lparr>tm_sync_resend_anchor := b\<rparr>) c)"
  "P c \<Longrightarrow> P (on_timing (\<lambda>t. t\<lparr>tm_sync_request_anchor := b\<rparr>) c)"
  "P c \<Longrightarrow> P (on_timing (\<lambda>t. t\<lparr>tm_reelection_silence_anchor := b\<rparr>) c)"
  "P c \<Longrightarrow> P (on_timing (\<lambda>t. t\<lparr>tm_reelection_recovered := r\<rparr>) c)"
  "P c \<Longrightarrow> P (on_timing (\<lambda>t. t\<lparr>tm_pending_auto_votes := fa t, tm_pending_consensus_timeouts := fb t\<rparr>) c)"
  by (simp_all add: on_timing_def inv_timing)

lemma inv_emit_score_changes [simp]: "P c \<Longrightarrow> P (emit_score_changes changes c)"
  unfolding emit_score_changes_def by (erule inv_fold) simp

lemma inv_scores [simp]:
  "P c \<Longrightarrow> P (snd (apply_score_ops E ops c))"
  "P c \<Longrightarrow> P (snd (apply_score_snapshot E snap c))"
  unfolding apply_score_ops_def apply_score_snapshot_def
  by (rule inv_try; simp)+

lemma inv_send [simp]: "P c \<Longrightarrow> P (snd (send_app_message E msg c))"
  unfolding send_app_message_def by (rule inv_try) simp_all

lemma inv_candidate [simp]:
  "P c \<Longrightarrow> P (snd (build_local_candidate E m c))"
  "P c \<Longrightarrow> P (snd (mint_and_broadcast_candidate E c))"
proof -
  show a: "P c \<Longrightarrow> P (snd (build_local_candidate E m c))" for m
    by (simp add: build_local_candidate_def Let_def inv_try split: sum.splits prod.splits)
  show "P c \<Longrightarrow> P (snd (mint_and_broadcast_candidate E c))"
    by (simp add: mint_and_broadcast_candidate_def a inv_try split: option.splits)
qed

lemma inv_freeze_entered [simp]: "P c \<Longrightarrow> P (snd (on_freeze_entered E e c))"
  by (auto simp: on_freeze_entered_def Let_def split_beta split: sum.splits)

lemma inv_recovery_intents [simp]:
  "P c \<Longrightarrow> P (snd (commit_in_recovery E c))"
  "P c \<Longrightarrow> P (snd (resend_commit E c))"
  by (simp_all add: commit_in_recovery_def resend_commit_def split: option.splits)

lemma inv_sync_out [simp]:
  "P c \<Longrightarrow> P (snd (build_conversation_sync_payload E c))"
  "P c \<Longrightarrow> P (snd (share_conversation_sync E c))"
proof -
  show a: "P c \<Longrightarrow> P (snd (build_conversation_sync_payload E c))"
    by (simp add: build_conversation_sync_payload_def inv_try split: sum.splits option.splits)
  show "P c \<Longrightarrow> P (snd (share_conversation_sync E c))"
    unfolding share_conversation_sync_def by (rule inv_try) (simp_all add: a split: option.splits)
qed

lemma inv_self_leave [simp]: "P c \<Longrightarrow> P (prepare_self_leave E c)"
  by (simp add: prepare_self_leave_def)

lemma inv_emit_change [simp]: "P c \<Longrightarrow> P (emit_phase_change t c)"
  by (simp add: emit_phase_change_def split: option.splits)

lemma inv_auto_commit [simp]: "P c \<Longrightarrow> P (maybe_auto_commit_recovery E c)"
  by (simp add: maybe_auto_commit_recovery_def split: option.splits)

lemma inv_record_round [simp]: "P c \<Longrightarrow> P (record_round E res c)"
  by (auto simp: record_round_def Let_def split_beta split: sum.splits)

end

text \<open>With the opening of proposals.\<close>

locale base_invariant = still_invariant E P
  for E :: "('g, 'o, 'c, 's) environment" and P :: "('g, 'o, 'c, 's) conversation \<Rightarrow> bool" +
  assumes inv_config [simp]: "P c \<Longrightarrow> P (c\<lparr>cn_config := cfg\<rparr>)"
    and inv_create [simp]:
      "P c \<Longrightarrow> P (snd (on_engine (ce_create_proposal (env_ce E) a b d n s l tmo now) c))"
    and inv_cast_bundled [simp]:
      "P c \<Longrightarrow> P (snd (on_engine (ce_cast_vote_and_get_proposal (env_ce E) a p v now) c))"
begin

lemma inv_submit [simp]: "P c \<Longrightarrow> P (snd (submit_proposal E r p c))"
  unfolding submit_proposal_def by (rule inv_try) simp_all

lemma inv_initiate_proposal [simp]: "P c \<Longrightarrow> P (snd (initiate_proposal E request cv c))"
proof (cases "check_proposal_allowed E c (proposal_kind_of request)")
  case (Inr voters)
  then show "P c \<Longrightarrow> ?thesis"
    unfolding initiate_proposal_def Let_def
    by (cases cv) (simp_all add: inv_try split_beta)
qed (simp add: initiate_proposal_def)

lemma inv_elections [simp]:
  "P c \<Longrightarrow> P (snd (initiate_steward_election E r c))"
  "P c \<Longrightarrow> P (snd (reconcile_steward_list E c))"
  by (simp_all add: initiate_steward_election_def reconcile_steward_list_def Let_def inv_try
      split: sum.splits election_decision.splits)

lemma inv_housekeeping [simp]:
  "P c \<Longrightarrow> P (snd (steward_list_housekeeping E c))"
  "P c \<Longrightarrow> P (snd (conv_sync_scoring_members E ms c))"
  by (simp_all add: steward_list_housekeeping_def conv_sync_scoring_members_def inv_try)

lemma inv_emergencies [simp]:
  "P c \<Longrightarrow> P (snd (request_recovery E c))"
  "P c \<Longrightarrow> P (snd (propose_score_removal E m c))"
  by (simp_all add: request_recovery_def propose_score_removal_def split: sum.splits option.splits)

lemma inv_advance_retry [simp]: "P c \<Longrightarrow> P (snd (advance_election_retry E c))"
  by (auto simp: advance_election_retry_def Let_def split_beta split: sum.splits)

lemma inv_buffered_updates [simp]:
  "P c \<Longrightarrow> P (snd (handle_incoming_update_request E r c))"
  "P c \<Longrightarrow> P (drain_buffered_updates E c)"
  "P c \<Longrightarrow> P (process_buffered_updates E c)"
  by (simp_all add: handle_incoming_update_request_def process_buffered_updates_def
      drain_buffered_updates_def Let_def inv_fold)

lemma inv_intents [simp]:
  "P c \<Longrightarrow> P (snd (send_message E b c))"
  "P c \<Longrightarrow> P (snd (request_conversation_sync E c))"
  "P c \<Longrightarrow> P (snd (propose_add E b v c))"
  "P c \<Longrightarrow> P (snd (add_member E b c))"
  "P c \<Longrightarrow> P (snd (sponsor_member E b c))"
  "P c \<Longrightarrow> P (snd (remove_member E h c))"
  by (simp_all add: send_message_def request_conversation_sync_def propose_add_def add_member_def
      sponsor_member_def remove_member_def split: sum.splits option.splits)

lemma inv_refresh [simp]: "P c \<Longrightarrow> P (refresh_stewards_after_removal E t c)"
  by (simp add: refresh_stewards_after_removal_def)

lemma inv_reconcile_membership [simp]: "P c \<Longrightarrow> P (snd (reconcile_membership_after_commit E c))"
  by (auto simp: reconcile_membership_after_commit_def Let_def split_beta intro!: inv_try)

lemma inv_sync_in [simp]:
  "P c \<Longrightarrow> P (snd (apply_conversation_sync_to_entry E sy c))"
  "P c \<Longrightarrow> P (snd (on_conversation_sync E sy c))"
  "P c \<Longrightarrow> P (snd (on_conversation_sync_request E c))"
proof -
  show a: "P c \<Longrightarrow> P (snd (apply_conversation_sync_to_entry E sy c))" for c
  proof (cases "steward_list_config_new (unat (sy_sn_min sy)) (unat (sy_sn_max sy))")
    case (Inr config)
    have upd: "P (d\<lparr>cn_stewards := svc_set_max_retries m (cn_stewards d), cn_scoring := set_threshold t (cn_scoring d)\<rparr>)"
      if "P d" for m t d
      using inv_score_step [of "d\<lparr>cn_stewards := svc_set_max_retries m (cn_stewards d)\<rparr>" "set_threshold t (cn_scoring d)"]
        inv_stewards(4) [OF that] by (simp add: score_step.rethresholded)
    have cfg: "P (d\<lparr>cn_stewards := svc_set_config (config\<lparr>slc_allow_subset_candidates := b\<rparr>) (cn_stewards d)\<rparr>)"
      if "P d" for b d
      using inv_steward_step [OF that] steward_step.reconfigured [OF Inr] by blast
    show "P c \<Longrightarrow> ?thesis"
      by (simp add: apply_conversation_sync_to_entry_def Inr Let_def inv_try upd cfg)
  qed (simp add: apply_conversation_sync_to_entry_def)
  show "P c \<Longrightarrow> P (snd (on_conversation_sync E sy c))"
    by (simp add: on_conversation_sync_def Let_def inv_try a split: sum.splits option.splits bool.splits)
  show "P c \<Longrightarrow> P (snd (on_conversation_sync_request E c))"
    by (simp add: on_conversation_sync_request_def)
qed

lemma inv_deliver_welcome [simp]: "P c \<Longrightarrow> P (deliver_welcome E w c)"
proof -
  have "P c \<Longrightarrow> P (snd (try_then (reconcile_steward_list E c) (\<lambda>_ c'. build_conversation_sync_payload E c')))"
    by (simp add: inv_try)
  then show "P c \<Longrightarrow> ?thesis" by (auto simp: deliver_welcome_def Let_def split_beta split: sum.splits)
qed

lemma inv_drivers [simp]:
  "P c \<Longrightarrow> P (drive_buffered_proposals E c)"
  "P c \<Longrightarrow> P (snd (drive_sync_resend E c))"
  "P c \<Longrightarrow> P (snd (drive_sync_request E c))"
  "P c \<Longrightarrow> P (snd (drive_reelection_retry E c))"
  by (simp_all add: drive_buffered_proposals_def drive_sync_resend_def drive_sync_request_def
      drive_reelection_retry_def Let_def split: option.splits)

lemma inv_joining [simp]:
  "P c \<Longrightarrow> P (snd (seed_initial_members E ms c))"
  "P c \<Longrightarrow> P (snd (on_joined E c))"
  by (simp_all add: seed_initial_members_def on_joined_def Let_def inv_try
      split: sum.splits option.splits)

lemma inv_merged_round:
  "P (if rec then exit_recovery_mode c else c) \<Longrightarrow> P (merged_round E rec w c)"
  by (cases rec) (simp_all add: merged_round_def Let_def split: option.split)

end

section \<open>Reading a packet\<close>

locale decoding_invariant = base_invariant E P
  for E :: "('g, 'o, 'c, 's) environment" and P :: "('g, 'o, 'c, 's) conversation \<Rightarrow> bool" +
  assumes inv_calm_steps:
      "P c \<Longrightarrow> calm_steps (env_x E) (cn_queues c) q \<Longrightarrow> P (c\<lparr>cn_queues := q\<rparr>)"
begin

lemma inv_decode [simp]: "P c \<Longrightarrow> P (snd (decode_inbound E payload c))"
  using inv_mls [OF inv_calm_steps [of c], OF _ decode_steps(1) [of "env_x E" "(cn_queues c, cn_mls c)", simplified]]
  by (simp add: decode_inbound_def on_round_def split_beta)

end

section \<open>Operations that reach peers' sessions\<close>

locale traffic_invariant = base_invariant E P
  for E :: "('g, 'o, 'c, 's) environment" and P :: "('g, 'o, 'c, 's) conversation \<Rightarrow> bool" +
  assumes inv_cast [simp]: "P c \<Longrightarrow> P (snd (on_engine (ce_cast_vote (env_ce E) a p v now) c))"
    and inv_peer_vote [simp]:
      "P c \<Longrightarrow> P (snd (on_engine (ce_process_incoming_vote (env_ce E) a pv now) c))"
    and inv_peer_proposal [simp]:
      "P c \<Longrightarrow> P (snd (on_engine (ce_process_incoming_proposal (env_ce E) a pp now) c))"
    and inv_timeout [simp]:
      "P c \<Longrightarrow> P (snd (on_engine (ce_handle_consensus_timeout (env_ce E) a p now) c))"
begin

lemma inv_votes [simp]:
  "P c \<Longrightarrow> P (snd (broadcast_vote E p v c))"
  "P c \<Longrightarrow> P (snd (cast_manual_vote E p v c))"
proof -
  show vote: "P c \<Longrightarrow> P (snd (broadcast_vote E p v c))" for c
    unfolding broadcast_vote_def by (rule inv_try) simp_all
  show "P c \<Longrightarrow> P (snd (cast_manual_vote E p v c))"
    by (simp add: cast_manual_vote_def vote)
qed

lemma inv_forward_vote [simp]: "P c \<Longrightarrow> P (snd (forward_incoming_vote E v c))"
proof -
  have "snd (forward_incoming_vote E v c) =
      snd (on_engine (ce_process_incoming_vote (env_ce E) (cn_id c) v (now_secs c)) c)"
    by (simp add: forward_incoming_vote_def split: prod.splits sum.splits conversation_error.splits
        consensus_error.splits)
  then show "P c \<Longrightarrow> ?thesis" by simp
qed

lemma inv_resolve [simp]: "P c \<Longrightarrow> P (resolve_on_timeout E p c)"
  by (simp add: resolve_on_timeout_def Let_def)

lemma inv_submit_self_leave [simp]: "P c \<Longrightarrow> P (snd (submit_self_leave_proposal E p c))"
proof (cases "ce_build_vote (env_ce E) (cn_consensus c) (self_leave_proposal E c p) True (now_secs c)")
  case (Inr yes_vote)
  let ?signed = "(self_leave_proposal E c p)\<lparr>cp_votes := cp_votes (self_leave_proposal E c p) @ [yes_vote]\<rparr>"
  have "snd (submit_self_leave_proposal E p c) =
      snd (on_engine (ce_process_incoming_proposal (env_ce E) (cn_id c) ?signed (now_secs c)) c)"
    using Inr by (simp add: submit_self_leave_proposal_def Let_def split: prod.splits sum.splits
        conversation_error.splits consensus_error.splits)
  then show "P c \<Longrightarrow> ?thesis" by simp
qed (simp add: submit_self_leave_proposal_def)

lemma inv_leave [simp]:
  "P c \<Longrightarrow> P (snd (initiate_self_leave E c))"
  "P c \<Longrightarrow> P (snd (leave E c))"
proof -
  show a: "P c \<Longrightarrow> P (snd (initiate_self_leave E c))"
    by (simp add: initiate_self_leave_def Let_def inv_try split: option.splits)
  show "P c \<Longrightarrow> P (snd (leave E c))"
    unfolding leave_def by (rule inv_try) (simp_all add: a)
qed

lemma inv_incoming_proposal [simp]: "P c \<Longrightarrow> P (snd (on_incoming_proposal E p c))"
proof -
  have arm: "P (snd (arm_incoming_vote E i d c))" if "P c" for i d c
    unfolding arm_incoming_vote_def
    by (rule inv_try) (use that in \<open>auto simp: Let_def split: option.splits sum.splits request_payload.splits\<close>)
  show "P c \<Longrightarrow> ?thesis"
    by (auto simp: on_incoming_proposal_def Let_def split_beta intro!: arm split: sum.splits option.splits)
qed

lemma inv_fire_deadlines [simp]: "P c \<Longrightarrow> P (fire_deadlines E c)"
  by (auto simp: fire_deadlines_def Let_def split_beta intro!: inv_fold)

end

section \<open>Operations that move the lifecycle\<close>

locale lifecycle_invariant = base_invariant E P
  for E :: "('g, 'o, 'c, 's) environment" and P :: "('g, 'o, 'c, 's) conversation \<Rightarrow> bool" +
  assumes inv_state [simp]: "P c \<Longrightarrow> P (c\<lparr>cn_state := st\<rparr>)"
    and inv_mode [simp]: "P c \<Longrightarrow> P (c\<lparr>cn_mode := m\<rparr>)"
    and inv_round_count [simp]: "P c \<Longrightarrow> P (c\<lparr>cn_recovery_rounds := n\<rparr>)"
    and inv_all_timing [simp]: "P c \<Longrightarrow> P (c\<lparr>cn_timing := t\<rparr>)"
begin

lemma inv_transitions [simp]:
  "P c \<Longrightarrow> P (on_phase_timer ft c)"
  "P c \<Longrightarrow> P (on_timing fm c)"
  "P c \<Longrightarrow> P (snd (start_working c))"
  "P c \<Longrightarrow> P (snd (start_freezing c))"
  "P c \<Longrightarrow> P (snd (start_selection c))"
  "P c \<Longrightarrow> P (snd (start_reelection c))"
  "P c \<Longrightarrow> P (snd (reopen_recovery_window c))"
  "P c \<Longrightarrow> P (exit_recovery_mode c)"
  by (simp_all add: on_phase_timer_def on_timing_def start_working_def start_freezing_def
      start_selection_def start_reelection_def reopen_recovery_window_def exit_recovery_mode_def
      split: prod.splits bool.splits)

lemma inv_enter_recovery [simp]: "P c \<Longrightarrow> P (enter_recovery_mode c)"
proof -
  have "enter_recovery_mode c = (c\<lparr>cn_mode := RecoveryMode\<rparr>)\<lparr>cn_recovery_rounds := 0\<rparr>"
    by (simp add: enter_recovery_mode_def)
  then show "P c \<Longrightarrow> ?thesis" by (simp only: inv_mode inv_round_count)
qed

lemma inv_phase_events [simp]:
  "P c \<Longrightarrow> P (start_freezing_and_emit c)"
  "P c \<Longrightarrow> P (resume_from_reelection c)"
  "P c \<Longrightarrow> P (resume_working c)"
  by (simp_all add: start_freezing_and_emit_def resume_from_reelection_def resume_working_def split_beta)

lemma inv_election_accepted [simp]: "P c \<Longrightarrow> P (snd (handle_election_accepted E election c))"
proof (cases "validate_election_list E c election")
  case (Inr valid)
  then show "P c \<Longrightarrow> ?thesis"
    by (cases valid) (simp_all add: handle_election_accepted_def Let_def split_beta inv_try)
qed (simp add: handle_election_accepted_def)

lemma inv_emergency_scored [simp]: "P c \<Longrightarrow> P (snd (handle_emergency_scored E p ops c))"
  by (simp add: handle_emergency_scored_def inv_try)

lemma inv_follow_up [simp]: "P c \<Longrightarrow> P (snd (follow_up E r c))"
  by (cases r) (auto simp: split_beta inv_try split: option.splits)

lemma inv_no_candidate [simp]: "P c \<Longrightarrow> P (snd (no_candidate_outside_recovery E hp c))"
  by (auto simp: no_candidate_outside_recovery_def split_beta intro!: inv_try split: option.splits)

lemma inv_recovery_rounds [simp]:
  "P c \<Longrightarrow> P (retry_or_exhaust_recovery c)"
  "P c \<Longrightarrow> P (recover_from_finalize_error c)"
proof -
  show retry: "P c \<Longrightarrow> P (retry_or_exhaust_recovery c)"
    by (auto simp: retry_or_exhaust_recovery_def Let_def split_beta split: option.splits)
  show "P c \<Longrightarrow> P (recover_from_finalize_error c)"
    by (simp add: recover_from_finalize_error_def retry)
qed

lemma inv_conversation_updated [simp]: "P c \<Longrightarrow> P (snd (on_conversation_updated E c))"
  by (simp add: on_conversation_updated_def maybe_close_recovery_window_def Let_def split_beta inv_try)

lemma inv_candidate_received [simp]: "P c \<Longrightarrow> P (snd (on_commit_candidate_received E c))"
  by (auto simp: on_commit_candidate_received_def split_beta split: option.splits)

lemma inv_inactivity [simp]:
  "P c \<Longrightarrow> P (snd (check_steward_inactivity n w c))"
  "P c \<Longrightarrow> P (snd (start_freeze_on_inactivity E c))"
proof -
  show check: "P c \<Longrightarrow> P (snd (check_steward_inactivity n w c))" for n w
    by (simp add: check_steward_inactivity_def)
  show "P c \<Longrightarrow> P (snd (start_freeze_on_inactivity E c))"
    by (auto simp: start_freeze_on_inactivity_def Let_def split_beta check split: option.splits)
qed

end

section \<open>Packets and rounds\<close>

locale exchange_invariant = lifecycle_invariant E P + traffic_invariant E P
  for E :: "('g, 'o, 'c, 's) environment" and P :: "('g, 'o, 'c, 's) conversation \<Rightarrow> bool"
begin

lemma inv_dispatch [simp]: "P c \<Longrightarrow> P (snd (dispatch_inbound_result E r c))"
  by (cases r) (simp_all add: done_after_def inv_try)

lemma inv_after_round [simp]: "P c \<Longrightarrow> P (snd (after_round E rec hp res c))"
proof (cases "crr_outcome res")
  case (Applied r w)
  then show "P c \<Longrightarrow> ?thesis" by (simp add: after_round_Applied split_beta inv_merged_round)
next
  case NoCandidate
  then show "P c \<Longrightarrow> ?thesis" by (simp add: after_round_NoCandidate)
qed

lemma inv_run_selection [simp]: "P c \<Longrightarrow> P (snd (run_selection E c))"
  by (auto simp: run_selection_def Let_def split_beta split: sum.splits)

lemma inv_advance_freezing [simp]: "P c \<Longrightarrow> P (snd (advance_freezing E c))"
  by (simp add: advance_freezing_def Let_def split_beta)

end

locale packet_invariant = exchange_invariant E P + decoding_invariant E P
  for E :: "('g, 'o, 'c, 's) environment" and P :: "('g, 'o, 'c, 's) conversation \<Rightarrow> bool"
begin

lemma inv_inbound [simp]:
  "P c \<Longrightarrow> P (snd (process_inbound E sender payload c))"
  "P c \<Longrightarrow> P (snd (apply_welcome_sync E b c))"
  by (simp_all add: process_inbound_def apply_welcome_sync_def inv_try)

end

section \<open>Resolved votes\<close>

locale outcome_invariant = lifecycle_invariant E P
  for E :: "('g, 'o, 'c, 's) environment" and P :: "('g, 'o, 'c, 's) conversation \<Rightarrow> bool" +
  assumes inv_resolved:
      "P c \<Longrightarrow> P (c\<lparr>cn_queues := snd (apply_consensus_result (env_x E) pid approved r (cn_queues c))\<rparr>)"
    and inv_remove_session [simp]:
      "P c \<Longrightarrow> P (snd (on_engine (ce_remove_session (env_ce E) a p) c))"
begin

lemma inv_consensus_outcome [simp]: "P c \<Longrightarrow> P (snd (handle_consensus_outcome E event c))"
  by (auto simp: handle_consensus_outcome_def Let_def split_beta inv_resolved intro!: inv_try split: sum.splits)

end

locale poll_invariant = outcome_invariant E P + exchange_invariant E P
  for E :: "('g, 'o, 'c, 's) environment" and P :: "('g, 'o, 'c, 's) conversation \<Rightarrow> bool" +
  assumes inv_outcomes [simp]: "P c \<Longrightarrow> P (c\<lparr>cn_outcomes := os\<rparr>)"
begin

lemma inv_recv: "outcome_try_recv c = (e, c') \<Longrightarrow> P c \<Longrightarrow> P c'"
  by (auto simp: outcome_try_recv_def split: list.splits)

lemma inv_drain:
  assumes ret: "drain_outcomes E c = Some c'" and "P c"
  shows "P c'"
proof -
  have "E = E \<longrightarrow> P c \<longrightarrow> P c'"
  proof (rule drain_outcomes.raw_induct [where P = "\<lambda>F c c'. F = E \<longrightarrow> P c \<longrightarrow> P c'", OF _ ret])
    fix drain F c c'
    assume IH: "\<And>F c c'. drain F c = Some c' \<Longrightarrow> F = E \<longrightarrow> P c \<longrightarrow> P c'"
      and eq: "(case outcome_try_recv c of
          (None, c') \<Rightarrow> Some c'
        | (Some (_, event), c') \<Rightarrow> drain F (snd (handle_consensus_outcome F event c'))) = Some c'"
    obtain ev d where recv: "outcome_try_recv c = (ev, d)" by (cases "outcome_try_recv c")
    then show "F = E \<longrightarrow> P c \<longrightarrow> P c'"
      using eq IH inv_recv [OF recv] by (cases ev) (fastforce split: prod.splits)+
  qed
  with assms(2) show ?thesis by simp
qed

lemma inv_poll:
  assumes "poll E c = Some (out, c')" and "P c"
  shows "P c'"
proof -
  obtain c1 where c1: "drain_outcomes E (fire_deadlines E c) = Some c1"
    using assms(1) by (cases "tick_deadlines E c") (auto simp: poll_def tick_deadlines_def)
  have "P c1" using inv_drain [OF c1] assms(2) by simp
  then show ?thesis
    using assms(1) c1 by (auto simp: poll_def tick_deadlines_def Let_def split_beta)
qed

end

locale whole_invariant = poll_invariant E P + packet_invariant E P
  for E :: "('g, 'o, 'c, 's) environment" and P :: "('g, 'o, 'c, 's) conversation \<Rightarrow> bool"
begin

lemmas inv_driven = inv_poll inv_inbound

end

end
