(* ===== verification/Frames.thy ===== *)
theory Frames
  imports Evolution
begin

text \<open>
  What an operation leaves alone. A \<open>view\<close> is a part of the conversation; if the primitive
  updates keep it, then having the value it has is an invariant, so the operations built from
  them keep it too. Each locale is the locale of the same level in \<^verbatim>\<open>Evolution\<close>, read for views.
\<close>

section \<open>Operations that keep the lifecycle\<close>

locale base_frame =
  fixes E :: "('g, 'o, 'c, 's) environment" and view :: "('g, 'o, 'c, 's) conversation \<Rightarrow> 'v"
  assumes view_queues [simp]: "view (c\<lparr>cn_queues := q\<rparr>) = view c"
    and view_mls [simp]: "view (c\<lparr>cn_mls := mls\<rparr>) = view c"
    and view_stewards [simp]: "view (c\<lparr>cn_stewards := svc\<rparr>) = view c"
    and view_scoring [simp]: "view (c\<lparr>cn_scoring := sc\<rparr>) = view c"
    and view_config [simp]: "view (c\<lparr>cn_config := cfg\<rparr>) = view c"
    and view_events [simp]: "view (c\<lparr>cn_events := es\<rparr>) = view c"
    and view_broadcast [simp]: "view (broadcast b c) = view c"
    and view_timing: "tm_phase_timer t = tm_phase_timer (cn_timing c) \<Longrightarrow> view (c\<lparr>cn_timing := t\<rparr>) = view c"
    and view_create [simp]:
      "view (snd (on_engine (ce_create_proposal (env_ce E) a b d n s l tmo now) c)) = view c"
    and view_cast_bundled [simp]:
      "view (snd (on_engine (ce_cast_vote_and_get_proposal (env_ce E) a p v now) c)) = view c"

sublocale base_frame \<subseteq> keep: decoding_invariant E "\<lambda>d. view d = v" for v
  by unfold_locales (simp_all add: view_timing)

context base_frame
begin

lemma view_try:
  assumes "view (snd r) = ph" and "\<And>v d. r = (Inr v, d) \<Longrightarrow> view d = ph \<Longrightarrow> view (snd (k v d)) = ph"
  shows "view (snd (try_then r k)) = ph"
  using assms by (rule keep.inv_try)

lemma view_fold:
  assumes "\<And>v d. view (f v d) = view d"
  shows "view (fold f vs c) = view c"
  using assms by (intro keep.inv_fold) simp_all

lemma view_snd: "r = (a, d) \<Longrightarrow> view (snd r) = ph \<Longrightarrow> view d = ph"
  by simp

lemma view_on_queues [simp]: "view (on_queues fq c) = view c"
  by (simp add: on_queues_def)

lemma view_on_stewards [simp]: "view (snd (on_stewards fs c)) = view c"
  by (simp add: on_stewards_def split_beta)

lemma view_on_scoring [simp]: "view (snd (on_scoring fp c)) = view c"
  by (simp add: on_scoring_def split_beta)

lemmas view_basic [simp] = keep.inv_basic [OF refl] keep.inv_service [OF refl]
  keep.inv_emit_score_changes [OF refl] keep.inv_scores [OF refl] keep.inv_emit_change [OF refl]

lemmas view_anchors [simp] = keep.inv_anchors [OF refl]

lemmas view_proposals [simp] = keep.inv_send [OF refl] keep.inv_submit [OF refl]
  keep.inv_initiate_proposal [OF refl] keep.inv_intents [OF refl] keep.inv_emergencies [OF refl]
  keep.inv_elections [OF refl] keep.inv_housekeeping [OF refl] keep.inv_advance_retry [OF refl]
  keep.inv_buffered_updates [OF refl] keep.inv_sync_out [OF refl] keep.inv_sync_in [OF refl]
  keep.inv_self_leave [OF refl]

lemmas view_finalize [simp] = keep.inv_rounds(1) [OF refl]

lemmas view_rounds [simp] = keep.inv_rounds [OF refl] keep.inv_decode [OF refl] keep.inv_candidate [OF refl]
  keep.inv_freeze_entered [OF refl] keep.inv_recovery_intents [OF refl] keep.inv_refresh [OF refl]
  keep.inv_reconcile_membership [OF refl] keep.inv_deliver_welcome [OF refl]
  keep.inv_auto_commit [OF refl] keep.inv_drivers [OF refl]

lemmas view_joining [simp] = keep.inv_joining [OF refl]

lemmas view_record_round [simp] = keep.inv_record_round [OF refl]

lemma view_merged_round: "view (merged_round E rec w c) = view (if rec then exit_recovery_mode c else c)"
  by (rule keep.inv_merged_round) (rule refl)

end

section \<open>Operations that reach peers' sessions\<close>

locale traffic_frame = base_frame E view
  for E :: "('g, 'o, 'c, 's) environment" and view :: "('g, 'o, 'c, 's) conversation \<Rightarrow> 'v" +
  assumes view_cast [simp]: "view (snd (on_engine (ce_cast_vote (env_ce E) a p v now) c)) = view c"
    and view_peer_vote [simp]:
      "view (snd (on_engine (ce_process_incoming_vote (env_ce E) a pv now) c)) = view c"
    and view_peer_proposal [simp]:
      "view (snd (on_engine (ce_process_incoming_proposal (env_ce E) a pp now) c)) = view c"
    and view_timeout [simp]:
      "view (snd (on_engine (ce_handle_consensus_timeout (env_ce E) a p now) c)) = view c"

sublocale traffic_frame \<subseteq> keep: traffic_invariant E "\<lambda>d. view d = v" for v
  by unfold_locales simp_all

context traffic_frame
begin

lemmas view_traffic [simp] = keep.inv_votes [OF refl] keep.inv_forward_vote [OF refl]
  keep.inv_resolve [OF refl] keep.inv_submit_self_leave [OF refl] keep.inv_leave [OF refl]
  keep.inv_incoming_proposal [OF refl] keep.inv_fire_deadlines [OF refl]

end

section \<open>Operations that move the lifecycle\<close>

locale lifecycle_frame = base_frame E view
  for E :: "('g, 'o, 'c, 's) environment" and view :: "('g, 'o, 'c, 's) conversation \<Rightarrow> 'v" +
  assumes view_state [simp]: "view (c\<lparr>cn_state := st\<rparr>) = view c"
    and view_mode [simp]: "view (c\<lparr>cn_mode := m\<rparr>) = view c"
    and view_round_count [simp]: "view (c\<lparr>cn_recovery_rounds := n\<rparr>) = view c"
    and view_all_timing [simp]: "view (c\<lparr>cn_timing := t\<rparr>) = view c"
    and view_remove_session [simp]:
      "view (snd (on_engine (ce_remove_session (env_ce E) a p) c)) = view c"

sublocale lifecycle_frame \<subseteq> keep: outcome_invariant E "\<lambda>d. view d = v" for v
  by unfold_locales simp_all

context lifecycle_frame
begin

lemmas view_transitions [simp] = keep.inv_transitions [OF refl] keep.inv_enter_recovery [OF refl]
  keep.inv_phase_events [OF refl]

lemmas view_consensus_outcome [simp] = keep.inv_consensus_outcome [OF refl]

end

section \<open>All operations\<close>

locale whole_frame = lifecycle_frame E view + traffic_frame E view
  for E :: "('g, 'o, 'c, 's) environment" and view :: "('g, 'o, 'c, 's) conversation \<Rightarrow> 'v" +
  assumes view_outcomes [simp]: "view (c\<lparr>cn_outcomes := os\<rparr>) = view c"

sublocale whole_frame \<subseteq> keep: whole_invariant E "\<lambda>d. view d = v" for v
  by unfold_locales simp_all

context whole_frame
begin

lemmas view_inbound [simp] = keep.inv_inbound [OF refl]

lemma view_poll: "poll E c = Some (out, c') \<Longrightarrow> view c' = view c"
  by (erule keep.inv_poll) (rule refl)

end

end
