(* ===== verification/Example_Group.thy ===== *)
theory Example_Group
  imports Commit_Round
begin

text \<open>
  A small executable group that instantiates the OpenMLS parameter, for the worked examples:
  members sit at leaves, a wire message is four bytes (kind, sender leaf, epoch, argument),
  kind 1 proposes the removal of the leaf in the argument, kind 2 commits the stored proposals,
  everything else is an application message. It is not a model of OpenMLS; it only shows that
  the hypotheses of the theorems about arbitrary OpenMLS behaviour can be met, and evaluates
  them on concrete runs.
\<close>

datatype demo_object = Wire bytes | StagedRemovals "u32 list"

record demo_group =
  dg_own :: u32
  dg_epoch :: u64
  dg_members :: "member list"
  dg_pending :: "u32 list"
  dg_commit :: "u32 list option"

definition demo_member :: "u32 \<Rightarrow> member" where
  "demo_member i = \<lparr>mbr_index = i, mbr_credential = [ucast i], mbr_encryption_key = [],
                    mbr_signature_key = [ucast i]\<rparr>"

definition demo_remove :: "u32 list \<Rightarrow> demo_group \<Rightarrow> demo_group" where
  "demo_remove ls g =
     g\<lparr>dg_members := filter (\<lambda>m. mbr_index m \<notin> set ls) (dg_members g), dg_epoch := dg_epoch g + 1,
       dg_pending := [], dg_commit := None\<rparr>"

fun demo_field :: "nat \<Rightarrow> demo_object \<Rightarrow> byte" where
  "demo_field i (Wire b) = (if i < length b then b ! i else 0)"
| "demo_field i (StagedRemovals _) = 0"

fun demo_leaves :: "demo_object \<Rightarrow> u32 list" where
  "demo_leaves (StagedRemovals ls) = ls"
| "demo_leaves (Wire _) = []"

definition demo_content :: "demo_object \<Rightarrow> demo_group \<Rightarrow> demo_object processed_content" where
  "demo_content m g =
     (if demo_field 0 m = 1 then ProposalContent m
      else if demo_field 0 m = 2 then StagedCommitContent (StagedRemovals (dg_pending g))
      else ApplicationContent [demo_field 3 m])"

definition demo_mls :: "(demo_group, demo_object) openmls" where
  "demo_mls =
     \<lparr>om_new_group = (\<lambda>_. Inr \<lparr>dg_own = 0, dg_epoch = 0, dg_members = [demo_member 0],
                                dg_pending = [], dg_commit = None\<rparr>),
      om_stage_welcome = (\<lambda>w. Inl NoMatchingKeyPackage),
      om_into_group = (\<lambda>_. Inl ''no group''),
      om_delete = (\<lambda>g. (Inr (), g)),
      om_epoch = dg_epoch,
      om_group_id = (\<lambda>_. []),
      om_members = dg_members,
      om_member_at = (\<lambda>g i. find (\<lambda>m. mbr_index m = i) (dg_members g)),
      om_own_leaf_index = dg_own,
      om_key_package_validate = (\<lambda>_ _. Inl ''unsupported''),
      om_propose_add_member = (\<lambda>_ g. (Inl ''unsupported'', g)),
      om_propose_remove_member =
        (\<lambda>i g. (Inr (Wire [1, ucast (dg_own g), ucast (dg_epoch g), ucast i]),
                g\<lparr>dg_pending := dg_pending g @ [i]\<rparr>)),
      om_commit_to_pending_proposals =
        (\<lambda>g. (Inr (Wire [2, ucast (dg_own g), ucast (dg_epoch g), 0], None),
              g\<lparr>dg_commit := Some (dg_pending g)\<rparr>)),
      om_to_bytes = (\<lambda>out. case out of Wire b \<Rightarrow> Inr b | _ \<Rightarrow> Inl ''encode''),
      om_pending_commit = (\<lambda>g. map_option StagedRemovals (dg_commit g)),
      om_merge_pending_commit =
        (\<lambda>g. case dg_commit g of Some ls \<Rightarrow> (Inr (), demo_remove ls g) | None \<Rightarrow> (Inr (), g)),
      om_clear_pending_commit = (\<lambda>g. (Inr (), g\<lparr>dg_commit := None\<rparr>)),
      om_clear_pending_proposals = (\<lambda>g. (Inr (), g\<lparr>dg_pending := []\<rparr>)),
      om_deserialize = (\<lambda>b. if length b = 4 then Inr (PrivateMessage (Wire b)) else Inl ''tls''),
      om_msg_group_id = (\<lambda>_. []),
      om_msg_epoch = (\<lambda>m. ucast (demo_field 2 m)),
      om_msg_content_type =
        (\<lambda>m. if demo_field 0 m = 1 then ProposalContentType
             else if demo_field 0 m = 2 then CommitContentType else ApplicationContentType),
      om_process_message = (\<lambda>m g. (Inr (MemberSender (ucast (demo_field 1 m)), demo_content m g), g)),
      om_store_pending_proposal = (\<lambda>m g. (Inr (), g\<lparr>dg_pending := dg_pending g @ [ucast (demo_field 3 m)]\<rparr>)),
      om_staged_self_removed = (\<lambda>s. 0 \<in> set (demo_leaves s)),
      om_staged_add_keys = (\<lambda>_. []),
      om_staged_removed_leaves = demo_leaves,
      om_merge_staged_commit = (\<lambda>s g. (Inr (), demo_remove (demo_leaves s) g)),
      om_create_message = (\<lambda>b g. (Inr (Wire [3, ucast (dg_own g), ucast (dg_epoch g), 0]), g))\<rparr>"

definition demo_service :: "(demo_group, demo_object) mls_service" where
  "demo_service =
     \<lparr>ms_conversation_id = ''c'',
      ms_group = \<lparr>dg_own = 0, dg_epoch = 5, dg_members = map demo_member [0, 1, 2, 3],
                  dg_pending = [], dg_commit = None\<rparr>,
      ms_pending_staged_commit = None\<rparr>"

text \<open>The candidate of the member at \<open>steward\<close> that removes the given leaves.\<close>

definition demo_removal_candidate :: "u32 \<Rightarrow> u32 list \<Rightarrow> commit_candidate" where
  "demo_removal_candidate steward leaves =
     \<lparr>cc_conversation_id = [],
      cc_mls_proposals = map (\<lambda>i. [1, ucast steward, 5, ucast i]) leaves,
      cc_commit_message = [2, ucast steward, 5, 0],
      cc_steward_member_id = member_id_of steward\<rparr>"

definition demo_buffered :: "commit_candidate \<Rightarrow> buffered_commit_candidate" where
  "demo_buffered c =
     \<lparr>bc_candidate_msg = c, bc_commit_hash = compute_commit_hash demo_externals (cc_commit_message c),
      bc_is_local_candidate = False, bc_welcome_bytes = None, bc_joiner_identities = []\<rparr>"

definition demo_stewards :: steward_list_service where
  "demo_stewards =
     \<lparr>svc_list = Some \<lparr>sl_members = [member_id_of 1, member_id_of 2],
                       sl_config = steward_list_config_default, sl_election_epoch = 5,
                       sl_retry_round = 0\<rparr>,
      svc_config = steward_list_config_default, svc_conversation_id = [],
      svc_next_election_round = 0, svc_max_retries = 2\<rparr>"

definition demo_queues :: conversation_queues where
  "demo_queues = insert_approved_proposal 7 (Some (RemoveMember (member_id_of 3))) (queues_new ''c'' 4)"

definition demo_context :: round_context where
  "demo_context = round_snapshot demo_mls demo_queues demo_service demo_stewards 5 False (member_id_of 0)"

lemma demo_remote_commit_applies:
  "\<exists>st'. apply_incoming_candidate demo_externals demo_mls demo_stewards
       (demo_buffered (demo_removal_candidate 1 [3])) demo_context (demo_queues, demo_service) =
     (Inr (Terminal (Applied ConversationUpdated None) (member_id_of 1) []), st')"
proof -
  let ?r = "apply_incoming_candidate demo_externals demo_mls demo_stewards
       (demo_buffered (demo_removal_candidate 1 [3])) demo_context (demo_queues, demo_service)"
  have "fst ?r = Inr (Terminal (Applied ConversationUpdated None) (member_id_of 1) [])" by code_simp
  then show ?thesis by (metis prod.collapse)
qed

end
