(* ===== verification/Commit_Safety.thy ===== *)
theory Commit_Safety
  imports Example_Group Apply_Result
begin

text \<open>
  What the commit round guarantees: peers that hold the same candidates rank them alike, only
  an authorised committer's batch that matches the vote is merged, a dropped candidate leaves
  no trace, and penalties go to authenticated signers. The comparator contract is interpreted
  on the candidate priority and on the action order.
\<close>

section \<open>Orders\<close>

interpretation candidate_order: total_cmp "compare_candidate_priority es" for es
  unfolding compare_candidate_priority_def [abs_def]
  by (intro total_cmp_then total_cmp_key_ord total_cmp_key_ord_rev)

lemma compare_priority_Equal:
  "compare_candidate_priority es a b = Equal \<Longrightarrow> bc_commit_hash a = bc_commit_hash b"
  by (simp add: compare_candidate_priority_def)

interpretation action_order: strict_cmp action_cmp
proof (intro strict_cmp.intro strict_cmp_axioms.intro)
  show "total_cmp action_cmp"
    unfolding action_cmp_def [abs_def]
    by (intro total_cmp_then total_cmp_key_ord)
  fix a b
  assume "action_cmp a b = Equal"
  moreover have "action_kind_ord k = action_kind_ord l \<Longrightarrow> k = l" for k l
    by (cases k; cases l) simp_all
  ultimately show "a = b" by (auto simp: action_cmp_def prod_eq_iff)
qed

text \<open>The part of a buffered candidate that all peers share.\<close>

definition candidate_key :: "buffered_commit_candidate \<Rightarrow> commit_candidate \<times> commit_hash" where
  "candidate_key c = (bc_candidate_msg c, bc_commit_hash c)"

definition as_remote :: "commit_candidate \<times> commit_hash \<Rightarrow> buffered_commit_candidate" where
  "as_remote k = \<lparr>bc_candidate_msg = fst k, bc_commit_hash = snd k, bc_is_local_candidate = False,
                  bc_welcome_bytes = None, bc_joiner_identities = []\<rparr>"

interpretation key_order:
  total_cmp "\<lambda>a b. compare_candidate_priority es (as_remote a) (as_remote b)" for es
  by (rule total_cmp_key [OF candidate_order.total_cmp_axioms])

lemma compare_by_key:
  "compare_candidate_priority es a b =
   compare_candidate_priority es (as_remote (candidate_key a)) (as_remote (candidate_key b))"
  by (simp add: compare_candidate_priority_def candidate_tier_def as_remote_def candidate_key_def)

lemma applicable_by_key:
  "candidate_applicable ctx s a = candidate_applicable ctx s (as_remote (candidate_key a))"
  by (simp add: candidate_applicable_def as_remote_def candidate_key_def)

lemma map_filter_key:
  "map f (filter (\<lambda>a. P (f a)) xs) = filter P (map f xs)"
  by (simp add: filter_map o_def)

lemma rank_by_key:
  "map candidate_key (rank_applicable_candidates cs ctx s) =
   sort_by (\<lambda>a b. compare_candidate_priority (rc_epoch_steward_id ctx) (as_remote a) (as_remote b))
     (filter (\<lambda>k. candidate_applicable ctx s (as_remote k)) (map candidate_key cs))"
proof -
  let ?C = "compare_candidate_priority (rc_epoch_steward_id ctx)"
  let ?X = "filter (\<lambda>a. candidate_applicable ctx s (as_remote (candidate_key a))) cs"
  have "candidate_applicable ctx s = (\<lambda>a. candidate_applicable ctx s (as_remote (candidate_key a)))"
    by (rule ext) (rule applicable_by_key)
  then have "rank_applicable_candidates cs ctx s = sort_by ?C ?X"
    by (simp add: rank_applicable_candidates_def)
  moreover have "map candidate_key (sort_by ?C ?X) =
      sort_by (\<lambda>a b. ?C (as_remote a) (as_remote b)) (map candidate_key ?X)"
    by (rule map_sort_by) (rule compare_by_key)
  ultimately show ?thesis
    by (simp only: map_filter_key [of candidate_key "\<lambda>k. candidate_applicable ctx s (as_remote k)"])
qed

lemma ranked_subset: "set (rank_applicable_candidates cs ctx s) \<subseteq> set cs"
  by (auto simp: rank_applicable_candidates_def)

section \<open>Staging and validation\<close>

lemma stage_candidate_StagedD:
  assumes "stage_candidate om c ctx mls = (Inr (StagedCandidate sender sr acts), mls')"
  shows "stage_remote_commit om (cc_mls_proposals c) (cc_commit_message c) mls =
      (Inr (Staged sender sr acts), mls')" "cc_steward_member_id c = sender"
  using assms
  by (auto simp: stage_candidate_def split: prod.splits sum.splits staged_candidate_result.splits if_splits)

lemma stage_candidate_violation:
  assumes "stage_candidate om c ctx mls = (Inr (ViolationCandidate v), mls')"
  shows "\<exists>r. fst (stage_remote_commit om (cc_mls_proposals c) (cc_commit_message c) mls) = Inr r \<and>
    ((\<exists>sr acts. r = Staged (ve_target_member_id v) sr acts) \<or> r = BundleSenderMismatch (ve_target_member_id v))"
  using assms
  by (auto simp: stage_candidate_def broken_commit_def violation_evidence_of_def
      split: prod.splits sum.splits staged_candidate_result.splits if_splits)

lemma stage_candidate_never_fails: "stage_candidate om c ctx mls \<noteq> (Inl e, mls')"
  by (auto simp: stage_candidate_def split: prod.splits sum.splits staged_candidate_result.splits if_splits)

lemma validate_commit_candidate_iff:
  "validate_commit_candidate x q sender acts ctx = Inr None \<longleftrightarrow>
     set (List.map_filter (action_projection_from_request x) (imap_values (q_approved_proposals q))) =
     set (map action_projection_from_mls acts)"
  by (auto simp: validate_commit_candidate_def Let_def action_order.sort_dedup_eq_iff)

lemma validate_commit_candidate_never_fails: "validate_commit_candidate x q sender acts ctx \<noteq> Inl e"
  by (simp add: validate_commit_candidate_def Let_def)

lemma reject_staged_Drop:
  assumes "reject_staged om p st = (Inr r, st')"
  shows "r = DropCandidate p" "fst st' = fst st" "ms_pending_staged_commit (snd st') = None"
  using assms
  by (auto simp: reject_staged_def try_then_eq_Inr on_mls_def discard_staged_commit_def on_group_def
      split: prod.splits sum.splits)

text \<open>Every way a remote candidate can be handled.\<close>

lemma apply_incoming_cases:
  assumes "apply_incoming_candidate x om svc chosen ctx st = (Inr r, st')"
  obtains (aborted) mls1 where
      "stage_candidate om (bc_candidate_msg chosen) ctx (snd st) = (Inr AbortCandidate, mls1)"
      "reject_staged om None (fst st, mls1) = (Inr r, st')"
  | (violation) v mls1 where
      "stage_candidate om (bc_candidate_msg chosen) ctx (snd st) = (Inr (ViolationCandidate v), mls1)"
      "reject_staged om (target_score_op v) (fst st, mls1) = (Inr r, st')"
  | (unauthorized) sender sr acts v mls1 where
      "stage_candidate om (bc_candidate_msg chosen) ctx (snd st) = (Inr (StagedCandidate sender sr acts), mls1)"
      "check_commit_sender_authorized svc sender ctx = Some v"
      "reject_staged om (target_score_op v) (fst st, mls1) = (Inr r, st')"
  | (mismatch) sender sr acts v mls1 where
      "stage_candidate om (bc_candidate_msg chosen) ctx (snd st) = (Inr (StagedCandidate sender sr acts), mls1)"
      "check_commit_sender_authorized svc sender ctx = None"
      "validate_commit_candidate x (fst st) sender acts ctx = Inr (Some v)"
      "reject_staged om (target_score_op v) (fst st, mls1) = (Inr r, st')"
  | (merged) sender sr acts batch mls1 st2 delta st3 where
      "stage_candidate om (bc_candidate_msg chosen) ctx (snd st) = (Inr (StagedCandidate sender sr acts), mls1)"
      "check_commit_sender_authorized svc sender ctx = None"
      "validate_commit_candidate x (fst st) sender acts ctx = Inr None"
      "on_mls (discard_own_commit om) (fst st, mls1) = (Inr (), st2)"
      "on_mls (merge_staged_commit om) st2 = (Inr delta, st3)"
      "finalize_committed_batch (bc_commit_hash chosen) (rc_current_epoch ctx + 1)
         (store_membership_delta delta (fst st3)) = (batch, fst st')"
      "r = Terminal (Applied (leave_or_update sr) None) sender batch" "snd st' = snd st3"
proof -
  obtain s mls1 where sc: "stage_candidate om (bc_candidate_msg chosen) ctx (snd st) = (Inr s, mls1)"
    using stage_candidate_never_fails by (metis obj_sumE surj_pair)
  show thesis
  proof (cases s)
    case AbortCandidate
    then show ?thesis using assms sc aborted by (simp add: apply_incoming_candidate_def)
  next
    case (ViolationCandidate v)
    then show ?thesis using assms sc violation by (simp add: apply_incoming_candidate_def)
  next
    case (StagedCandidate sender sr acts)
    show ?thesis
    proof (cases "check_commit_sender_authorized svc sender ctx")
      case (Some v)
      then show ?thesis using assms sc StagedCandidate unauthorized
        by (simp add: apply_incoming_candidate_def)
    next
      case None
      note auth = None
      obtain w where w: "validate_commit_candidate x (fst st) sender acts ctx = Inr w"
        using validate_commit_candidate_never_fails by (metis obj_sumE)
      show ?thesis
      proof (cases w)
        case (Some v)
        then show ?thesis using assms sc StagedCandidate auth w mismatch
          by (simp add: apply_incoming_candidate_def)
      next
        case None
        obtain st2 delta st3 where m: "on_mls (discard_own_commit om) (fst st, mls1) = (Inr (), st2)"
          "on_mls (merge_staged_commit om) st2 = (Inr delta, st3)"
          "r = Terminal (Applied (leave_or_update sr) None) sender (fst (finalize_committed_batch
             (bc_commit_hash chosen) (rc_current_epoch ctx + 1) (store_membership_delta delta (fst st3))))"
          "st' = (snd (finalize_committed_batch (bc_commit_hash chosen) (rc_current_epoch ctx + 1)
             (store_membership_delta delta (fst st3))), snd st3)"
          using assms sc StagedCandidate auth w None
          by (auto simp: apply_incoming_candidate_def try_then_eq_Inr Let_def split_beta)
        show ?thesis
          using sc StagedCandidate auth w None m by (intro merged [OF _ auth _ m(1,2) _ m(3)]) simp_all
      qed
    qed
  qed
qed

section \<open>The round as a whole\<close>

text \<open>Trying one candidate, and dropping a prefix of the ranking.\<close>

definition apply_candidate ::
  "externals \<Rightarrow> ('g, 'o) openmls \<Rightarrow> steward_list_service \<Rightarrow> round_context \<Rightarrow>
   buffered_commit_candidate \<Rightarrow> ('g, 'o) round_state \<Rightarrow>
   (conversation_error + candidate_outcome) \<times> ('g, 'o) round_state" where
  "apply_candidate x om svc ctx c st =
     (if bc_is_local_candidate c then apply_local_candidate om c ctx st
      else apply_incoming_candidate x om svc c ctx st)"

inductive all_dropped ::
  "externals \<Rightarrow> ('g, 'o) openmls \<Rightarrow> steward_list_service \<Rightarrow> round_context \<Rightarrow>
   buffered_commit_candidate list \<Rightarrow> ('g, 'o) round_state \<Rightarrow> score_op list \<Rightarrow>
   ('g, 'o) round_state \<Rightarrow> bool"
  for x om svc ctx where
  none_dropped: "all_dropped x om svc ctx [] st [] st"
| one_dropped: "apply_candidate x om svc ctx c st = (Inr (DropCandidate op), st1) \<Longrightarrow>
    all_dropped x om svc ctx cs st1 ops st2 \<Longrightarrow>
    all_dropped x om svc ctx (c # cs) st ((case op of Some p \<Rightarrow> [p] | None \<Rightarrow> []) @ ops) st2"

inductive_cases all_dropped_NilE: "all_dropped x om svc ctx [] st ops st'"
inductive_cases all_dropped_ConsE: "all_dropped x om svc ctx (c # cs) st ops st'"

lemma Terminal_is_Applied:
  assumes "apply_candidate x om svc ctx c st = (Inr (Terminal outcome committer batch), st')"
  shows "outcome \<noteq> NoCandidate"
proof (cases "bc_is_local_candidate c")
  case True
  then show ?thesis using assms
    by (auto simp: apply_candidate_def apply_local_candidate_def try_then_eq_Inr Let_def split_beta)
next
  case False
  then have "apply_incoming_candidate x om svc c ctx st = (Inr (Terminal outcome committer batch), st')"
    using assms by (simp add: apply_candidate_def)
  then show ?thesis by (cases rule: apply_incoming_cases) (auto dest: reject_staged_Drop)
qed

lemma apply_in_priority_order_split:
  assumes "apply_in_priority_order x om svc ctx self cs ops st = (Inr res, st')"
  shows "(\<exists>ps st1. all_dropped x om svc ctx cs st ps st1 \<and>
            discard_and_finish om (ops @ ps) st1 = (Inr res, st')) \<or>
    (\<exists>pre c post ps st1 committer. cs = pre @ c # post \<and> all_dropped x om svc ctx pre st ps st1 \<and>
       apply_candidate x om svc ctx c st1 =
         (Inr (Terminal (crr_outcome res) committer (crr_committed_batch res)), st') \<and>
       crr_score_ops res = record_winner_scores (ops @ ps) committer self ctx post svc)"
  using assms
proof (induction cs arbitrary: ops st)
  case Nil
  then have "all_dropped x om svc ctx [] st [] st" "discard_and_finish om (ops @ []) st = (Inr res, st')"
    by (auto intro: none_dropped)
  then show ?case by blast
next
  case (Cons c cs)
  obtain r st1 where r: "apply_candidate x om svc ctx c st = (Inr r, st1)"
    using Cons.prems by (auto simp: apply_candidate_def try_then_eq_Inr)
  show ?case
  proof (cases r)
    case (Terminal outcome committer batch)
    then have "res = \<lparr>crr_outcome = outcome, crr_score_ops = record_winner_scores ops committer self ctx cs svc,
        crr_committed_batch = batch\<rparr>" "st' = st1"
      using Cons.prems r by (auto simp: apply_candidate_def)
    with r Terminal have "apply_candidate x om svc ctx c st =
        (Inr (Terminal (crr_outcome res) committer (crr_committed_batch res)), st')"
      "crr_score_ops res = record_winner_scores (ops @ []) committer self ctx cs svc" by simp_all
    then show ?thesis using none_dropped by (metis append_Nil)
  next
    case (DropCandidate op)
    let ?p = "case op of Some p \<Rightarrow> [p] | None \<Rightarrow> []"
    have "apply_in_priority_order x om svc ctx self cs (ops @ ?p) st1 = (Inr res, st')"
      using Cons.prems r DropCandidate by (simp add: apply_candidate_def)
    from Cons.IH [OF this] show ?thesis
    proof
      assume "\<exists>ps st2. all_dropped x om svc ctx cs st1 ps st2 \<and>
        discard_and_finish om ((ops @ ?p) @ ps) st2 = (Inr res, st')"
      then obtain ps st2 where "all_dropped x om svc ctx cs st1 ps st2"
        "discard_and_finish om (ops @ (?p @ ps)) st2 = (Inr res, st')" by auto
      with one_dropped [OF r [unfolded DropCandidate]] show ?thesis by blast
    next
      assume "\<exists>pre c' post ps st2 committer. cs = pre @ c' # post \<and>
        all_dropped x om svc ctx pre st1 ps st2 \<and> apply_candidate x om svc ctx c' st2 =
         (Inr (Terminal (crr_outcome res) committer (crr_committed_batch res)), st') \<and>
        crr_score_ops res = record_winner_scores ((ops @ ?p) @ ps) committer self ctx post svc"
      then obtain pre c' post ps st2 committer where "c # cs = (c # pre) @ c' # post"
        "all_dropped x om svc ctx pre st1 ps st2" "apply_candidate x om svc ctx c' st2 =
         (Inr (Terminal (crr_outcome res) committer (crr_committed_batch res)), st')"
        "crr_score_ops res = record_winner_scores (ops @ (?p @ ps)) committer self ctx post svc" by auto
      with one_dropped [OF r [unfolded DropCandidate]] show ?thesis by blast
    qed
  qed
qed

lemma winner_ends_round:
  assumes "all_dropped x om svc ctx pre st ps st1"
    and "apply_candidate x om svc ctx w st1 = (Inr (Terminal outcome committer batch), st')"
  shows "apply_in_priority_order x om svc ctx self (pre @ w # post) ops st =
    (Inr \<lparr>crr_outcome = outcome, crr_score_ops = record_winner_scores (ops @ ps) committer self ctx post svc,
          crr_committed_batch = batch\<rparr>, st')"
  using assms
proof (induction arbitrary: ops rule: all_dropped.induct)
  case (none_dropped st)
  then show ?case by (simp add: apply_candidate_def)
next
  case (one_dropped c st op st1 cs ps st2)
  then show ?case by (simp add: apply_candidate_def)
qed

lemma all_dropped_queues:
  assumes "all_dropped x om svc ctx cs st ps st'" "\<forall>c\<in>set cs. \<not> bc_is_local_candidate c"
  shows "fst st' = fst st"
  using assms
proof (induction rule: all_dropped.induct)
  case (one_dropped c st op st1 cs ops st2)
  then have "apply_incoming_candidate x om svc c ctx (fst st, snd st) = (Inr (DropCandidate op), st1)"
    by (simp add: apply_candidate_def)
  then have "fst st1 = fst st"
    by (cases rule: apply_incoming_cases) (auto dest: reject_staged_Drop)
  then show ?case using one_dropped by simp
qed simp

text \<open>What a merge leaves of the approved work.\<close>

definition approvals_after_merge ::
  "bytes option \<Rightarrow> membership_delta \<Rightarrow> (u32 \<times> conversation_update_request) list \<Rightarrow>
   (u32 \<times> conversation_update_request) list" where
  "approvals_after_merge urgent delta approved =
     (case urgent of
        None \<Rightarrow> []
      | Some target \<Rightarrow>
          imap_retain (\<lambda>_ r. \<not> removes_member r target)
            (imap_retain (\<lambda>_ r. \<forall>m\<in>set (md_removed delta). \<not> removes_member r (member_id_of (mid_leaf m))) approved))"

lemma urgent_bookkeeping:
  "q_urgent_commit_target (apply_membership_delta_bookkeeping e (insert_committed_hash h q)) = q_urgent_commit_target q"
proof -
  have "q_urgent_commit_target (fold (record_added_member e) as q0) = q_urgent_commit_target q0"
    "q_urgent_commit_target (fold forget_removed_member rs q0) = q_urgent_commit_target q0" for "as" rs q0
    by (induction "as" arbitrary: q0; simp add: record_added_member_def Let_def)
       (induction rs arbitrary: q0; simp add: forget_removed_member_def Let_def drop_approved_removals_for_def)
  then show ?thesis
    by (simp add: apply_membership_delta_bookkeeping_def insert_committed_hash_def split: option.split)
qed

lemma merged_approvals:
  fixes q delta h e
  defines "q' \<equiv> snd (finalize_committed_batch h e (store_membership_delta delta q))"
  shows "q_approved_proposals q' = approvals_after_merge (q_urgent_commit_target q) delta (q_approved_proposals q)"
    and "q_urgent_commit_target q' = None"
proof -
  define q1 where "q1 = apply_membership_delta_bookkeeping e (insert_committed_hash h (store_membership_delta delta q))"
  have urgent: "q_urgent_commit_target q1 = q_urgent_commit_target q"
    unfolding q1_def urgent_bookkeeping by (simp add: store_membership_delta_def)
  have "q_approved_proposals q1 = imap_retain (\<lambda>_ r. \<forall>m\<in>set (md_removed delta).
      \<not> removes_member r (member_id_of (mid_leaf m))) (q_approved_proposals q)"
    by (simp add: q1_def apply_membership_delta_bookkeeping_def store_membership_delta_def
        insert_committed_hash_def fold_record_approved fold_forget_approved)
  then show "q_approved_proposals q' = approvals_after_merge (q_urgent_commit_target q) delta (q_approved_proposals q)"
    unfolding q'_def finalize_committed_batch_def q1_def [symmetric] Let_def split_beta
    using urgent by (simp add: approvals_after_merge_def take_urgent_commit_target_def
        drop_approved_removals_for_def drain_approved_proposals_def split: option.split)
  show "q_urgent_commit_target q' = None"
    unfolding q'_def finalize_committed_batch_def q1_def [symmetric] Let_def split_beta
    by (simp add: take_urgent_commit_target_def drop_approved_removals_for_def drain_approved_proposals_def
        split: option.split)
qed

lemma committed_batch_eq:
  assumes "q_urgent_commit_target q = None" "q_pending_membership_delta q = Some delta"
  shows "fst (finalize_committed_batch h e q) =
    imap_values (imap_retain (\<lambda>_ req. \<forall>r\<in>set (md_removed delta).
        \<not> removes_member req (member_id_of (mid_leaf r))) (q_approved_proposals q))"
    "q_approved_proposals (snd (finalize_committed_batch h e q)) = []"
proof -
  let ?q1 = "apply_membership_delta_bookkeeping e (insert_committed_hash h q)"
  have q1: "q_urgent_commit_target ?q1 = None"
    "q_approved_proposals ?q1 = imap_retain (\<lambda>_ req. \<forall>r\<in>set (md_removed delta).
        \<not> removes_member req (member_id_of (mid_leaf r))) (q_approved_proposals q)"
    using assms
    by (simp_all add: urgent_bookkeeping)
       (simp add: apply_membership_delta_bookkeeping_def insert_committed_hash_def
        fold_record_approved fold_forget_approved)
  then show "fst (finalize_committed_batch h e q) =
      imap_values (imap_retain (\<lambda>_ req. \<forall>r\<in>set (md_removed delta).
        \<not> removes_member req (member_id_of (mid_leaf r))) (q_approved_proposals q))"
    "q_approved_proposals (snd (finalize_committed_batch h e q)) = []"
    by (simp_all add: finalize_committed_batch_def Let_def take_urgent_commit_target_def
        drain_approved_proposals_def)
qed

lemma finalize_remembers_hash:
  assumes "bs_ok (q_committed_batch_hashes q)"
  shows "has_committed_hash (snd (finalize_committed_batch h e q)) h"
proof -
  have rec: "q_committed_batch_hashes (fold (record_added_member e) as q0) = q_committed_batch_hashes q0"
    for "as" q0 by (induction "as" arbitrary: q0) (simp_all add: record_added_member_def Let_def)
  have fog: "q_committed_batch_hashes (fold forget_removed_member rs q0) = q_committed_batch_hashes q0"
    for rs q0 by (induction rs arbitrary: q0)
      (simp_all add: forget_removed_member_def Let_def drop_approved_removals_for_def)
  have "q_committed_batch_hashes (apply_membership_delta_bookkeeping e (insert_committed_hash h q)) =
      snd (bs_insert h (q_committed_batch_hashes q))"
    by (simp add: apply_membership_delta_bookkeeping_def insert_committed_hash_def rec fog
        split: option.splits)
  then show ?thesis
    using bounded_window.added_is_contained [OF assms, of h]
    by (simp add: finalize_committed_batch_def Let_def take_urgent_commit_target_def
        drain_approved_proposals_def drop_approved_removals_for_def has_committed_hash_def
        split: option.splits)
qed

lemma ranked_keys_agree:
  assumes "mset (map candidate_key cs) = mset (map candidate_key cs')"
    and "distinct (map bc_commit_hash cs)"
    and "rc_mls_count ctx = rc_mls_count ctx'" and "rc_epoch_steward_id ctx = rc_epoch_steward_id ctx'"
  shows "map candidate_key (rank_applicable_candidates cs ctx allow_subset) =
         map candidate_key (rank_applicable_candidates cs' ctx' allow_subset)"
proof -
  let ?C = "\<lambda>a b. compare_candidate_priority (rc_epoch_steward_id ctx) (as_remote a) (as_remote b)"
  let ?P = "\<lambda>k. candidate_applicable ctx allow_subset (as_remote k)"
  have P': "candidate_applicable ctx' allow_subset (as_remote k) = ?P k" for k
    using assms(3) by (simp add: candidate_applicable_def)
  have "a = b" if ab: "a \<in> set (map candidate_key cs)" "b \<in> set (map candidate_key cs)"
    and eq: "?C a b = Equal" for a b
  proof -
    obtain ca cb where c: "a = candidate_key ca" "ca \<in> set cs" "b = candidate_key cb" "cb \<in> set cs"
      using ab by auto
    have "snd a = snd b" using compare_priority_Equal [OF eq] by (simp add: as_remote_def)
    then have "bc_commit_hash ca = bc_commit_hash cb" by (simp add: c(1,3) candidate_key_def)
    moreover have "inj_on bc_commit_hash (set cs)" using assms(2) by (simp add: distinct_map)
    ultimately show ?thesis using c by (auto dest: inj_onD)
  qed
  then have "sort_by ?C (filter ?P (map candidate_key cs)) = sort_by ?C (filter ?P (map candidate_key cs'))"
    using assms(1) by (intro key_order.sort_by_mset_cong) (auto simp: mset_filter)
  then show ?thesis
    unfolding rank_by_key P' using assms(4) by simp
qed

lemma authorized_merge:
  assumes "apply_incoming_candidate x om svc chosen ctx (q, mls) =
      (Inr (Terminal outcome committer batch), st')"
  shows "cc_steward_member_id (bc_candidate_msg chosen) = committer \<and>
    (rc_in_recovery ctx \<or> svc_list svc = None \<or> svc_is_steward svc committer) \<and>
    (\<exists>self_removed actions mls1.
       stage_remote_commit om (cc_mls_proposals (bc_candidate_msg chosen))
         (cc_commit_message (bc_candidate_msg chosen)) mls =
         (Inr (Staged committer self_removed actions), mls1) \<and>
       set (map action_projection_from_mls actions) =
         set (List.map_filter (action_projection_from_request x) (imap_values (q_approved_proposals q))))"
  using assms
proof (cases rule: apply_incoming_cases)
  case (merged sender sr acts batch mls1 st2 delta st3)
  then show ?thesis
    using stage_candidate_StagedD [OF merged(1)] merged(3)
    by (auto simp: validate_commit_candidate_iff check_commit_sender_authorized_def split: if_splits)
qed (auto dest: reject_staged_Drop)

section \<open>Properties\<close>

text \<open>
  C4. Peers agree on the winner: two nodes that buffered the same candidates, no commit twice (in
  any order, each counting its own as local), and that see the same number of approved membership
  changes and the same epoch steward rank the applicable candidates identically.
\<close>

theorem ranking_agrees_across_peers:
  assumes "mset (map candidate_key cs) = mset (map candidate_key cs')"
    and "distinct (map bc_commit_hash cs)"
    and "rc_mls_count ctx = rc_mls_count ctx'" and "rc_epoch_steward_id ctx = rc_epoch_steward_id ctx'"
  shows "map bc_candidate_msg (rank_applicable_candidates cs ctx allow_subset) =
         map bc_candidate_msg (rank_applicable_candidates cs' ctx' allow_subset)"
proof -
  have "map fst (map candidate_key (rank_applicable_candidates cs ctx allow_subset)) =
      map fst (map candidate_key (rank_applicable_candidates cs' ctx' allow_subset))"
    using ranked_keys_agree [OF assms] by simp
  then show ?thesis by (simp add: candidate_key_def o_def)
qed

theorem ranking_agrees_across_peers_witness:
  "map bc_candidate_msg (rank_applicable_candidates
       [demo_buffered (demo_removal_candidate 2 [3]), demo_buffered (demo_removal_candidate 1 [3])]
       demo_context False) =
   map bc_candidate_msg (rank_applicable_candidates
       [(demo_buffered (demo_removal_candidate 1 [3]))\<lparr>bc_is_local_candidate := True\<rparr>,
        demo_buffered (demo_removal_candidate 2 [3])] demo_context False)"
proof (rule ranking_agrees_across_peers)
  show "mset (map candidate_key
      [demo_buffered (demo_removal_candidate 2 [3]), demo_buffered (demo_removal_candidate 1 [3])]) =
    mset (map candidate_key
      [(demo_buffered (demo_removal_candidate 1 [3]))\<lparr>bc_is_local_candidate := True\<rparr>,
        demo_buffered (demo_removal_candidate 2 [3])])"
    by (simp add: candidate_key_def)
  show "distinct (map bc_commit_hash
      [demo_buffered (demo_removal_candidate 2 [3]), demo_buffered (demo_removal_candidate 1 [3])])"
    by code_simp
qed simp_all

text \<open>
  The winner is the best applicable candidate: it carries at least as many proposals as
  any other, among equals the epoch steward's candidate comes first, and within a tier the
  smallest steward id.
\<close>

theorem winner_has_best_priority:
  assumes "rank_applicable_candidates cs ctx allow_subset = w # rest" and "c \<in> set cs"
    and "candidate_applicable ctx allow_subset c"
  shows "let n = (\<lambda>c. length (cc_mls_proposals (bc_candidate_msg c)));
             who = (\<lambda>c. cc_steward_member_id (bc_candidate_msg c))
     in n c \<le> n w \<and>
        (n c = n w \<and> rc_epoch_steward_id ctx = Some (who c) \<longrightarrow> who w = who c) \<and>
        (n c = n w \<and> rc_epoch_steward_id ctx \<noteq> Some (who w) \<longrightarrow> who w \<le> who c)"
proof -
  have "c \<in> set (filter (candidate_applicable ctx allow_subset) cs)" using assms(2,3) by simp
  from candidate_order.hd_sort_by_least [OF this, of "rc_epoch_steward_id ctx"] assms(1)
  have "compare_candidate_priority (rc_epoch_steward_id ctx) w c \<noteq> Greater"
    by (simp add: rank_applicable_candidates_def)
  then show ?thesis
    by (auto simp: compare_candidate_priority_def then_with_eq_Greater candidate_tier_def Let_def
        split: if_splits)
qed

theorem winner_has_best_priority_witness:
  "cc_steward_member_id (bc_candidate_msg (hd (rank_applicable_candidates
       [demo_buffered (demo_removal_candidate 2 [3]), demo_buffered (demo_removal_candidate 1 [3])]
       demo_context False))) = member_id_of 1"
proof -
  let ?w = "demo_buffered (demo_removal_candidate 1 [3])" and ?o = "demo_buffered (demo_removal_candidate 2 [3])"
  have r: "rank_applicable_candidates [?o, ?w] demo_context False = ?w # [?o]"
    and a: "candidate_applicable demo_context False ?w" by code_simp+
  have "?w \<in> set [?o, ?w]" by simp
  from winner_has_best_priority [OF r this a]
  have "length (cc_mls_proposals (bc_candidate_msg ?w)) \<le> length (cc_mls_proposals (bc_candidate_msg ?w))"
    by (simp add: Let_def)
  with r show ?thesis by (simp add: demo_buffered_def demo_removal_candidate_def)
qed

text \<open>
  C1. Only authorised, matching commits are merged: when a remote candidate is applied, its
  committer is the MLS-authenticated signer named on the wire, is on the steward list (unless
  recovery is open or there is no list yet), and the membership changes of the staged commit
  are exactly the approved ones.
\<close>

theorem merged_remote_commit_is_authorized:
  assumes "apply_incoming_candidate x om svc chosen ctx (q, mls) =
      (Inr (Terminal outcome committer batch), st')"
  shows "cc_steward_member_id (bc_candidate_msg chosen) = committer \<and>
    (rc_in_recovery ctx \<or> svc_list svc = None \<or> svc_is_steward svc committer) \<and>
    (\<exists>self_removed actions mls1.
       stage_remote_commit om (cc_mls_proposals (bc_candidate_msg chosen))
         (cc_commit_message (bc_candidate_msg chosen)) mls =
         (Inr (Staged committer self_removed actions), mls1) \<and>
       set (map action_projection_from_mls actions) =
         set (List.map_filter (action_projection_from_request x) (imap_values (q_approved_proposals q))))"
  by (rule authorized_merge [OF assms])

theorem merged_remote_commit_is_authorized_witness:
  "\<exists>self_removed actions mls1. svc_is_steward demo_stewards (member_id_of 1) \<and>
     stage_remote_commit demo_mls (cc_mls_proposals (demo_removal_candidate 1 [3]))
       (cc_commit_message (demo_removal_candidate 1 [3])) demo_service =
       (Inr (Staged (member_id_of 1) self_removed actions), mls1)"
proof -
  obtain st' where "apply_incoming_candidate demo_externals demo_mls demo_stewards
       (demo_buffered (demo_removal_candidate 1 [3])) demo_context (demo_queues, demo_service) =
     (Inr (Terminal (Applied ConversationUpdated None) (member_id_of 1) []), st')"
    using demo_remote_commit_applies by blast
  from merged_remote_commit_is_authorized [OF this]
  have "\<exists>self_removed actions mls1. stage_remote_commit demo_mls
      (cc_mls_proposals (demo_removal_candidate 1 [3]))
      (cc_commit_message (demo_removal_candidate 1 [3])) demo_service =
      (Inr (Staged (member_id_of 1) self_removed actions), mls1)"
    by (auto simp: demo_buffered_def)
  moreover have "svc_is_steward demo_stewards (member_id_of 1)" by code_simp
  ultimately show ?thesis by blast
qed

text \<open>
  C33. A rejected remote candidate leaves no trace: the queues are untouched and nothing stays
  staged; its penalty, if any, goes to the signer MLS authenticated during staging and never to
  the id the message merely claims.
\<close>

theorem dropped_candidate_leaves_no_trace:
  assumes "apply_incoming_candidate x om svc chosen ctx (q, mls) = (Inr (DropCandidate penalty), st')"
  shows "fst st' = q \<and> ms_pending_staged_commit (snd st') = None \<and>
    (\<forall>op. penalty = Some op \<longrightarrow>
       (\<exists>self_removed actions. fst (stage_remote_commit om (cc_mls_proposals (bc_candidate_msg chosen))
            (cc_commit_message (bc_candidate_msg chosen)) mls) \<in>
          {Inr (Staged (op_member_id op) self_removed actions), Inr (BundleSenderMismatch (op_member_id op))}))"
  using assms
proof (cases rule: apply_incoming_cases)
  case (aborted mls1)
  then show ?thesis using reject_staged_Drop [OF aborted(2)] by simp
next
  case (violation v mls1)
  have "op_member_id op = ve_target_member_id v" if "target_score_op v = Some op" for op
    using that by (auto simp: target_score_op_def split: option.splits)
  then show ?thesis
    using reject_staged_Drop [OF violation(2)] stage_candidate_violation [OF violation(1)] by auto
next
  case (unauthorized sender sr acts v mls1)
  have "op_member_id op = sender" if "target_score_op v = Some op" for op
    using that unauthorized(2)
    by (auto simp: target_score_op_def check_commit_sender_authorized_def misbehaving_commit_def
        violation_evidence_of_def split: option.splits if_splits)
  then show ?thesis
    using reject_staged_Drop [OF unauthorized(3)] stage_candidate_StagedD [OF unauthorized(1)] by auto
next
  case (mismatch sender sr acts v mls1)
  have "op_member_id op = sender" if "target_score_op v = Some op" for op
    using that mismatch(3)
    by (auto simp: target_score_op_def validate_commit_candidate_def broken_mls_proposal_def
        violation_evidence_of_def Let_def split: option.splits if_splits)
  then show ?thesis
    using reject_staged_Drop [OF mismatch(4)] stage_candidate_StagedD [OF mismatch(1)] by auto
qed simp

theorem dropped_candidate_leaves_no_trace_witness:
  "\<exists>st'. apply_incoming_candidate demo_externals demo_mls demo_stewards
       (demo_buffered (demo_removal_candidate 3 [3])) demo_context (demo_queues, demo_service) =
     (Inr (DropCandidate (Some \<lparr>op_member_id = member_id_of 3, op_event = MisbehavingCommit\<rparr>)), st') \<and>
     fst st' = demo_queues"
proof -
  let ?r = "apply_incoming_candidate demo_externals demo_mls demo_stewards
       (demo_buffered (demo_removal_candidate 3 [3])) demo_context (demo_queues, demo_service)"
  have "fst ?r = Inr (DropCandidate (Some \<lparr>op_member_id = member_id_of 3, op_event = MisbehavingCommit\<rparr>))"
    by code_simp
  then have r: "?r = (Inr (DropCandidate (Some \<lparr>op_member_id = member_id_of 3,
      op_event = MisbehavingCommit\<rparr>)), snd ?r)" by (metis prod.collapse)
  show ?thesis using r dropped_candidate_leaves_no_trace [OF r] by blast
qed

text \<open>
  C15. The first candidate of the ranking that applies wins: when the round ends in a commit,
  every candidate ranked before the winner was tried and dropped, the winner's outcome and
  batch are the round's, and the score ops are the penalties of the dropped ones followed by
  the winner's scores; otherwise every candidate was dropped and our own pending commit was
  discarded.
\<close>

theorem first_applicable_candidate_wins:
  assumes "apply_in_priority_order x om svc ctx self cs [] st = (Inr res, st')"
  shows "if crr_outcome res = NoCandidate
    then \<exists>st1. all_dropped x om svc ctx cs st (crr_score_ops res) st1 \<and>
           on_mls (discard_own_commit om) st1 = (Inr (), st')
    else \<exists>pre c post ps st1 committer. cs = pre @ c # post \<and>
           all_dropped x om svc ctx pre st ps st1 \<and>
           apply_candidate x om svc ctx c st1 =
             (Inr (Terminal (crr_outcome res) committer (crr_committed_batch res)), st') \<and>
           crr_score_ops res = record_winner_scores ps committer self ctx post svc"
  using apply_in_priority_order_split [OF assms]
proof
  assume "\<exists>ps st1. all_dropped x om svc ctx cs st ps st1 \<and>
      discard_and_finish om ([] @ ps) st1 = (Inr res, st')"
  then obtain ps st1 where d: "all_dropped x om svc ctx cs st ps st1"
    "discard_and_finish om ps st1 = (Inr res, st')" by auto
  then have "crr_outcome res = NoCandidate" "crr_score_ops res = ps"
    "on_mls (discard_own_commit om) st1 = (Inr (), st')"
    by (auto simp: discard_and_finish_def try_then_eq_Inr)
  with d(1) show ?thesis by (simp only: if_True simp_thms) blast
next
  assume "\<exists>pre c post ps st1 committer. cs = pre @ c # post \<and>
      all_dropped x om svc ctx pre st ps st1 \<and> apply_candidate x om svc ctx c st1 =
         (Inr (Terminal (crr_outcome res) committer (crr_committed_batch res)), st') \<and>
      crr_score_ops res = record_winner_scores ([] @ ps) committer self ctx post svc"
  then obtain pre c post ps st1 committer where w: "cs = pre @ c # post"
    "all_dropped x om svc ctx pre st ps st1" "apply_candidate x om svc ctx c st1 =
       (Inr (Terminal (crr_outcome res) committer (crr_committed_batch res)), st')"
    "crr_score_ops res = record_winner_scores ps committer self ctx post svc" by auto
  have "crr_outcome res \<noteq> NoCandidate" by (rule Terminal_is_Applied [OF w(3)])
  with w show ?thesis by (simp only: if_False) blast
qed

theorem first_applicable_candidate_wins_witness:
  "\<exists>res st'. apply_in_priority_order demo_externals demo_mls demo_stewards demo_context (member_id_of 0)
       [demo_buffered (demo_removal_candidate 3 [3]), demo_buffered (demo_removal_candidate 1 [3])] []
       (demo_queues, demo_service) = (Inr res, st') \<and>
     (\<exists>pre c post. [demo_buffered (demo_removal_candidate 3 [3]),
          demo_buffered (demo_removal_candidate 1 [3])] = pre @ c # post)"
proof -
  let ?r = "apply_in_priority_order demo_externals demo_mls demo_stewards demo_context (member_id_of 0)
       [demo_buffered (demo_removal_candidate 3 [3]), demo_buffered (demo_removal_candidate 1 [3])] []
       (demo_queues, demo_service)"
  let ?res = "\<lparr>crr_outcome = Applied ConversationUpdated None,
     crr_score_ops = [\<lparr>op_member_id = member_id_of 3, op_event = MisbehavingCommit\<rparr>,
       \<lparr>op_member_id = member_id_of 1, op_event = SuccessfulCommit\<rparr>],
     crr_committed_batch = []\<rparr>"
  have "fst ?r = Inr ?res" by code_simp
  then have r: "?r = (Inr ?res, snd ?r)" by (metis prod.collapse)
  from first_applicable_candidate_wins [OF r]
  have "\<exists>pre c post. [demo_buffered (demo_removal_candidate 3 [3]),
      demo_buffered (demo_removal_candidate 1 [3])] = pre @ c # post" by auto
  with r show ?thesis by blast
qed

text \<open>
  A committed batch is not replayed: after a merge is booked, the commit's hash is known,
  so a late broadcast of the same commit is ignored without touching the queues.
\<close>

theorem committed_candidate_not_replayed:
  assumes "queues_inv x q" and "finalize_committed_batch h epoch q = (batch, q')"
    and "compute_commit_hash x (cc_commit_message candidate) = h"
  shows "receive_commit_candidate x om mls candidate q' = (Inr (Noop AlreadyCommitted), q')"
proof -
  have "has_committed_hash q' h"
    using finalize_remembers_hash [of q h epoch] assms(1,2) by (simp add: queues_inv_def)
  then show ?thesis using assms(3) by (simp add: receive_commit_candidate_def Let_def)
qed

theorem committed_candidate_not_replayed_witness:
  "receive_commit_candidate demo_externals demo_mls demo_service (demo_removal_candidate 1 [3])
     (snd (finalize_committed_batch (compute_commit_hash demo_externals [2, 1, 5, 0]) 6 demo_queues)) =
   (Inr (Noop AlreadyCommitted),
    snd (finalize_committed_batch (compute_commit_hash demo_externals [2, 1, 5, 0]) 6 demo_queues))"
proof (rule committed_candidate_not_replayed)
  show "queues_inv demo_externals demo_queues"
    unfolding demo_queues_def by (intro queues_inv_simple queues_inv_new)
  show "compute_commit_hash demo_externals (cc_commit_message (demo_removal_candidate 1 [3])) =
      compute_commit_hash demo_externals [2, 1, 5, 0]" by code_simp
qed (rule prod.collapse [symmetric])

text \<open>
  C37. Ingesting a peer's candidate: it reaches the round buffer only when it is new, carries
  proposals, a commit and a steward id, has the wire kinds of proposals and a commit, and there
  is approved work; with no approved work it is stashed; in every other case the queues do not
  change, and the call never fails.
\<close>

theorem receive_candidate_guards:
  assumes "receive_commit_candidate x om mls c q = (r, q')"
  shows "let well_formed = (\<not> has_committed_hash q (compute_commit_hash x (cc_commit_message c)) \<and>
           cc_mls_proposals c \<noteq> [] \<and> cc_commit_message c \<noteq> [] \<and> cc_steward_member_id c \<noteq> [] \<and>
           list_all (\<lambda>p. inspect_message_kind om p = Inr ProposalMessageKind) (cc_mls_proposals c) \<and>
           inspect_message_kind om (cc_commit_message c) = Inr CommitMessageKind);
         e = mls_epoch om mls; n = length (mls_members om mls)
     in is_ok r \<and>
        (if \<not> well_formed then q' = q
         else if q_approved_proposals q = []
         then q' = stash_early_candidate e c n q \<and> r = Inr (Noop CandidateStashedEarly)
         else q' = q\<lparr>q_commit_round := snd (buffer_add x c False None [] e n (q_commit_round q))\<rparr> \<and>
              (r = Inr (CommitCandidateReceived (cc_steward_member_id c)) \<longleftrightarrow>
               fst (buffer_add x c False None [] e n (q_commit_round q)) = Buffered))"
proof -
  obtain o' b where b: "buffer_add x c False None [] (mls_epoch om mls) (length (mls_members om mls))
      (q_commit_round q) = (o', b)" by (cases "buffer_add x c False None [] (mls_epoch om mls)
        (length (mls_members om mls)) (q_commit_round q)")
  have "into_process_result o' s = CommitCandidateReceived s \<longleftrightarrow> o' = Buffered" for s
    by (cases o') simp_all
  with b assms show ?thesis
    by (auto simp: receive_commit_candidate_def Let_def approved_proposals_count_def split: if_splits)
qed

theorem receive_candidate_guards_witness:
  "\<exists>q'. receive_commit_candidate demo_externals demo_mls demo_service (demo_removal_candidate 1 [3])
       demo_queues = (Inr (CommitCandidateReceived (member_id_of 1)), q') \<and>
     is_ok (Inr (CommitCandidateReceived (member_id_of 1)) :: conversation_error + process_result)"
proof -
  let ?r = "receive_commit_candidate demo_externals demo_mls demo_service (demo_removal_candidate 1 [3])
       demo_queues"
  have "fst ?r = Inr (CommitCandidateReceived (member_id_of 1))" by code_simp
  then have r: "?r = (Inr (CommitCandidateReceived (member_id_of 1)), snd ?r)" by (metis prod.collapse)
  show ?thesis using r receive_candidate_guards [OF r] by (meson is_ok_simps)
qed

text \<open>
  C38. The batch reported for a commit leaves out the removals that just landed: bookkeeping
  drops every approved removal of a departed member before the queue is drained, so a commit
  that only removes members reports an empty batch.
\<close>

theorem committed_batch_omits_landed_removals:
  assumes "q_urgent_commit_target q = None" and "q_pending_membership_delta q = Some delta"
    and "\<forall>(p, req)\<in>set (q_approved_proposals q).
           \<exists>r\<in>set (md_removed delta). req = Some (RemoveMember (member_id_of (mid_leaf r)))"
  shows "fst (finalize_committed_batch h epoch q) = [] \<and>
    q_approved_proposals (snd (finalize_committed_batch h epoch q)) = []"
proof -
  have "imap_retain (\<lambda>_ req. \<forall>r\<in>set (md_removed delta).
        \<not> removes_member req (member_id_of (mid_leaf r))) (q_approved_proposals q) = []"
    using assms(3) unfolding imap_retain_def filter_empty_conv by fastforce
  then show ?thesis
    using committed_batch_eq [OF assms(1,2)] by (simp add: imap_values_def)
qed

theorem committed_batch_omits_landed_removals_witness:
  "fst (finalize_committed_batch [] 6
     (store_membership_delta \<lparr>md_added = [], md_removed = [\<lparr>mid_leaf = 3, mid_tag = []\<rparr>]\<rparr> demo_queues)) = []"
proof -
  let ?q = "store_membership_delta \<lparr>md_added = [], md_removed = [\<lparr>mid_leaf = 3, mid_tag = []\<rparr>]\<rparr> demo_queues"
  have "q_urgent_commit_target ?q = None" "q_pending_membership_delta ?q =
      Some \<lparr>md_added = [], md_removed = [\<lparr>mid_leaf = 3, mid_tag = []\<rparr>]\<rparr>"
    "q_approved_proposals ?q = [(7, Some (RemoveMember (member_id_of 3)))]" by code_simp+
  then show ?thesis using committed_batch_omits_landed_removals [of ?q] by simp
qed

text \<open>
  C39. Losing candidates are scored on the unauthenticated id they claim. When a round ends with the
  merge of a candidate, every candidate ranked behind it is charged without being looked at:
  whatever bytes it holds, the round merges the same commit into the same state, and a member it
  names that is not a steward is charged a misbehaving commit.
\<close>

theorem unstaged_loser_penalises_claimed_member:
  fixes mls :: "('g, 'o) mls_service" and om :: "('g, 'o) openmls" and q :: conversation_queues
    and x :: externals and svc and recovery and self
  defines "taken \<equiv> buffer_take (mls_epoch om mls) (q_commit_round q)"
  defines "q1 \<equiv> q\<lparr>q_commit_round := snd taken\<rparr>"
  defines "ctx \<equiv> round_snapshot om q1 mls svc (mls_epoch om mls) recovery self"
  assumes "rank_applicable_candidates (fst taken) ctx subset_ok = pre @ winner # losers"
    and "all_dropped x om svc ctx pre (q1, mls) ps st1"
    and "apply_candidate x om svc ctx winner st1 = (Inr (Terminal outcome committer batch), st')"
    and "loser \<in> set losers" and "\<not> svc_is_steward svc (cc_steward_member_id (bc_candidate_msg loser))"
  shows "\<exists>res. finalize_commit_round x om svc recovery subset_ok self (q, mls) = (Inr res, st') \<and>
    crr_outcome res = outcome \<and>
    \<lparr>op_member_id = cc_steward_member_id (bc_candidate_msg loser), op_event = MisbehavingCommit\<rparr> \<in>
      set (crr_score_ops res)"
proof -
  have "fst taken \<noteq> []" using assms(4) by (auto simp: rank_applicable_candidates_def)
  then have "finalize_commit_round x om svc recovery subset_ok self (q, mls) =
      (Inr \<lparr>crr_outcome = outcome, crr_score_ops = record_winner_scores ps committer self ctx losers svc,
            crr_committed_batch = batch\<rparr>, st')"
    using assms(4) winner_ends_round [OF assms(5,6), of self losers "[]"]
    unfolding finalize_commit_round_def Let_def by (simp add: split_beta taken_def q1_def ctx_def)
  moreover have "\<lparr>op_member_id = cc_steward_member_id (bc_candidate_msg loser), op_event = MisbehavingCommit\<rparr> \<in>
      set (record_winner_scores ps committer self ctx losers svc)"
    using assms(7,8) unfolding record_winner_scores_def by (fastforce simp: Let_def)
  ultimately show ?thesis by simp
qed

text \<open>A loser that names member 7, who is no steward, and holds a commit message that is none.\<close>

definition demo_forged :: buffered_commit_candidate where
  "demo_forged = demo_buffered ((demo_removal_candidate 2 [3])\<lparr>cc_steward_member_id := member_id_of 7, cc_commit_message := [0]\<rparr>)"

theorem unstaged_loser_penalises_claimed_member_witness:
  "\<exists>res st'. finalize_commit_round demo_externals demo_mls demo_stewards False False (member_id_of 0)
       (demo_queues\<lparr>q_commit_round := \<lparr>cb_epoch = 5,
          cb_candidates = [demo_buffered (demo_removal_candidate 1 [3]), demo_forged]\<rparr>\<rparr>, demo_service) = (Inr res, st') \<and>
     \<lparr>op_member_id = member_id_of 7, op_event = MisbehavingCommit\<rparr> \<in> set (crr_score_ops res)"
proof -
  let ?w = "demo_buffered (demo_removal_candidate 1 [3])"
  let ?q = "demo_queues\<lparr>q_commit_round := \<lparr>cb_epoch = 5, cb_candidates = [?w, demo_forged]\<rparr>\<rparr>"
  have epoch: "mls_epoch demo_mls demo_service = 5" by code_simp
  let ?taken = "buffer_take 5 (q_commit_round ?q)"
  let ?q1 = "?q\<lparr>q_commit_round := snd ?taken\<rparr>"
  let ?ctx = "round_snapshot demo_mls ?q1 demo_service demo_stewards 5 False (member_id_of 0)"
  have ranked: "rank_applicable_candidates (fst ?taken) ?ctx False = [] @ ?w # [demo_forged]" by code_simp
  let ?r = "apply_candidate demo_externals demo_mls demo_stewards ?ctx ?w (?q1, demo_service)"
  have "fst ?r = Inr (Terminal (Applied ConversationUpdated None) (member_id_of 1) [])" by code_simp
  then have won: "?r = (Inr (Terminal (Applied ConversationUpdated None) (member_id_of 1) []), snd ?r)"
    by (metis prod.collapse)
  have victim: "cc_steward_member_id (bc_candidate_msg demo_forged) = member_id_of 7"
    "\<not> svc_is_steward demo_stewards (cc_steward_member_id (bc_candidate_msg demo_forged))" by code_simp+
  show ?thesis
    using unstaged_loser_penalises_claimed_member [of demo_mls demo_service ?q demo_stewards, unfolded epoch,
        OF ranked none_dropped won _ victim(2)] victim(1) by auto
qed

end
