(* ===== verification/Phase_Safety.thy ===== *)
theory Phase_Safety
  imports Frames Commit_Safety
begin

text \<open>
  The lifecycle of a conversation as its integrator sees it: which phase, timer and mode a call
  can leave, over every sequence of calls.
\<close>

section \<open>Operations that keep the phase\<close>

text \<open>The part of the conversation the lifecycle is about.\<close>

definition phase_of ::
  "('g, 'o, 'c, 's) conversation \<Rightarrow> conversation_state \<times> operating_mode \<times> timestamp \<times> phase_timer" where
  "phase_of c = (cn_state c, cn_mode c, cn_now c, tm_phase_timer (cn_timing c))"

lemma phase_engine [simp]: "phase_of (snd (on_engine fe c)) = phase_of c"
  by (simp add: phase_of_def on_engine_def outcome_publish_def split: prod.splits)

interpretation phase: traffic_frame E phase_of for E
  by unfold_locales (simp_all add: phase_of_def on_engine_def outcome_publish_def broadcast_def split: prod.splits)

lemmas phase_try = phase.view_try
  and phase_snd = phase.view_snd
  and phase_fold = phase.view_fold

lemma phase_basic [simp]:
  "phase_of (outcome_publish evs c) = phase_of c"
  "phase_of (snd (outcome_try_recv c)) = phase_of c"
  "phase_of (c\<lparr>cn_recovery_rounds := n\<rparr>) = phase_of c"
  by (simp_all add: phase_of_def outcome_publish_def outcome_try_recv_def split: list.splits)

section \<open>Transitions\<close>

lemma phase_timer_ops [simp]:
  "phase_timer_clear t = \<lparr>pt_started_at = None\<rparr>"
  "phase_timer_start now t = \<lparr>pt_started_at = Some now\<rparr>"
  by (simp_all add: phase_timer_clear_def phase_timer_start_def)

lemma phase_transitions:
  "phase_of (snd (start_working c)) = (Working, cn_mode c, cn_now c, \<lparr>pt_started_at = None\<rparr>)"
  "phase_of (snd (start_selection c)) =
     (Selection, cn_mode c, cn_now c, tm_phase_timer (cn_timing c))"
  "phase_of (snd (start_reelection c)) = (Reelection, cn_mode c, cn_now c, \<lparr>pt_started_at = None\<rparr>)"
  "phase_of (snd (start_freezing c)) =
     (if cn_state c = Working \<or> cn_state c = Reelection
      then (Freezing, cn_mode c, cn_now c, \<lparr>pt_started_at = Some (cn_now c)\<rparr>) else phase_of c)"
  "phase_of (snd (reopen_recovery_window c)) =
     (if cn_state c = Selection
      then (Freezing, cn_mode c, cn_now c, \<lparr>pt_started_at = Some (cn_now c)\<rparr>) else phase_of c)"
  "phase_of (enter_recovery_mode c) =
     (cn_state c, RecoveryMode, cn_now c, tm_phase_timer (cn_timing c))"
  "phase_of (exit_recovery_mode c) =
     (cn_state c, NormalMode, cn_now c, tm_phase_timer (cn_timing c))"
  by (simp_all add: phase_of_def start_working_def start_selection_def start_reelection_def
      start_freezing_def reopen_recovery_window_def enter_recovery_mode_def exit_recovery_mode_def
      on_phase_timer_def on_timing_def sm_start_working_def sm_start_selection_def
      sm_start_reelection_def sm_start_freezing_def sm_reopen_freezing_def
      split: conversation_state.splits)

text \<open>
  The lifecycle invariant between calls: a freeze has its timer running, a reelection has none, and
  selection is never left standing. Unless the integrator sets the operating mode itself
  (\<open>windowed\<close>), recovery mode moreover only lasts while its collection window is open.
\<close>

fun lifecycle_ok :: "bool \<Rightarrow> conversation_state \<times> operating_mode \<times> timestamp \<times> phase_timer \<Rightarrow> bool" where
  "lifecycle_ok windowed (state, mode, now, timer) \<longleftrightarrow>
     (state = Freezing \<longrightarrow> pt_started_at timer \<noteq> None) \<and>
     (state = Reelection \<longrightarrow> pt_started_at timer = None) \<and>
     (windowed \<and> mode = RecoveryMode \<longrightarrow> state = Freezing) \<and> state \<noteq> Selection"

text \<open>The phases a round outside recovery ends in.\<close>

definition settled_phase :: "conversation_state \<times> operating_mode \<times> timestamp \<times> phase_timer \<Rightarrow> bool" where
  "settled_phase ph \<longleftrightarrow> lifecycle_ok True ph \<and> fst ph \<noteq> Freezing"

lemma settled_phase_ok: "settled_phase ph \<Longrightarrow> lifecycle_ok windowed ph"
  by (cases ph) (auto simp: settled_phase_def)

abbreviation conv_ok :: "bool \<Rightarrow> ('g, 'o, 'c, 's) conversation \<Rightarrow> bool" where
  "conv_ok windowed c \<equiv> lifecycle_ok windowed (phase_of c)"

lemma kept_try:
  assumes "P (phase_of (snd r))"
    and "\<And>v d. r = (Inr v, d) \<Longrightarrow> P (phase_of d) \<Longrightarrow> P (phase_of (snd (k v d)))"
  shows "P (phase_of (snd (try_then r k)))"
proof (cases r)
  case (Pair a d)
  with assms show ?thesis by (cases a) auto
qed

lemmas ok_try = kept_try [where P = "lifecycle_ok windowed"] for windowed

lemma ok_fold: "(\<And>v d. phase_of (f v d) = phase_of d) \<Longrightarrow> conv_ok windowed c \<Longrightarrow> conv_ok windowed (fold f vs c)"
  by (simp add: phase_fold)

lemma ok_exit_recovery: "conv_ok windowed c \<Longrightarrow> conv_ok windowed (exit_recovery_mode c)"
  by (simp add: phase_transitions) (simp add: phase_of_def)

lemma ok_start_freezing: "conv_ok windowed c \<Longrightarrow> conv_ok windowed (snd (start_freezing c))"
  by (simp add: phase_transitions)

lemma mode_exit_recovery [simp]: "cn_mode (exit_recovery_mode c) = NormalMode"
  by (simp add: exit_recovery_mode_def)

lemma ok_resume: "conv_ok windowed c \<Longrightarrow> conv_ok windowed (resume_from_reelection c)"
proof (cases "cn_state c = Reelection")
  case True
  assume "conv_ok windowed c"
  with True have "windowed \<longrightarrow> cn_mode c = NormalMode" by (cases "cn_mode c") (auto simp: phase_of_def)
  with True show ?thesis
    using phase_transitions(1) [of c]
    by (auto simp: resume_from_reelection_def emit_phase_change_def split: prod.splits)
qed (simp add: resume_from_reelection_def)

lemma ok_open_recovery:
  assumes "conv_ok windowed c"
  shows "conv_ok windowed (start_freezing_and_emit (enter_recovery_mode c))"
proof -
  let ?d = "enter_recovery_mode c"
  have "phase_of (start_freezing_and_emit ?d) = phase_of (snd (start_freezing ?d))"
    by (simp add: start_freezing_and_emit_def split: prod.splits)
  moreover have "cn_state ?d = cn_state c" "cn_now ?d = cn_now c" "cn_mode ?d = RecoveryMode"
    "cn_timing ?d = cn_timing c"
    by (simp_all add: enter_recovery_mode_def)
  ultimately show ?thesis using assms
    by (cases "cn_state c") (auto simp: phase_transitions, simp_all add: phase_of_def)
qed

lemma ok_election_installed:
  assumes "conv_ok windowed d"
  shows "conv_ok windowed (resume_from_reelection (exit_recovery_mode d))"
    "conv_ok windowed (resume_from_reelection
       (on_timing (\<lambda>t. t\<lparr>tm_reelection_recovered := True\<rparr>) (exit_recovery_mode d)))"
  using ok_resume ok_exit_recovery [OF assms] phase.view_anchors(6) by metis+

lemma ok_election_accepted:
  assumes "conv_ok windowed c"
  shows "conv_ok windowed (snd (handle_election_accepted E election c))"
proof (cases "validate_election_list E c election")
  case (Inr valid)
  then show ?thesis
    using assms
    by (auto simp: handle_election_accepted_def Let_def split_beta simp del: lifecycle_ok.simps
        split: bool.splits intro!: ok_try ok_election_installed)
qed (use assms in \<open>simp add: handle_election_accepted_def\<close>)

lemma ok_emergency_scored:
  assumes "conv_ok windowed c"
  shows "conv_ok windowed (snd (handle_emergency_scored E p ops c))"
  unfolding handle_emergency_scored_def
  by (rule ok_try) (use assms in \<open>simp_all add: ok_resume del: lifecycle_ok.simps\<close>)

lemma ok_urgent:
  assumes "conv_ok windowed c"
  shows "conv_ok windowed (snd (follow_up E (UrgentRemoval t) c))"
proof (cases "start_freezing c")
  case (Pair event d)
  have "conv_ok windowed d" using ok_start_freezing [OF assms] Pair by simp
  with Pair show ?thesis
    by (cases event) (auto intro!: ok_try simp del: lifecycle_ok.simps)
qed

lemma ok_follow_up:
  assumes "conv_ok windowed c"
  shows "conv_ok windowed (snd (follow_up E r c))"
proof (cases r)
  case (ElectionAccepted election)
  then show ?thesis using ok_election_accepted [OF assms] by simp
next
  case (UrgentRemoval t)
  then show ?thesis using ok_urgent [OF assms] by simp
next
  case RecoveryModeOpened
  then show ?thesis using ok_open_recovery [OF assms] by (simp del: lifecycle_ok.simps)
qed (use assms in \<open>simp_all del: lifecycle_ok.simps\<close>)

lemma ok_consensus_outcome:
  assumes "conv_ok windowed c"
  shows "conv_ok windowed (snd (handle_consensus_outcome E event c))"
proof -
  have rest: "conv_ok windowed (snd (try_then (applied, d) (\<lambda>ca c5.
        try_then (conv_replay_early_candidates E c5) (\<lambda>_ c6.
        try_then (follow_up E ca c6) (\<lambda>_ c7.
        try_then (if ops = [] then (Inr (), c7) else handle_emergency_scored E p ops c7) (\<lambda>_ c8.
          on_engine (ce_remove_session (env_ce E) (cn_id c8) p) c8))))))" if "conv_ok windowed d" for d applied p ops
    by (rule ok_try, use that in \<open>simp del: lifecycle_ok.simps\<close>)
       (auto intro!: ok_try ok_follow_up ok_emergency_scored simp del: lifecycle_ok.simps)
  show ?thesis
    using assms unfolding handle_consensus_outcome_def Let_def split_beta
    by (auto simp del: lifecycle_ok.simps split: sum.splits intro!: rest)
qed

lemma ok_drain:
  assumes ret: "drain_outcomes E c = Some c'" and "conv_ok windowed c"
  shows "conv_ok windowed c'"
proof -
  have "conv_ok windowed c \<longrightarrow> conv_ok windowed c'"
  proof (rule drain_outcomes.raw_induct [where P = "\<lambda>E c c'. conv_ok windowed c \<longrightarrow> conv_ok windowed c'", OF _ ret])
    fix drain E c c'
    assume IH: "\<And>E c c'. drain E c = Some c' \<Longrightarrow> conv_ok windowed c \<longrightarrow> conv_ok windowed c'"
      and eq: "(case outcome_try_recv c of
          (None, c') \<Rightarrow> Some c'
        | (Some (_, event), c') \<Rightarrow> drain E (snd (handle_consensus_outcome E event c'))) = Some c'"
    obtain ev d where recv: "outcome_try_recv c = (ev, d)" by (cases "outcome_try_recv c")
    have d: "phase_of d = phase_of c" using recv phase_snd [OF recv phase_basic(2)] by simp
    show "conv_ok windowed c \<longrightarrow> conv_ok windowed c'"
    proof (cases ev)
      case None
      then show ?thesis using eq recv d by simp
    next
      case (Some e)
      then have "drain E (snd (handle_consensus_outcome E (snd e) d)) = Some c'"
        using eq recv by (cases e) simp
      then show ?thesis using IH ok_consensus_outcome [of windowed d] d by metis
    qed
  qed
  with assms(2) show ?thesis by simp
qed

section \<open>The commit round\<close>

lemma applied_result:
  assumes "apply_candidate x om svc ctx c st = (Inr (Terminal (Applied r w) committer batch), st')"
  shows "r = ConversationUpdated \<or> r = LeaveConversation"
proof (cases "bc_is_local_candidate c")
  case True
  then show ?thesis using assms
    by (auto simp: apply_candidate_def apply_local_candidate_def try_then_eq_Inr Let_def split_beta
        leave_or_update_def)
next
  case False
  then have "apply_incoming_candidate x om svc c ctx st = (Inr (Terminal (Applied r w) committer batch), st')"
    using assms by (simp add: apply_candidate_def)
  then show ?thesis
    by (cases rule: apply_incoming_cases) (auto dest: reject_staged_Drop simp: leave_or_update_def)
qed

lemma discard_and_finish_NoCandidate:
  "discard_and_finish om ops st = (Inr res, st') \<Longrightarrow> crr_outcome res = NoCandidate"
  by (auto simp: discard_and_finish_def try_then_eq_Inr)

lemma finalize_applied_result:
  assumes "finalize_commit_round x om svc rec sub self st = (Inr res, st')"
    and "crr_outcome res = Applied r w"
  shows "r = ConversationUpdated \<or> r = LeaveConversation"
proof -
  have order: "r = ConversationUpdated \<or> r = LeaveConversation"
    if "apply_in_priority_order x om svc ctx self cs [] st1 = (Inr res, st')" for ctx cs st1
    using apply_in_priority_order_split [OF that] assms(2)
    by (auto dest: discard_and_finish_NoCandidate applied_result)
  show ?thesis
    using assms
    by (auto simp: finalize_commit_round_def Let_def split: if_splits prod.splits
        dest!: discard_and_finish_NoCandidate order)
qed

lemma phase_conversation_updated:
  "phase_of (snd (on_conversation_updated E c)) =
     (Working, cn_mode c, cn_now c, \<lparr>pt_started_at = None\<rparr>)"
proof -
  let ?c1 = "on_timing (\<lambda>t. t\<lparr>tm_reelection_recovered := False\<rparr>) (c\<lparr>cn_stewards := reset_retry (cn_stewards c)\<rparr>)"
  have c1: "cn_mode ?c1 = cn_mode c" "cn_now ?c1 = cn_now c" by (simp_all add: on_timing_def)
  show ?thesis
    unfolding on_conversation_updated_def Let_def split_beta
    by (rule phase_try; (rule phase_try)?)
       (simp_all add: phase_transitions c1 maybe_close_recovery_window_def)
qed

lemma phase_resume_working:
  "phase_of (resume_working c) = (Working, cn_mode c, cn_now c, \<lparr>pt_started_at = None\<rparr>)"
  by (simp add: resume_working_def split_beta phase_transitions)

lemma ok_retry_or_exhaust:
  assumes "cn_state c = Selection"
  shows "conv_ok windowed (retry_or_exhaust_recovery c)"
proof -
  let ?d = "c\<lparr>cn_recovery_rounds := cn_recovery_rounds c + 1\<rparr>"
  have "conv_ok windowed (snd (reopen_recovery_window ?d))" "conv_ok windowed (snd (start_working (exit_recovery_mode ?d)))"
    using assms by (auto simp: phase_transitions)
  then show ?thesis
    by (auto simp: retry_or_exhaust_recovery_def Let_def simp del: lifecycle_ok.simps
        split: prod.splits option.splits)
qed

lemma ok_no_candidate:
  assumes "cn_mode c = NormalMode"
  shows "settled_phase (phase_of (snd (no_candidate_outside_recovery E hp c)))"
proof (cases hp)
  case True
  have re: "settled_phase (phase_of (snd (start_reelection c)))"
    using assms by (simp add: phase_transitions settled_phase_def)
  have penal: "settled_phase (phase_of (snd (case missed_commit_target E d of
      Some m \<Rightarrow> apply_score_ops E [\<lparr>op_member_id = m, op_event = CensorshipInactivity\<rparr>] d
    | None \<Rightarrow> (Inr (), d))))" if "settled_phase (phase_of d)" for d
    using that by (cases "missed_commit_target E d") simp_all
  show ?thesis
    unfolding no_candidate_outside_recovery_def split_beta 
    using True by simp (rule kept_try [where P = settled_phase], rule penal, rule re, simp)
next
  case False
  then show ?thesis
    using assms by (simp add: no_candidate_outside_recovery_def phase_resume_working clear_commit_round_def
        on_queues_def settled_phase_def)
qed

lemma phase_of_eqD: "phase_of d = phase_of c \<Longrightarrow> cn_state d = cn_state c \<and> cn_mode d = cn_mode c"
  by (simp add: phase_of_def)

lemma ok_dispatch_round:
  assumes "r = ConversationUpdated \<or> r = LeaveConversation" and "cn_mode c = NormalMode"
    and "dispatch_inbound_result E r c = (out, c')"
  shows "out = Inr LeaveRequested \<or> settled_phase (phase_of c')"
proof (cases "r = LeaveConversation")
  case False
  then have "c' = snd (done_after (on_conversation_updated E c))" using assms by auto
  moreover have "phase_of (snd (done_after (on_conversation_updated E c))) =
      (Working, cn_mode c, cn_now c, \<lparr>pt_started_at = None\<rparr>)"
    unfolding done_after_def by (rule phase_try) (simp_all add: phase_conversation_updated)
  ultimately show ?thesis using assms(2) by (simp add: settled_phase_def)
qed (use assms in simp)

lemma ok_after_round:
  assumes sel: "cn_state c = Selection" and rec: "rec \<longleftrightarrow> cn_mode c = RecoveryMode"
    and applied: "\<And>r w. crr_outcome res = Applied r w \<Longrightarrow> r = ConversationUpdated \<or> r = LeaveConversation"
    and run: "after_round E rec hp res c = (out, c')"
  shows "out = Inr LeaveRequested \<or> conv_ok windowed c' \<and> (\<not> rec \<longrightarrow> settled_phase (phase_of c'))"
proof -
  let ?c2 = "record_round E res c"
  have c2: "cn_state ?c2 = Selection" "cn_mode ?c2 = cn_mode c"
    using phase_of_eqD [OF phase.view_record_round [of E res c]] sel by simp_all
  show ?thesis
  proof (cases "crr_outcome res")
    case (Applied r w)
    let ?c4 = "merged_round E rec w ?c2"
    have "cn_mode (if rec then exit_recovery_mode ?c2 else ?c2) = NormalMode"
      using rec c2 by (cases "cn_mode c") auto
    then have "cn_mode ?c4 = NormalMode"
      using phase_of_eqD [OF phase.view_merged_round [of E rec w ?c2]] by simp
    moreover obtain o5 c5 where dispatched: "dispatch_inbound_result E r ?c4 = (o5, c5)"
      by (cases "dispatch_inbound_result E r ?c4")
    ultimately have "o5 = Inr LeaveRequested \<or> settled_phase (phase_of c5)"
      using ok_dispatch_round [OF applied [OF Applied]] by blast
    then show ?thesis
      using run dispatched by (auto simp: after_round_Applied [OF Applied] dest: settled_phase_ok)
  next
    case NoCandidate
    have "conv_ok windowed (resume_working (exit_recovery_mode (clear_commit_round ?c2)))"
      by (simp add: phase_resume_working)
    moreover have "settled_phase (phase_of (snd (no_candidate_outside_recovery E hp ?c2)))" if "\<not> rec"
      using ok_no_candidate that rec c2 by (cases "cn_mode ?c2") auto
    ultimately show ?thesis
      using run ok_retry_or_exhaust [OF c2(1)]
      by (auto simp: after_round_NoCandidate [OF NoCandidate] simp del: lifecycle_ok.simps
          split: if_splits dest: settled_phase_ok)
  qed
qed

lemma ok_run_selection:
  assumes "run_selection E c = (out, c')"
  shows "out = Inr LeaveRequested \<or>
    conv_ok windowed c' \<and> (cn_mode c = NormalMode \<longrightarrow> settled_phase (phase_of c'))"
proof -
  define c2 where "c2 = emit_event (PhaseChange Selection) (snd (start_selection c))"
  have "phase_of c2 = (Selection, cn_mode c, cn_now c, tm_phase_timer (cn_timing c))"
    by (simp add: c2_def phase_transitions)
  then have c2: "cn_state c2 = Selection" "cn_mode c2 = cn_mode c" by (simp_all add: phase_of_def)
  obtain r c3 where fin: "conv_finalize_commit_round E (is_in_recovery_mode c \<or>
      slc_allow_subset_candidates (svc_config (cn_stewards c2))) (cn_self_member_id c2) c2 = (r, c3)"
    by (cases "conv_finalize_commit_round E (is_in_recovery_mode c \<or>
      slc_allow_subset_candidates (svc_config (cn_stewards c2))) (cn_self_member_id c2) c2")
  have c3: "cn_state c3 = Selection" "cn_mode c3 = cn_mode c"
    using phase_of_eqD [OF phase_snd [OF fin phase.view_finalize]] c2 by simp_all
  show ?thesis
  proof (cases r)
    case (Inl e)
    let ?d = "emit_event (ErrorEvent ''commit_round_finalize'' (Displayed e)) c3"
    have d: "cn_state ?d = Selection" "cn_mode ?d = cn_mode c" using c3 by (simp_all add: emit_event_def)
    have "conv_ok windowed (recover_from_finalize_error ?d) \<and>
        (cn_mode c = NormalMode \<longrightarrow> settled_phase (phase_of (recover_from_finalize_error ?d)))"
      using ok_retry_or_exhaust [OF d(1)] d(2)
      by (cases "cn_mode c") (simp_all add: recover_from_finalize_error_def is_in_recovery_mode_def
          phase_resume_working settled_phase_def)
    then show ?thesis using assms fin Inl
      by (auto simp: run_selection_def Let_def start_selection_def c2_def simp del: lifecycle_ok.simps)
  next
    case (Inr res)
    have outcome: "r = ConversationUpdated \<or> r = LeaveConversation" if "crr_outcome res = Applied r w" for r w
      using fin Inr that finalize_applied_result
      by (fastforce simp: conv_finalize_commit_round_def on_round_def split: prod.splits)
    have "after_round E (is_in_recovery_mode c) (approved_proposals_count (cn_queues (snd (start_selection c))) > 0)
        res c3 = (out, c')"
      using assms fin Inr by (simp add: run_selection_def Let_def start_selection_def c2_def)
    from ok_after_round [OF c3(1) _ outcome this] show ?thesis
      using c3(2) by (auto simp: is_in_recovery_mode_def)
  qed
qed

lemma ok_advance_freezing:
  assumes "advance_freezing E c = (out, c')" and "conv_ok windowed c"
  shows "out = Inr LeaveRequested \<or> conv_ok windowed c'"
  using assms ok_run_selection
  by (fastforce simp: advance_freezing_def Let_def simp del: lifecycle_ok.simps split: if_splits prod.splits)

end
