(* ===== verification/Example_Conversation.thy ===== *)
theory Example_Conversation
  imports Polling Example_Group
begin

text \<open>
  A concrete consensus engine and a concrete conversation of the group \<open>demo_service\<close>, on which
  the theorems about the conversation layer are evaluated. The engine keeps its sessions in a
  list, numbers proposals, and resolves a session with a single expected voter at once.
\<close>

record demo_engine_state =
  de_sessions :: "consensus_proposal list"
  de_next :: u32

definition demo_session :: "demo_engine_state \<Rightarrow> u32 \<Rightarrow> consensus_proposal option" where
  "demo_session s pid = find (\<lambda>p. cp_proposal_id p = pid) (de_sessions s)"

definition demo_vote :: "u32 \<Rightarrow> bool \<Rightarrow> consensus_vote" where
  "demo_vote pid v =
     \<lparr>cv_vote_id = 0, cv_vote_owner = [], cv_proposal_id = pid, cv_timestamp = 0, cv_vote = v,
      cv_parent_hash = [], cv_received_hash = [], cv_vote_hash = [], cv_signature = []\<rparr>"

definition demo_proposal :: "u32 \<Rightarrow> bytes \<Rightarrow> bytes \<Rightarrow> u32 \<Rightarrow> consensus_proposal" where
  "demo_proposal pid payload owner voters =
     \<lparr>cp_name = [], cp_payload = payload, cp_proposal_id = pid, cp_proposal_owner = owner,
      cp_votes = [], cp_expected_voters_count = voters, cp_round = 1, cp_timestamp = 0,
      cp_expiration_timestamp = 100, cp_liveness_criteria_yes = True\<rparr>"

definition demo_resolution :: "string \<Rightarrow> consensus_proposal \<Rightarrow> u64 \<Rightarrow> (string \<times> consensus_event) list" where
  "demo_resolution scope p now =
     (if cp_expected_voters_count p = 1 then [(scope, ConsensusReached (cp_proposal_id p) True now)] else [])"

definition demo_engine :: "demo_engine_state consensus_engine" where
  "demo_engine =
     \<lparr>ce_new = (\<lambda>_. \<lparr>de_sessions = [], de_next = 1\<rparr>),
      ce_create_proposal = (\<lambda>scope payload owner voters secs live timeout now s.
        let p = demo_proposal (de_next s) payload owner voters
        in (Inr p, [], s\<lparr>de_sessions := de_sessions s @ [p], de_next := de_next s + 1\<rparr>)),
      ce_cast_vote = (\<lambda>scope pid v now s.
        case demo_session s pid of
          None \<Rightarrow> (Inl SessionNotFound, [], s)
        | Some p \<Rightarrow> (Inr (demo_vote pid v), [], s)),
      ce_cast_vote_and_get_proposal = (\<lambda>scope pid v now s.
        case demo_session s pid of
          None \<Rightarrow> (Inl SessionNotFound, [], s)
        | Some p \<Rightarrow> (Inr (p\<lparr>cp_votes := [demo_vote pid v]\<rparr>), demo_resolution scope p now, s)),
      ce_process_incoming_vote = (\<lambda>scope v now s.
        case demo_session s (cv_proposal_id v) of
          None \<Rightarrow> (Inl SessionNotFound, [], s)
        | Some p \<Rightarrow> (Inr (), [], s)),
      ce_process_incoming_proposal = (\<lambda>scope p now s.
        if cp_expiration_timestamp p < now then (Inl ProposalExpired, [], s)
        else if demo_session s (cp_proposal_id p) \<noteq> None then (Inl ProposalAlreadyExist, [], s)
        else (Inr (), demo_resolution scope p now, s\<lparr>de_sessions := de_sessions s @ [p]\<rparr>)),
      ce_handle_consensus_timeout = (\<lambda>scope pid now s.
        (Inr (), [(scope, ConsensusFailed pid now)], s)),
      ce_get_active_proposals = (\<lambda>s scope. Inr (de_sessions s)),
      ce_get_proposal = (\<lambda>s scope pid.
        case demo_session s pid of None \<Rightarrow> Inl SessionNotFound | Some p \<Rightarrow> Inr p),
      ce_remove_session = (\<lambda>scope pid s.
        (Inr (), [], s\<lparr>de_sessions := filter (\<lambda>p. cp_proposal_id p \<noteq> pid) (de_sessions s)\<rparr>)),
      ce_build_vote = (\<lambda>s p v now. Inr (demo_vote (cp_proposal_id p) v))\<rparr>"

text \<open>A codec for the requests and messages the examples exchange.\<close>

definition demo_codec :: externals where
  "demo_codec =
     demo_externals\<lparr>x_encode_request := (\<lambda>r. case r of Some (RemoveMember m) \<Rightarrow> 1 # m | _ \<Rightarrow> []),
       x_decode_request := (\<lambda>b. case b of
          [] \<Rightarrow> Inl ''empty''
        | t # m \<Rightarrow> if t = 1 then Inr (Some (RemoveMember m))
                  else if t = 2 then Inr (Some (EmergencyCriteria None))
                  else if t = 3 then Inr (Some (MemberInvite m))
                  else Inl ''tag''),
       x_decode_app := (\<lambda>b. case b of
          [v] \<Rightarrow> Inr (Some (ProposalPayload (demo_proposal (ucast v) (1 # member_id_of (ucast v))
                          (member_id_of (ucast v)) 1)))
        | _ \<Rightarrow> Inl ''app'')\<rparr>"

definition demo_env ::
  "(demo_group, demo_object, demo_engine_state, in_memory_peer_score_storage) environment" where
  "demo_env = \<lparr>env_x = demo_codec, env_om = demo_mls, env_store = in_memory_storage, env_ce = demo_engine\<rparr>"

definition demo_scores :: "in_memory_peer_score_storage peer_scoring_service" where
  "demo_scores = scoring_new (map (\<lambda>i. (member_id_of i, 100)) [0, 1, 2, 3]) [] scoring_config_default"

text \<open>A configuration with windows of a few nanoseconds.\<close>

definition demo_config :: conversation_config where
  "demo_config =
     \<lparr>cfg_commit_batch_window = 4, cfg_freeze_duration = 2, cfg_retry_window = 1,
      cfg_backup_takeover_window = 2, cfg_proposal_expiration = 6, cfg_consensus_timeout = 3,
      cfg_voting_delay = 1, cfg_pending_update_max_epochs = 3, cfg_max_reelection_attempts = 2,
      cfg_liveness_criteria_yes = True, cfg_max_consensus_sessions = 4, cfg_commit_batch_max = 1,
      cfg_dedup_window = 4, cfg_recovery_auto_commit_delay = Some 1, cfg_recovery_max_rounds = 2,
      cfg_steward_list = steward_list_config_default\<rparr>"

definition demo_conversation ::
  "(demo_group, demo_object, demo_engine_state, in_memory_peer_score_storage) conversation" where
  "demo_conversation =
     conversation_new ''c'' (queues_new ''c'' 4) demo_service demo_scores demo_stewards
       \<lparr>de_sessions = [], de_next = 1\<rparr> Working demo_config 0 (member_id_of 0) [9]"

lemma demo_created:
  "\<exists>c. create_conversation demo_env ''c'' (scoring_new [] [] scoring_config_default) 0 [9] demo_config [] = Inr c"
proof -
  have "is_ok (create_conversation demo_env ''c'' (scoring_new [] [] scoring_config_default) 0 [9] demo_config [])"
    by code_simp
  then show ?thesis by (auto simp: is_ok_def split: sum.splits)
qed

end
