(* ===== verification/Lifecycle.thy ===== *)
theory Lifecycle
  imports Phase_Safety Example_Conversation
begin

text \<open>
  Every way an integrator can drive a conversation, as a step relation: a clock that does not
  run backwards, a poll, an inbound packet, the sync that comes with a welcome, the intents, and the
  two setters of the operating mode. A poll or packet that reports \<open>LeaveRequested\<close> ends the
  conversation, so it takes no further step.
\<close>

section \<open>Steps and reachability\<close>

text \<open>The calls other than the handing over of bytes from others.\<close>

inductive conv_call ::
  "('g, 'o, 'c, 's) environment \<Rightarrow> ('g, 'o, 'c, 's) conversation \<Rightarrow> ('g, 'o, 'c, 's) conversation \<Rightarrow> bool"
  for E where
  tick: "cn_now c \<le> now \<Longrightarrow> conv_call E c (c\<lparr>cn_now := now\<rparr>)"
| polled: "poll E c = Some (out, c') \<Longrightarrow> \<not> po_leave_requested out \<Longrightarrow> conv_call E c c'"
| proposed: "conv_call E c (snd (initiate_proposal E request cv c))"
| voted: "conv_call E c (snd (cast_manual_vote E pid v c))"
| left: "conv_call E c (snd (leave E c))"
| messaged: "conv_call E c (snd (send_message E text c))"
| added: "conv_call E c (snd (add_member E kp c))"
| sponsored: "conv_call E c (snd (sponsor_member E kp c))"
| removed: "conv_call E c (snd (remove_member E h c))"
| recovery_requested: "conv_call E c (snd (request_recovery E c))"
| score_removal: "conv_call E c (snd (propose_score_removal E target c))"
| recovery_commit: "conv_call E c (snd (commit_in_recovery E c))"
| resent: "conv_call E c (snd (resend_commit E c))"
| sync_shared: "conv_call E c (snd (share_conversation_sync E c))"
| sync_requested: "conv_call E c (snd (request_conversation_sync E c))"
| recovery_entered: "conv_call E c (enter_recovery_mode c)"
| recovery_exited: "conv_call E c (exit_recovery_mode c)"
| events_drained: "conv_call E c (snd (drain_events c))"
| outbound_drained: "conv_call E c (snd (drain_outbound c))"

inductive conv_step ::
  "('g, 'o, 'c, 's) environment \<Rightarrow> ('g, 'o, 'c, 's) conversation \<Rightarrow> ('g, 'o, 'c, 's) conversation \<Rightarrow> bool"
  for E where
  called: "conv_call E c c' \<Longrightarrow> conv_step E c c'"
| inbound: "process_inbound E sender payload c = (out, c') \<Longrightarrow> out \<noteq> Inr LeaveRequested \<Longrightarrow>
    conv_step E c c'"
| welcome_synced: "conv_step E c (snd (apply_welcome_sync E blob c))"

inductive conv_reachable ::
  "('g, 'o, 'c, 's) environment \<Rightarrow> ('g, 'o, 'c, 's) conversation \<Rightarrow> bool" for E where
  created: "create_conversation E name scoring now app_id config members = Inr c \<Longrightarrow> conv_reachable E c"
| joined: "join_conversation E utf8 welcome sync scoring now app_id config = Inr (Some c) \<Longrightarrow>
    conv_reachable E c"
| stepped: "conv_reachable E c \<Longrightarrow> conv_step E c c' \<Longrightarrow> conv_reachable E c'"

section \<open>The invariant\<close>

lemma ok_check_inactivity:
  assumes "conv_ok windowed c"
  shows "conv_ok windowed (snd (check_steward_inactivity n d c))"
proof -
  have "phase_of (on_phase_timer (phase_timer_start (cn_now c)) c) =
      (cn_state c, cn_mode c, cn_now c, \<lparr>pt_started_at = Some (cn_now c)\<rparr>)"
    by (simp add: phase_of_def on_phase_timer_def on_timing_def)
  with assms show ?thesis
    by (auto simp: check_steward_inactivity_def phase_transitions) (auto simp: phase_of_def)
qed

lemma ok_inactivity_freeze:
  assumes "conv_ok windowed c"
  shows "conv_ok windowed (snd (start_freeze_on_inactivity E c))"
proof -
  have "conv_ok windowed d" if "check_steward_inactivity n w c = (e, d)" for n w e d
    using ok_check_inactivity [OF assms, of n w] that by simp
  then show ?thesis
    using assms by (auto simp: start_freeze_on_inactivity_def Let_def simp del: lifecycle_ok.simps
        split: prod.splits option.splits)
qed

lemma ok_poll:
  assumes "poll E c = Some (out, c')" and "conv_ok windowed c" and "\<not> po_leave_requested out"
  shows "conv_ok windowed c'"
proof -
  obtain c1 where c1: "tick_deadlines E c = Some c1"
    using assms(1) by (cases "tick_deadlines E c") (auto simp: poll_def)
  have "conv_ok windowed c1"
    using c1 ok_drain [of E "fire_deadlines E c" c1] assms(2) by (simp add: tick_deadlines_def)
  moreover obtain d c2 where adv: "advance_freezing E c1 = (d, c2)"
    by (cases "advance_freezing E c1")
  moreover have "d \<noteq> Inr LeaveRequested"
    using assms(1,3) c1 adv by (auto simp: poll_def Let_def)
  ultimately have "conv_ok windowed c2" using ok_advance_freezing by blast
  then have "conv_ok windowed (snd (start_freeze_on_inactivity E
      (snd (drive_sync_request E (snd (drive_sync_resend E (drive_buffered_proposals E c2)))))))"
    by (intro ok_inactivity_freeze) simp
  then show ?thesis using assms(1) c1 adv by (auto simp: poll_def Let_def)
qed

lemma receive_candidate_result:
  assumes "receive_commit_candidate x om mls candidate q = (Inr r, q')"
  shows "(\<exists>s. r = CommitCandidateReceived s) \<or> (\<exists>n. r = Noop n)"
proof -
  have "(\<exists>s. into_process_result o1 m = CommitCandidateReceived s) \<or> (\<exists>n. into_process_result o1 m = Noop n)" for o1 m
    by (cases o1) simp_all
  with assms show ?thesis
    by (auto simp: receive_commit_candidate_def Let_def split: if_splits prod.splits)
qed

lemma process_result_of_app_cases:
  "process_result_of_app m \<noteq> ConversationUpdated" "process_result_of_app m \<noteq> LeaveConversation"
  by (cases m rule: process_result_of_app.cases; simp)+

lemma classify_app_message_result:
  "classify_app_message x om mls mem m \<noteq> ConversationUpdated"
  "classify_app_message x om mls mem m \<noteq> LeaveConversation"
  using process_result_of_app_cases [of m]
  by (auto simp: classify_app_message_def split: option.splits app_payload.splits)

text \<open>No packet is decoded to the results that only a finished commit round produces.\<close>

lemma decode_result:
  assumes "decode_inbound E payload c = (Inr r, c')"
  shows "r \<noteq> ConversationUpdated" "r \<noteq> LeaveConversation"
proof -
  obtain st where d: "decode_inbound_payload (env_x E) (env_om E) payload (cn_queues c, cn_mls c) = (Inr r, st)"
    using assms by (auto simp: decode_inbound_def on_round_def split: prod.splits)
  have enc: "r \<noteq> ConversationUpdated \<and> r \<noteq> LeaveConversation"
    if "decode_encrypted_payload (env_x E) (env_om E) payload (cn_queues c, cn_mls c) = (Inr r, st)"
    using that unfolding decode_encrypted_payload_def try_then_eq_Inr
    by (elim exE conjE) (auto simp: classify_app_message_result split: option.split_asm sum.split_asm)
  have "r \<noteq> ConversationUpdated \<and> r \<noteq> LeaveConversation"
    using d enc
    by (auto simp: decode_inbound_payload_def split: sum.splits option.splits app_payload.splits
        if_splits prod.splits bool.splits dest!: receive_candidate_result)
  then show "r \<noteq> ConversationUpdated" "r \<noteq> LeaveConversation" by auto
qed

lemma ok_candidate_received:
  assumes "conv_ok windowed c"
  shows "conv_ok windowed (snd (on_commit_candidate_received E c))"
proof -
  have "conv_ok windowed d" if "start_freezing c = (e, d)" for e d
    using ok_start_freezing [OF assms] that by simp
  then show ?thesis
    using assms by (auto simp: on_commit_candidate_received_def simp del: lifecycle_ok.simps
        split: prod.splits option.splits)
qed

lemma ok_dispatch:
  assumes "conv_ok windowed c" and "r \<noteq> ConversationUpdated"
  shows "conv_ok windowed (snd (dispatch_inbound_result E r c))"
  using assms ok_candidate_received [OF assms(1), of E]
  by (cases r) (auto simp: done_after_def simp del: lifecycle_ok.simps intro!: ok_try)

lemma ok_process_inbound: "conv_ok windowed c \<Longrightarrow> conv_ok windowed (snd (process_inbound E s p c))"
  by (auto simp: process_inbound_def simp del: lifecycle_ok.simps intro!: ok_try ok_dispatch
      dest: decode_result)

lemma ok_welcome_sync: "conv_ok windowed c \<Longrightarrow> conv_ok windowed (snd (apply_welcome_sync E b c))"
  by (auto simp: apply_welcome_sync_def simp del: lifecycle_ok.simps intro!: ok_try ok_dispatch
      dest: decode_result)

lemma ok_enter_recovery: "conv_ok False c \<Longrightarrow> conv_ok False (enter_recovery_mode c)"
  by (simp add: phase_transitions) (simp add: phase_of_def)

lemma ok_call:
  assumes "conv_call E c c'" and "conv_ok windowed c"
  shows "conv_ok windowed c' \<or> windowed \<and> c' = enter_recovery_mode c"
  using assms
proof (induction rule: conv_call.induct)
  case (tick c now)
  then show ?case by (simp add: phase_of_def)
next
  case (polled c out c')
  then show ?case using ok_poll by blast
next
  case (recovery_entered c)
  then show ?case using ok_enter_recovery by (cases windowed) simp_all
next
  case (recovery_exited c)
  then show ?case using ok_exit_recovery by blast
next
  case (events_drained c)
  then show ?case by (simp add: drain_events_def phase_of_def)
next
  case (outbound_drained c)
  then show ?case by (simp add: drain_outbound_def phase_of_def)
qed (simp_all del: lifecycle_ok.simps)

lemma ok_step:
  assumes "conv_step E c c'" and "conv_ok windowed c"
  shows "conv_ok windowed c' \<or> windowed \<and> c' = enter_recovery_mode c"
  using assms(1)
proof cases
  case called
  then show ?thesis using ok_call assms(2) by blast
next
  case (inbound sender payload out)
  then show ?thesis using ok_process_inbound [OF assms(2), of E sender payload]
    by (simp del: lifecycle_ok.simps)
next
  case (welcome_synced blob)
  then show ?thesis using ok_welcome_sync [OF assms(2), of E blob]
    by (simp del: lifecycle_ok.simps)
qed

lemma phase_assemble:
  "assemble E name mls scoring now app_id config creation = Inr c \<Longrightarrow>
     phase_of c = (Working, NormalMode, now, \<lparr>pt_started_at = None\<rparr>)"
  by (auto simp: assemble_def Let_def result_then_eq_Inr conversation_new_def timing_new_def
      phase_timer_new_def sm_new_as_member_def emit_event_def phase_of_def
      split: if_splits sum.splits prod.splits)

lemma ok_created:
  assumes "create_conversation E name scoring now app_id config members = Inr c"
  shows "conv_ok windowed c"
proof -
  obtain mls d where "assemble E name mls scoring now app_id config True = Inr d"
    and seed: "seed_initial_members E members d = (Inr (), c)"
    using assms unfolding create_conversation_def
    by (cases "new_as_creator (env_om E) name")
       (auto simp: result_then_def split: sum.split_asm prod.split_asm)
  then show ?thesis using phase_assemble phase_snd [OF seed phase.view_joining(1)] by fastforce
qed

lemma ok_joined:
  assumes "join_conversation E utf8 welcome sync scoring now app_id config = Inr (Some c)"
  shows "conv_ok windowed c"
proof -
  obtain mls d where a: "assemble E (ms_conversation_id mls) mls scoring now app_id config False = Inr d"
    and j: "try_then (on_joined E d) (\<lambda>_ c'. apply_welcome_sync E sync c') = (Inr (), c)"
    using assms unfolding join_conversation_def
    by (auto simp: result_then_def split: sum.split_asm option.split_asm prod.split_asm)
  have "conv_ok windowed (snd (try_then (on_joined E d) (\<lambda>_ c'. apply_welcome_sync E sync c')))"
    using phase_assemble [OF a] by (intro ok_try ok_welcome_sync) simp_all
  with j show ?thesis by simp
qed

lemma reachable_ok: "conv_reachable E c \<Longrightarrow> conv_ok False c"
  by (induction rule: conv_reachable.induct) (blast intro: ok_created ok_joined dest: ok_step)+

lemma windowed_step:
  assumes "conv_step E c c'" and "conv_reachable E c" and "is_in_recovery_mode c \<longrightarrow> cn_state c = Freezing"
    and "c' \<noteq> enter_recovery_mode c"
  shows "is_in_recovery_mode c' \<longrightarrow> cn_state c' = Freezing"
proof -
  have "conv_ok True c"
    using reachable_ok [OF assms(2)] assms(3) by (auto simp: phase_of_def is_in_recovery_mode_def)
  then have "conv_ok True c'" using ok_step [OF assms(1)] assms(4) by blast
  then show ?thesis by (auto simp: phase_of_def is_in_recovery_mode_def)
qed

section \<open>The freeze step\<close>

text \<open>
  Where the freeze step of a poll ranks: after the automatic commit of an open recovery, in
  \<^verbatim>\<open>Selection\<close>.
\<close>

definition selection_start ::
  "('g, 'o, 'c, 's) environment \<Rightarrow> ('g, 'o, 'c, 's) conversation \<Rightarrow> ('g, 'o, 'c, 's) conversation" where
  "selection_start E c =
     (let c1 = (if is_in_recovery_mode c then maybe_auto_commit_recovery E c else c);
          c2 = on_timing (\<lambda>t. t\<lparr>tm_last_commit_round_progress := None\<rparr>) c1
      in emit_event (PhaseChange (fst (start_selection c2))) (snd (start_selection c2)))"

text \<open>The freeze step of a poll runs its round from there.\<close>

lemma freeze_ends_in_selection:
  fixes E :: "('g, 'o, 'c, 's) environment" and c :: "('g, 'o, 'c, 's) conversation"
  assumes "cn_state c = Freezing"
    and "freeze_complete (if is_in_recovery_mode c then maybe_auto_commit_recovery E c else c)"
  shows "advance_freezing E c =
    (let d = selection_start E c;
         rec = is_in_recovery_mode d
     in case conv_finalize_commit_round E (rec \<or> slc_allow_subset_candidates (svc_config (cn_stewards d)))
               (cn_self_member_id d) d of
          (Inl e, c3) \<Rightarrow>
            (Inr Done, recover_from_finalize_error
                         (emit_event (ErrorEvent ''commit_round_finalize'' (Displayed e)) c3))
        | (Inr result, c3) \<Rightarrow> after_round E rec (approved_proposals_count (cn_queues d) > 0) result c3)"
proof -
  have kept: "is_in_recovery_mode (emit_event e (snd (start_selection b))) = is_in_recovery_mode b"
    "cn_queues (emit_event e b) = cn_queues b" for e and b :: "('g, 'o, 'c, 's) conversation"
    by (simp_all add: emit_event_def start_selection_def is_in_recovery_mode_def)
  define b where "b = on_timing (\<lambda>t. t\<lparr>tm_last_commit_round_progress := None\<rparr>)
    (if is_in_recovery_mode c then maybe_auto_commit_recovery E c else c)"
  have "advance_freezing E c = run_selection E b"
    using assms by (simp add: advance_freezing_def Let_def split_beta b_def)
  moreover have "selection_start E c = emit_event (PhaseChange (fst (start_selection b))) (snd (start_selection b))"
    unfolding selection_start_def Let_def b_def by (rule refl)
  ultimately show ?thesis by (simp add: run_selection_def Let_def split_beta kept split: sum.split)
qed

section \<open>Properties\<close>

text \<open>
  C8. However a conversation is driven, the setters of the operating mode included, between calls
  it is never left in the middle of a selection, a freeze always has its timer running (so it can
  end), and a reelection has no phase timer. Only a call of \<^verbatim>\<open>enter_recovery_mode\<close> puts a conversation
  into recovery mode without an open collection window (a freeze): if recovery mode implies a
  freeze before any other call, it does so after it, as it does in a new conversation.
\<close>

theorem reachable_lifecycle:
  assumes "conv_reachable E c"
  shows "cn_state c \<noteq> Selection \<and>
    (cn_state c = Freezing \<longrightarrow> (\<exists>t. pt_started_at (tm_phase_timer (cn_timing c)) = Some t)) \<and>
    (cn_state c = Reelection \<longrightarrow> pt_started_at (tm_phase_timer (cn_timing c)) = None) \<and>
    (\<forall>c'. conv_step E c c' \<and> c' \<noteq> enter_recovery_mode c \<and> (is_in_recovery_mode c \<longrightarrow> cn_state c = Freezing) \<longrightarrow>
       is_in_recovery_mode c' \<longrightarrow> cn_state c' = Freezing)"
proof -
  have "cn_state c \<noteq> Selection" "cn_state c = Freezing \<Longrightarrow> pt_started_at (tm_phase_timer (cn_timing c)) \<noteq> None"
    "cn_state c = Reelection \<Longrightarrow> pt_started_at (tm_phase_timer (cn_timing c)) = None"
    using reachable_ok [OF assms] by (auto simp: phase_of_def)
  then show ?thesis using windowed_step [OF _ assms] by blast
qed

theorem reachable_lifecycle_witness:
  "\<exists>c. conv_reachable demo_env (enter_recovery_mode c) \<and> cn_state (enter_recovery_mode c) \<noteq> Selection"
proof -
  obtain c where "conv_reachable demo_env c" using demo_created conv_reachable.created by metis
  then have "conv_reachable demo_env (enter_recovery_mode c)"
    using conv_reachable.stepped conv_step.called conv_call.recovery_entered by blast
  with reachable_lifecycle [OF this] show ?thesis by blast
qed

text \<open>
  C17. A freeze ends: outside recovery, the first poll step after the freeze window has elapsed
  leaves \<^verbatim>\<open>Freezing\<close> for \<^verbatim>\<open>Working\<close> or \<^verbatim>\<open>Reelection\<close>, whatever the candidates, the MLS service or
  the score storage do, unless the applied commit removed us.
\<close>

theorem freeze_window_ends_the_freeze:
  assumes "cn_state c = Freezing" and "\<not> is_in_recovery_mode c"
    and "pt_started_at (tm_phase_timer (cn_timing c)) = Some anchor"
    and "timestamp_add anchor (cfg_freeze_duration (cn_config c)) \<le> cn_now c"
    and "advance_freezing E c = (out, c')"
  shows "out = Inr LeaveRequested \<or> cn_state c' = Working \<or> cn_state c' = Reelection"
proof -
  let ?d = "on_timing (\<lambda>t. t\<lparr>tm_last_commit_round_progress := None\<rparr>) c"
  have "freeze_complete c"
    using assms(1-4)
    by (simp add: freeze_complete_def Let_def is_freeze_window_elapsed_def elapsed_since_anchor_def)
  then have "run_selection E ?d = (out, c')"
    using assms(1,2,5) by (simp add: advance_freezing_def Let_def split_beta)
  moreover have "cn_mode ?d = NormalMode"
    using assms(2) by (cases "cn_mode c") (simp_all add: on_timing_def is_in_recovery_mode_def)
  ultimately have "out = Inr LeaveRequested \<or> settled_phase (phase_of c')"
    using ok_run_selection by blast
  then show ?thesis
    by (cases "cn_state c'") (auto simp: settled_phase_def phase_of_def)
qed

definition demo_frozen ::
  "(demo_group, demo_object, demo_engine_state, in_memory_peer_score_storage) conversation" where
  "demo_frozen = snd (start_freezing demo_conversation)"

theorem freeze_window_ends_the_freeze_witness:
  "\<exists>out c'. advance_freezing demo_env (demo_frozen\<lparr>cn_now := 5\<rparr>) = (out, c') \<and>
     (out = Inr LeaveRequested \<or> cn_state c' = Working \<or> cn_state c' = Reelection)"
proof -
  let ?c = "demo_frozen\<lparr>cn_now := 5\<rparr>"
  obtain out c' where run: "advance_freezing demo_env ?c = (out, c')"
    by (cases "advance_freezing demo_env ?c")
  have "cn_state ?c = Freezing" "\<not> is_in_recovery_mode ?c"
    "pt_started_at (tm_phase_timer (cn_timing ?c)) = Some 0" "cn_config ?c = demo_config" "cn_now ?c = 5"
    by (simp_all add: demo_frozen_def demo_conversation_def conversation_new_def start_freezing_def
        sm_start_freezing_def on_phase_timer_def on_timing_def is_in_recovery_mode_def)
  moreover have "timestamp_add 0 (cfg_freeze_duration demo_config) \<le> 5"
    by (simp add: timestamp_add_def demo_config_def)
  ultimately show ?thesis
    using freeze_window_ends_the_freeze [OF _ _ _ _ run, of 0] run by auto
qed

text \<open>
  A recovery round without a commit, as the freeze step runs it: the collection window is over, and
  the selection fails or ends without a candidate that applied.
\<close>

definition selection_result ::
  "('g, 'o, 'c, 's) environment \<Rightarrow> ('g, 'o, 'c, 's) conversation \<Rightarrow>
   (conversation_error + commit_round_result) \<times> ('g, 'o, 'c, 's) conversation" where
  "selection_result E c =
     (let d = selection_start E c
      in conv_finalize_commit_round E
           (is_in_recovery_mode d \<or> slc_allow_subset_candidates (svc_config (cn_stewards d)))
           (cn_self_member_id d) d)"

definition commitless_round ::
  "('g, 'o, 'c, 's) environment \<Rightarrow> ('g, 'o, 'c, 's) conversation \<Rightarrow> ('g, 'o, 'c, 's) conversation \<Rightarrow> bool" where
  "commitless_round E c c' \<longleftrightarrow>
     is_in_recovery_mode c \<and> cn_state c = Freezing \<and> freeze_complete (maybe_auto_commit_recovery E c) \<and>
     (case fst (selection_result E c) of Inl _ \<Rightarrow> True | Inr res \<Rightarrow> crr_outcome res = NoCandidate) \<and>
     c' = snd (advance_freezing E c)"

text \<open>The round had nothing to commit.\<close>

definition nothing_to_commit :: "('g, 'o, 'c, 's) environment \<Rightarrow> ('g, 'o, 'c, 's) conversation \<Rightarrow> bool" where
  "nothing_to_commit E c \<longleftrightarrow>
     approved_proposals_count (cn_queues (selection_start E c)) = 0 \<and> is_ok (fst (selection_result E c))"

text \<open>
  A recovery, \<open>k\<close> commit-less rounds after it was opened, with a limit of \<open>m\<close> rounds. Between the
  rounds the conversation may change in every way that neither leaves nor reopens recovery and keeps
  the limit.
\<close>

inductive stalled ::
  "('g, 'o, 'c, 's) environment \<Rightarrow> u32 \<Rightarrow> nat \<Rightarrow> ('g, 'o, 'c, 's) conversation \<Rightarrow> bool" for E m where
  opened: "cfg_recovery_max_rounds (cn_config c) = m \<Longrightarrow> stalled E m 0 (enter_recovery_mode c)"
| waited: "stalled E m k c \<Longrightarrow> cn_mode d = cn_mode c \<Longrightarrow> cn_recovery_rounds d = cn_recovery_rounds c \<Longrightarrow>
    cfg_recovery_max_rounds (cn_config d) = cfg_recovery_max_rounds (cn_config c) \<Longrightarrow> stalled E m k d"
| gone_by: "stalled E m k c \<Longrightarrow> commitless_round E c c' \<Longrightarrow> is_in_recovery_mode c' \<Longrightarrow> stalled E m (Suc k) c'"

text \<open>What a round needs of the conversation stays as it is until the round is judged.\<close>

interpretation steady: still_invariant E "\<lambda>d. (cn_config d, cn_recovery_rounds d, cn_mode d) = v" for E v
  by unfold_locales (simp_all add: broadcast_def)

definition recovery_view :: "('g, 'o, 'c, 's) conversation \<Rightarrow> conversation_config \<times> u32 \<times> operating_mode" where
  "recovery_view c = (cn_config c, cn_recovery_rounds c, cn_mode c)"

lemma recovery_view_kept [simp]:
  "recovery_view (maybe_auto_commit_recovery E c) = recovery_view c"
  "recovery_view (snd (conv_finalize_commit_round E b m c)) = recovery_view c"
  "recovery_view (record_round E res c) = recovery_view c"
  "recovery_view (emit_event e c) = recovery_view c"
  "recovery_view (on_timing ft c) = recovery_view c"
  "recovery_view (snd (start_selection c)) = recovery_view c"
  using steady.inv_auto_commit [OF refl, of E c] steady.inv_rounds(1) [OF refl, of E b m c]
    steady.inv_record_round [OF refl, of E res c]
  by (simp_all add: recovery_view_def emit_event_def on_timing_def start_selection_def)

lemma recovery_viewD:
  "recovery_view d = recovery_view c \<Longrightarrow> cn_config d = cn_config c \<and>
     cn_recovery_rounds d = cn_recovery_rounds c \<and> cn_mode d = cn_mode c"
  by (simp add: recovery_view_def)

lemma selection_start_view: "recovery_view (selection_start E c) = recovery_view c"
  by (simp add: selection_start_def Let_def)

lemma selection_start_state: "cn_state (selection_start E c) = Selection"
  by (simp add: selection_start_def Let_def start_selection_def sm_start_selection_def emit_event_def)

text \<open>The judgement of a round without a commit.\<close>

lemma retry_judged:
  assumes "cn_state c = Selection"
  defines "d \<equiv> retry_or_exhaust_recovery c" and "mx \<equiv> cfg_recovery_max_rounds (cn_config c)"
  shows "mx \<noteq> 0 \<and> mx \<le> cn_recovery_rounds c + 1 \<Longrightarrow> cn_state d = Working \<and> \<not> is_in_recovery_mode d \<and>
      (\<exists>es. cn_events d = es @ [RecoveryExhausted, PhaseChange Working])"
    and "\<not> (mx \<noteq> 0 \<and> mx \<le> cn_recovery_rounds c + 1) \<Longrightarrow> cn_state d = Freezing \<and> cn_mode d = cn_mode c \<and>
      cn_recovery_rounds d = cn_recovery_rounds c + 1 \<and> cn_config d = cn_config c"
  using assms by (auto simp: retry_or_exhaust_recovery_def Let_def reopen_recovery_window_def sm_reopen_freezing_def
      on_phase_timer_def on_timing_def emit_event_def exit_recovery_mode_def start_working_def
      sm_start_working_def is_in_recovery_mode_def)

lemma commitless_judged:
  assumes "commitless_round E c c'"
  obtains d where "cn_state d = Selection" and "recovery_view d = recovery_view c"
    and "c' = (if nothing_to_commit E c then resume_working (exit_recovery_mode (clear_commit_round d))
      else retry_or_exhaust_recovery d)"
proof -
  let ?s = "selection_start E c"
  have rec: "is_in_recovery_mode c" using assms by (simp add: commitless_round_def)
  then have start_rec: "is_in_recovery_mode ?s"
    using recovery_viewD [OF selection_start_view [of E c]] by (simp add: is_in_recovery_mode_def)
  obtain r d where fin: "selection_result E c = (r, d)" by (cases "selection_result E c")
  then have fin': "conv_finalize_commit_round E True (cn_self_member_id ?s) ?s = (r, d)"
    using start_rec by (simp add: selection_result_def Let_def)
  have "recovery_view d = recovery_view ?s"
    using recovery_view_kept(2) [of E True "cn_self_member_id ?s" ?s] fin' by simp
  then have view: "recovery_view d = recovery_view c" by (simp add: selection_start_view)
  have state: "cn_state d = Selection"
    using phase_of_eqD [OF phase_snd [OF fin' phase.view_finalize]] selection_start_state [of E c] by simp
  have step: "c' = snd (case r of
      Inl e \<Rightarrow> (Inr Done, recover_from_finalize_error (emit_event (ErrorEvent ''commit_round_finalize'' (Displayed e)) d))
    | Inr result \<Rightarrow> after_round E True (approved_proposals_count (cn_queues ?s) > 0) result d)"
    using assms freeze_ends_in_selection [of c E] fin' start_rec rec
    by (simp add: commitless_round_def Let_def split: sum.split)
  show ?thesis
  proof (cases r)
    case (Inl e)
    let ?d = "emit_event (ErrorEvent ''commit_round_finalize'' (Displayed e)) d"
    have d: "cn_state ?d = Selection" "recovery_view ?d = recovery_view c"
      using view state by simp_all (simp add: emit_event_def)
    then have "is_in_recovery_mode ?d" using rec recovery_viewD [of ?d c] by (simp add: is_in_recovery_mode_def)
    then show ?thesis
      using that [OF d] step Inl fin by (simp add: recover_from_finalize_error_def nothing_to_commit_def is_ok_def)
  next
    case (Inr res)
    let ?d = "record_round E res d"
    have d: "cn_state ?d = Selection" "recovery_view ?d = recovery_view c"
      using view state phase_of_eqD [OF phase.view_record_round [of E res d]] by simp_all
    have "crr_outcome res = NoCandidate" using assms fin Inr by (simp add: commitless_round_def)
    then show ?thesis
      using that [OF d] step Inr fin by (simp add: after_round_NoCandidate nothing_to_commit_def is_ok_def)
  qed
qed

lemma limit_reached:
  fixes m :: u32
  assumes "m = 0 \<or> k < unat m"
  shows "(m \<noteq> 0 \<and> m \<le> word_of_nat k + 1) = (Suc k = unat m)"
proof (cases "m = 0")
  case False
  have "unat m < 2 ^ 32" using unsigned_less [where 'a = nat, of m] by simp
  then have "unat (word_of_nat (Suc k) :: u32) = Suc k"
    using assms False by (simp only: unat_of_nat) simp
  then have "m \<le> word_of_nat (Suc k) \<longleftrightarrow> unat m \<le> Suc k" by (simp add: word_le_nat_alt)
  then show ?thesis using assms False by (auto simp: add.commute)
qed simp

lemma commitless_step:
  assumes "commitless_round E c c'" and "cfg_recovery_max_rounds (cn_config c) = m"
    and "cn_recovery_rounds c = word_of_nat k" and "m = 0 \<or> k < unat m"
  shows "if nothing_to_commit E c then cn_state c' = Working \<and> \<not> is_in_recovery_mode c'
    else if Suc k = unat m then cn_state c' = Working \<and> \<not> is_in_recovery_mode c' \<and>
      (\<exists>es. cn_events c' = es @ [RecoveryExhausted, PhaseChange Working])
    else cn_state c' = Freezing \<and> is_in_recovery_mode c' \<and> cn_config c' = cn_config c \<and>
      cn_recovery_rounds c' = word_of_nat (Suc k)"
proof -
  obtain d where d: "cn_state d = Selection" "recovery_view d = recovery_view c"
    and c': "c' = (if nothing_to_commit E c then resume_working (exit_recovery_mode (clear_commit_round d))
      else retry_or_exhaust_recovery d)"
    by (rule commitless_judged [OF assms(1)])
  note view = recovery_viewD [OF d(2)]
  have rec: "cn_mode c = RecoveryMode" using assms(1) by (simp add: commitless_round_def is_in_recovery_mode_def)
  have "cn_state c' = Working \<and> \<not> is_in_recovery_mode c'" if "nothing_to_commit E c"
    using phase_resume_working [of "exit_recovery_mode (clear_commit_round d)"] that
    by (simp add: c' phase_of_def is_in_recovery_mode_def)
  moreover note retry_judged [OF d(1)]
  ultimately show ?thesis
    using view rec limit_reached [OF assms(4)] assms(2,3) by (auto simp: c' is_in_recovery_mode_def add.commute)
qed

lemma stalled_counts:
  assumes "stalled E m k c"
  shows "is_in_recovery_mode c \<and> cfg_recovery_max_rounds (cn_config c) = m \<and>
    cn_recovery_rounds c = word_of_nat k \<and> (m = 0 \<or> k < unat m)"
  using assms
proof (induction rule: stalled.induct)
  case (opened c)
  then show ?case by (auto simp: enter_recovery_mode_def is_in_recovery_mode_def unat_gt_0)
next
  case (waited k c d)
  then show ?case by (simp add: is_in_recovery_mode_def)
next
  case (gone_by k c c')
  then show ?case using commitless_step [of E c c' m k] by (auto split: if_splits)
qed

text \<open>
  C19. The recovery stop-line: with a limit of \<open>m > 0\<close> rounds, each of the first \<open>m - 1\<close> commit-less
  rounds of a recovery re-opens the collection window, and the \<open>m\<close>-th gives up: it leaves recovery for
  \<^verbatim>\<open>Working\<close> and reports \<^verbatim>\<open>RecoveryExhausted\<close>. With the limit 0 it never gives up. A round that had
  nothing to commit leaves recovery at once, whatever the limit.
\<close>

theorem recovery_stop_line:
  assumes "stalled E m k c" and "commitless_round E c c'"
  shows "(m = 0 \<or> k < unat m) \<and>
    (if nothing_to_commit E c then cn_state c' = Working \<and> \<not> is_in_recovery_mode c'
     else if Suc k = unat m then cn_state c' = Working \<and> \<not> is_in_recovery_mode c' \<and>
       (\<exists>es. cn_events c' = es @ [RecoveryExhausted, PhaseChange Working])
     else cn_state c' = Freezing \<and> is_in_recovery_mode c' \<and> stalled E m (Suc k) c')"
  using stalled_counts [OF assms(1)] commitless_step [OF assms(2), of m k] stalled.gone_by [OF assms]
  by (auto split: if_splits)

text \<open>
  The frozen conversation in recovery, some rounds later, with a removal approved and nobody to
  commit it.
\<close>

definition demo_deserted ::
  "u32 \<Rightarrow> (demo_group, demo_object, demo_engine_state, in_memory_peer_score_storage) conversation" where
  "demo_deserted rounds = (enter_recovery_mode (demo_frozen\<lparr>cn_now := 100, cn_queues := demo_queues,
     cn_config := demo_config\<lparr>cfg_recovery_auto_commit_delay := None\<rparr>\<rparr>))\<lparr>cn_recovery_rounds := rounds\<rparr>"

lemma demo_deserted_round:
  assumes "rounds = 0 \<or> rounds = 1"
  shows "commitless_round demo_env (demo_deserted rounds) (snd (advance_freezing demo_env (demo_deserted rounds)))"
    and "\<not> nothing_to_commit demo_env (demo_deserted rounds)"
proof -
  let ?c = "demo_deserted rounds"
  have "fst (selection_result demo_env (demo_deserted 0)) =
      Inr \<lparr>crr_outcome = NoCandidate, crr_score_ops = [], crr_committed_batch = []\<rparr>"
    "fst (selection_result demo_env (demo_deserted 1)) =
      Inr \<lparr>crr_outcome = NoCandidate, crr_score_ops = [], crr_committed_batch = []\<rparr>"
    "\<not> nothing_to_commit demo_env (demo_deserted 0)" "\<not> nothing_to_commit demo_env (demo_deserted 1)"
    by code_simp+
  then have result: "fst (selection_result demo_env ?c) =
      Inr \<lparr>crr_outcome = NoCandidate, crr_score_ops = [], crr_committed_batch = []\<rparr>"
    and "\<not> nothing_to_commit demo_env ?c"
    using assms by auto
  then show "\<not> nothing_to_commit demo_env ?c" by simp
  have "maybe_auto_commit_recovery demo_env ?c = ?c"
    by (simp add: maybe_auto_commit_recovery_def demo_deserted_def enter_recovery_mode_def)
  moreover have "is_in_recovery_mode ?c \<and> cn_state ?c = Freezing \<and> freeze_complete ?c"
    by (simp add: demo_deserted_def demo_frozen_def demo_conversation_def conversation_new_def enter_recovery_mode_def
        start_freezing_def sm_start_freezing_def on_phase_timer_def on_timing_def is_in_recovery_mode_def
        freeze_complete_def Let_def elapsed_since_anchor_def timestamp_add_def demo_config_def split: option.split)
  ultimately show "commitless_round demo_env ?c (snd (advance_freezing demo_env ?c))"
    by (simp add: commitless_round_def result)
qed

theorem recovery_stop_line_witness:
  "cn_state (snd (advance_freezing demo_env (demo_deserted 0))) = Freezing \<and>
   cn_state (snd (advance_freezing demo_env (demo_deserted 1))) = Working"
proof -
  let ?c = "\<lambda>rounds. snd (advance_freezing demo_env (demo_deserted rounds))"
  have limit: "cfg_recovery_max_rounds (cn_config (demo_deserted r)) = 2" "is_in_recovery_mode (demo_deserted r)"
     "cn_recovery_rounds (demo_deserted r) = r" for r
    by (simp_all add: demo_deserted_def demo_config_def enter_recovery_mode_def is_in_recovery_mode_def)
  have "stalled demo_env 2 0 (enter_recovery_mode (demo_deserted 0))" by (rule stalled.opened) (rule limit)
  then have "stalled demo_env 2 0 (demo_deserted 0)"
    by (rule stalled.waited) (simp_all add: demo_deserted_def enter_recovery_mode_def)
  from recovery_stop_line [OF this demo_deserted_round(1)] demo_deserted_round(2) [of 0]
  have one: "cn_state (?c 0) = Freezing" "stalled demo_env 2 1 (?c 0)" by auto
  have "stalled demo_env 2 1 (demo_deserted 1)"
    using one(2) by (rule stalled.waited) (use stalled_counts [OF one(2)] limit in \<open>simp_all add: is_in_recovery_mode_def\<close>)
  from recovery_stop_line [OF this demo_deserted_round(1)] demo_deserted_round(2) [of 1] one(1)
  show ?thesis by auto
qed

text \<open>
  C25. Nothing wakes a reelection: when a conversation with no vote, no consensus session and no
  sync request pending enters \<^verbatim>\<open>Reelection\<close>, its polling cycle arms the silence watchdog, yet the
  wake-up it announces is none. An integrator that polls only when told to never advances the
  retry ladder.
\<close>

theorem reelection_announces_no_wakeup:
  fixes c :: "('g, 'o, 'c, 's) conversation" and E :: "('g, 'o, 'c, 's) environment"
  assumes "tm_pending_auto_votes (cn_timing c) = []" and "tm_pending_consensus_timeouts (cn_timing c) = []"
    and "tm_sync_request_anchor (cn_timing c) = None" and "tm_reelection_silence_anchor (cn_timing c) = None"
    and "\<not> has_election_in_flight (cn_queues c)"
  defines "d \<equiv> snd (drive_reelection_retry E (snd (start_reelection c)))"
  shows "cn_state d = Reelection \<and> tm_reelection_silence_anchor (cn_timing d) = Some (cn_now c) \<and>
    next_wakeup_in d = None"
  using assms(1-5) unfolding d_def
  by (simp add: drive_reelection_retry_def start_reelection_def sm_start_reelection_def Let_def
      on_phase_timer_def on_timing_def next_wakeup_in_def pending_deadlines_def phase_deadline_def
      sync_request_deadline_def imap_values_def)

theorem reelection_announces_no_wakeup_witness:
  "next_wakeup_in (snd (drive_reelection_retry demo_env (snd (start_reelection demo_frozen)))) = None"
proof -
  have "tm_pending_auto_votes (cn_timing demo_frozen) = []"
    "tm_pending_consensus_timeouts (cn_timing demo_frozen) = []"
    "tm_sync_request_anchor (cn_timing demo_frozen) = None"
    "tm_reelection_silence_anchor (cn_timing demo_frozen) = None"
    "\<not> has_election_in_flight (cn_queues demo_frozen)"
    by (simp_all add: demo_frozen_def demo_conversation_def conversation_new_def start_freezing_def
        sm_start_freezing_def on_phase_timer_def on_timing_def timing_new_def queues_new_def
        has_election_in_flight_def imap_values_def)
  from reelection_announces_no_wakeup [OF this, of demo_env] show ?thesis by simp
qed

end
