(* ===== verification/Component_Safety.thy ===== *)
theory Component_Safety
  imports Lifecycle
begin

text \<open>
  What the invariants of the components say of a whole conversation. A step of the integrator
  changes queues, steward list and scores only by their own operations, so whatever those keep
  holds in every reachable conversation; and only a poll, which hands over the outcomes of votes,
  adds to the approved work.
\<close>

section \<open>Steps as sequences of component operations\<close>

locale call_invariant = poll_invariant E P
  for E :: "('g, 'o, 'c, 's) environment" and P :: "('g, 'o, 'c, 's) conversation \<Rightarrow> bool" +
  assumes inv_now [simp]: "P c \<Longrightarrow> P (c\<lparr>cn_now := now\<rparr>)"
    and inv_outbound [simp]: "P c \<Longrightarrow> P (c\<lparr>cn_outbound := obs\<rparr>)"
begin

lemma inv_call:
  assumes "conv_call E c c'" and "P c"
  shows "P c'"
  using assms
proof (induction rule: conv_call.induct)
  case (polled c out c')
  then show ?case using inv_poll by blast
next
  case (outbound_drained c)
  then show ?case by (simp add: drain_outbound_def)
qed simp_all

end

locale step_invariant = call_invariant E P + packet_invariant E P
  for E :: "('g, 'o, 'c, 's) environment" and P :: "('g, 'o, 'c, 's) conversation \<Rightarrow> bool"
begin

lemma inv_step:
  assumes "conv_step E c c'" and "P c"
  shows "P c'"
  using assms(1)
proof cases
  case called
  then show ?thesis using inv_call assms(2) by blast
next
  case (inbound sender payload out)
  then show ?thesis using inv_snd [OF inbound(1) inv_inbound(1)] assms(2) by blast
next
  case (welcome_synced blob)
  then show ?thesis using inv_inbound(2) assms(2) by blast
qed

end

definition evolved_from ::
  "('g, 'o, 'c, 's) environment \<Rightarrow>
   conversation_queues \<times> steward_list_service \<times> 's peer_scoring_service \<Rightarrow>
   ('g, 'o, 'c, 's) conversation \<Rightarrow> bool" where
  "evolved_from E parts c \<longleftrightarrow>
     (queue_evolves (env_x E))\<^sup>*\<^sup>* (fst parts) (cn_queues c) \<and>
     (steward_step (env_x E))\<^sup>*\<^sup>* (fst (snd parts)) (cn_stewards c) \<and>
     (score_step (env_store E))\<^sup>*\<^sup>* (snd (snd parts)) (cn_scoring c)"

lemma evolved_from_cong:
  "cn_queues d = cn_queues c \<Longrightarrow> cn_stewards d = cn_stewards c \<Longrightarrow> cn_scoring d = cn_scoring c \<Longrightarrow>
     evolved_from E parts d = evolved_from E parts c"
  by (simp add: evolved_from_def)

lemma engine_parts [simp]:
  "cn_queues (snd (on_engine fe c)) = cn_queues c"
  "cn_stewards (snd (on_engine fe c)) = cn_stewards c"
  "cn_scoring (snd (on_engine fe c)) = cn_scoring c"
  by (simp_all add: on_engine_def outcome_publish_def split_beta)

interpretation components: step_invariant E "evolved_from E parts" for E parts
proof unfold_locales
  have calm: "evolved_from E parts (c\<lparr>cn_queues := q\<rparr>)"
    if "evolved_from E parts c" "calm_steps (env_x E) (cn_queues c) q" for c q
  proof -
    have "(queue_evolves (env_x E))\<^sup>*\<^sup>* (cn_queues c) q"
      using that(2) by (rule rtranclp_mono [THEN predicate2D, rotated]) (blast intro: queue_evolves.calm)
    then show ?thesis using that(1) by (auto simp: evolved_from_def)
  qed
  show "evolved_from E parts (c\<lparr>cn_queues := q\<rparr>)"
    if "evolved_from E parts c" "quiet_steps (env_x E) (cn_queues c) q" for c q
    using calm that by (simp add: quiet_steps_def)
  show "evolved_from E parts (c\<lparr>cn_queues := q\<rparr>)"
    if "evolved_from E parts c" "calm_steps (env_x E) (cn_queues c) q" for c q
    using calm that .
next
  fix c svc assume "evolved_from E parts c" "steward_step (env_x E) (cn_stewards c) svc"
  then show "evolved_from E parts (c\<lparr>cn_stewards := svc\<rparr>)"
    by (auto simp: evolved_from_def intro: rtranclp.rtrancl_into_rtrancl)
next
  fix c sc assume "evolved_from E parts c" "score_step (env_store E) (cn_scoring c) sc"
  then show "evolved_from E parts (c\<lparr>cn_scoring := sc\<rparr>)"
    by (auto simp: evolved_from_def intro: rtranclp.rtrancl_into_rtrancl)
next
  fix c pid approved r assume "evolved_from E parts c"
  then show "evolved_from E parts
      (c\<lparr>cn_queues := snd (apply_consensus_result (env_x E) pid approved r (cn_queues c))\<rparr>)"
    by (auto simp: evolved_from_def intro: rtranclp.rtrancl_into_rtrancl queue_evolves.resolved)
qed (simp_all add: evolved_from_def broadcast_def)

lemma step_evolves: "conv_step E c c' \<Longrightarrow> evolved_from E (cn_queues c, cn_stewards c, cn_scoring c) c'"
  by (erule components.inv_step) (simp add: evolved_from_def)

section \<open>The invariants of the components\<close>

lemma unique_by_subset: "unique_by f m \<Longrightarrow> set m' \<subseteq> set m \<Longrightarrow> unique_by f m'"
  unfolding unique_by_def by blast

lemma queues_inv_resolved:
  assumes "queues_inv x q"
  shows "queues_inv x (snd (apply_consensus_result x pid approved request q))"
proof -
  note step = queue_step_inv [OF queue_step.insert_approved, of x]
    queue_step_inv [OF queue_step.remove_voting, of x] queue_step_inv [OF queue_step.set_urgent, of x]
  show ?thesis
    using assms by (auto simp: apply_consensus_result_def Let_def step split: option.split)
qed

lemma queue_evolves_inv:
  assumes "queue_evolves x q q'" and "queues_inv x q \<and> approvals_unique x q"
  shows "queues_inv x q' \<and> approvals_unique x q'"
  using assms
proof (induction rule: queue_evolves.induct)
  case (calm q q')
  then show ?case
    by (auto simp: calm_step_def approvals_unique_def intro: queue_step_inv unique_by_subset)
next
  case (resolved q pid approved request)
  then show ?case by (simp add: queues_inv_resolved approvals_stay_unique)
qed

text \<open>The steward list the rotation walks: within the bounds of its configuration, never empty.\<close>

definition stewards_ok :: "steward_list_service \<Rightarrow> bool" where
  "stewards_ok svc \<longleftrightarrow>
     config_bounds_ok (svc_config svc) \<and>
     (case svc_list svc of
        None \<Rightarrow> True
      | Some l \<Rightarrow> config_bounds_ok (sl_config l) \<and> sl_members l \<noteq> [] \<and>
                  length (sl_members l) \<le> slc_sn_max (sl_config l))"

lemma generated_list_ok:
  assumes "steward_list_generate x e cid pool sn cfg r = Inr l" and "config_bounds_ok cfg"
  shows "sl_config l = cfg \<and> sl_members l \<noteq> [] \<and> length (sl_members l) \<le> slc_sn_max cfg"
proof -
  have "length (sl_members l) = sn" using generate_members_length [OF assms(1)] .
  moreover have "1 \<le> sn" "sn \<le> slc_sn_max cfg" "sl_config l = cfg"
    using assms by (auto simp: steward_list_generate_eq is_valid_size_def size_bounds_def
        config_bounds_ok_def Suc_le_eq split: if_splits)
  ultimately show ?thesis by (metis list.size(3) not_one_le_zero)
qed

lemma steward_step_ok: "steward_step x svc svc' \<Longrightarrow> stewards_ok svc \<Longrightarrow> stewards_ok svc'"
proof (induction rule: steward_step.induct)
  case (installed svc epoch pool sn r)
  then show ?case
    by (auto simp: install_list_def stewards_ok_def split: sum.split dest: generated_list_ok)
next
  case (reconfigured lo hi config b svc)
  then have "config_bounds_ok config" by (blast dest: steward_list_config_new_ok)
  with reconfigured show ?case
    by (simp add: stewards_ok_def svc_set_config_def config_bounds_ok_def)
qed (simp_all add: stewards_ok_def bump_retry_def reset_retry_def svc_set_max_retries_def)

definition components_ok :: "externals \<Rightarrow> ('g, 'o, 'c, 's) conversation \<Rightarrow> bool" where
  "components_ok x c \<longleftrightarrow>
     queues_inv x (cn_queues c) \<and> approvals_unique x (cn_queues c) \<and> stewards_ok (cn_stewards c)"

lemma evolved_ok:
  assumes "evolved_from E parts c" and "queues_inv (env_x E) (fst parts)"
    and "approvals_unique (env_x E) (fst parts)" and "stewards_ok (fst (snd parts))"
  shows "components_ok (env_x E) c"
proof -
  have "queues_inv (env_x E) q \<and> approvals_unique (env_x E) q"
    if "(queue_evolves (env_x E))\<^sup>*\<^sup>* (fst parts) q" for q
    using that by (induction rule: rtranclp_induct) (use assms queue_evolves_inv in blast)+
  moreover have "stewards_ok svc" if "(steward_step (env_x E))\<^sup>*\<^sup>* (fst (snd parts)) svc" for svc
    using that by (induction rule: rtranclp_induct) (use assms steward_step_ok in blast)+
  ultimately show ?thesis using assms(1) by (simp add: evolved_from_def components_ok_def)
qed

lemma assembled_ok:
  assumes "assemble E name mls scoring now app_id config creation = Inr c"
  shows "components_ok (env_x E) c"
proof -
  have "config_bounds_ok (cfg_steward_list config)"
    using assms config_validate_iff [of config]
    by (auto simp: assemble_def result_then_eq_Inr config_bounds_ok_def)
  then have fresh: "stewards_ok (svc_set_max_retries m (svc_set_conversation_id n (svc_empty (cfg_steward_list config))))" for m n
    by (simp add: stewards_ok_def svc_set_max_retries_def svc_set_conversation_id_def svc_empty_def)
  have installed: "stewards_ok svc'" if "install_list x e p sn r svc = (res, svc')" "stewards_ok svc" for x e p sn r svc res svc'
    using steward_step_ok [OF steward_step.installed that(2), of x e p sn r] that(1) by simp
  have "queues_inv (env_x E) (queues_new name n)" for n by (rule queues_inv_new)
  moreover have "approvals_unique (env_x E) (queues_new name n)" for n
    by (simp add: approvals_unique_def unique_by_def queues_new_def)
  ultimately show ?thesis
    using assms fresh
    by (auto simp: assemble_def Let_def result_then_eq_Inr conversation_new_def emit_event_def
        components_ok_def split: if_splits sum.splits prod.splits dest!: installed)
qed

lemma evolved_refl: "evolved_from E (cn_queues c, cn_stewards c, cn_scoring c) c"
  by (simp add: evolved_from_def)

lemma reachable_ok_components: "conv_reachable E c \<Longrightarrow> components_ok (env_x E) c"
proof (induction rule: conv_reachable.induct)
  case (created name scoring now app_id config members c)
  then obtain mls d where a: "assemble E name mls scoring now app_id config True = Inr d"
    and seed: "seed_initial_members E members d = (Inr (), c)"
    unfolding create_conversation_def
    by (cases "new_as_creator (env_om E) name")
       (auto simp: result_then_def split: sum.split_asm prod.split_asm)
  have "evolved_from E (cn_queues d, cn_stewards d, cn_scoring d) c"
    using components.inv_snd [OF seed components.inv_joining(1) [OF evolved_refl]] .
  then show ?case using evolved_ok assembled_ok [OF a] by (fastforce simp: components_ok_def)
next
  case (joined utf8 welcome_bytes sync scoring now app_id config c)
  then obtain mls d where a: "assemble E (ms_conversation_id mls) mls scoring now app_id config False = Inr d"
    and j: "try_then (on_joined E d) (\<lambda>_ c'. apply_welcome_sync E sync c') = (Inr (), c)"
    unfolding join_conversation_def
    by (auto simp: result_then_def split: sum.split_asm option.split_asm prod.split_asm)
  have "evolved_from E (cn_queues d, cn_stewards d, cn_scoring d) c"
    by (rule components.inv_snd [OF j], rule components.inv_try) (simp_all add: evolved_refl)
  then show ?case using evolved_ok assembled_ok [OF a] by (fastforce simp: components_ok_def)
next
  case (stepped c c')
  then show ?case using evolved_ok [OF step_evolves] by (fastforce simp: components_ok_def)
qed

section \<open>Properties\<close>

text \<open>
  C9. A conversation refines its components: whatever call an integrator makes, the queues
  change by queue operations of which only the outcome of a vote adds approved work, the steward
  list by installations, retries and settings, and the scores by the operations of their table.
\<close>

theorem conversation_refines_components:
  assumes "conv_step E c c'"
  shows "(queue_evolves (env_x E))\<^sup>*\<^sup>* (cn_queues c) (cn_queues c') \<and>
    (steward_step (env_x E))\<^sup>*\<^sup>* (cn_stewards c) (cn_stewards c') \<and>
    (score_step (env_store E))\<^sup>*\<^sup>* (cn_scoring c) (cn_scoring c')"
  using step_evolves [OF assms] by (simp add: evolved_from_def)

theorem conversation_refines_components_witness:
  "(queue_evolves demo_codec)\<^sup>*\<^sup>* (cn_queues demo_conversation)
     (cn_queues (snd (propose_score_removal demo_env (member_id_of 2) demo_conversation)))"
  using conversation_refines_components [OF conv_step.called, OF conv_call.score_removal [of demo_env demo_conversation]]
  by (simp add: demo_env_def)

text \<open>
  C10. The components stay well formed however a conversation is driven: its queues keep their
  invariant, no two approved changes concern the same member, and an installed steward list is
  never empty and never longer than its configuration allows, so the rotation, which reduces
  modulo its length, always has a steward to name.
\<close>

theorem reachable_components_ok:
  assumes "conv_reachable E c"
  shows "queues_inv (env_x E) (cn_queues c) \<and> approvals_unique (env_x E) (cn_queues c) \<and>
    config_bounds_ok (svc_config (cn_stewards c)) \<and>
    (\<forall>l. svc_list (cn_stewards c) = Some l \<longrightarrow>
       0 < length (sl_members l) \<and> length (sl_members l) \<le> slc_sn_max (sl_config l))"
  using reachable_ok_components [OF assms] by (auto simp: components_ok_def stewards_ok_def)

theorem reachable_components_ok_witness:
  "\<exists>c. conv_reachable demo_env c \<and> approvals_unique demo_codec (cn_queues c)"
proof -
  obtain c where "conv_reachable demo_env c" using demo_created conv_reachable.created by metis
  with reachable_components_ok [OF this] show ?thesis by (auto simp: demo_env_def)
qed

text \<open>The approved work is a subset of what it was.\<close>

definition approved_within ::
  "(u32 \<times> conversation_update_request) set \<Rightarrow> ('g, 'o, 'c, 's) conversation \<Rightarrow> bool" where
  "approved_within A c \<longleftrightarrow> set (q_approved_proposals (cn_queues c)) \<subseteq> A"

interpretation approved: packet_invariant E "approved_within A" for E A
  by unfold_locales (auto simp: approved_within_def quiet_steps_def broadcast_def dest: calm_approved)

lemma approved_within_self [simp]: "approved_within (set (q_approved_proposals (cn_queues c))) c"
  by (simp add: approved_within_def)

lemma polled_approvals:
  assumes "poll E c = Some (out, c')"
  obtains c1 where "drain_outcomes E (fire_deadlines E c) = Some c1"
    and "approved_within (set (q_approved_proposals (cn_queues c))) (fire_deadlines E c)"
    and "approved_within (set (q_approved_proposals (cn_queues c1))) c'"
proof -
  obtain c1 where c1: "drain_outcomes E (fire_deadlines E c) = Some c1"
    using assms by (cases "tick_deadlines E c") (auto simp: poll_def tick_deadlines_def)
  moreover have "approved_within (set (q_approved_proposals (cn_queues c1))) c'"
    using assms c1 by (auto simp: poll_def tick_deadlines_def Let_def split_beta)
  ultimately show ?thesis using that approved.inv_fire_deadlines [OF approved_within_self] by blast
qed

text \<open>A call other than a poll keeps the approved work within what it was.\<close>

lemma call_approvals:
  assumes "conv_call E c c'" and "\<nexists>out. poll E c = Some (out, c')"
  shows "approved_within (set (q_approved_proposals (cn_queues c))) c'"
  using assms
proof (cases rule: conv_call.cases)
  case outbound_drained
  then show ?thesis by (simp add: drain_outbound_def approved_within_def)
qed (use assms in \<open>auto simp: approved_within_def [of _ "c\<lparr>cn_now := _\<rparr>"]\<close>)

lemma step_approvals:
  assumes "conv_step E c c'" and "\<nexists>out. poll E c = Some (out, c')"
  shows "approved_within (set (q_approved_proposals (cn_queues c))) c'"
  using assms(1)
proof cases
  case called
  then show ?thesis using call_approvals assms(2) by blast
next
  case (inbound sender payload out)
  then show ?thesis using approved.inv_snd [OF inbound(1) approved.inv_inbound(1)] by simp
next
  case (welcome_synced blob)
  then show ?thesis by simp
qed

lemma approved_engine [simp]: "approved_within A c \<Longrightarrow> approved_within A (snd (on_engine fe c))"
  by (simp add: approved_within_def)

lemma rejected_approves_nothing:
  "set (q_approved_proposals (snd (apply_consensus_result x pid False r q))) \<subseteq> set (q_approved_proposals q)"
  by (auto simp: apply_consensus_result_def Let_def remove_voting_proposal_def split: option.split)

lemma rejected_outcome_approves_nothing:
  assumes "fst (snd (event_outcome event)) = False"
  shows "approved_within (set (q_approved_proposals (cn_queues c))) (snd (handle_consensus_outcome E event c))"
proof -
  let ?A = "set (q_approved_proposals (cn_queues c))"
  have rest: "approved_within ?A (snd (try_then (applied, d) (\<lambda>ca c5.
        try_then (conv_replay_early_candidates E c5) (\<lambda>_ c6.
        try_then (follow_up E ca c6) (\<lambda>_ c7.
        try_then (if ops = [] then (Inr (), c7) else handle_emergency_scored E p ops c7) (\<lambda>_ c8.
          on_engine (ce_remove_session (env_ce E) (cn_id c8) p) c8))))))"
    if "approved_within ?A d" for d applied p ops
    by (rule approved.inv_try, use that in simp)
       (auto intro!: approved.inv_try)
  have upd: "approved_within ?A (d\<lparr>cn_queues := snd (apply_consensus_result (env_x E) p False r (cn_queues d))\<rparr>)"
    if "approved_within ?A d" for d p r
    using rejected_approves_nothing [of "env_x E" p r "cn_queues d"] that by (auto simp: approved_within_def)
  obtain pid ts where outcome: "event_outcome event = (pid, False, ts)"
    using assms by (cases "event_outcome event") auto
  show ?thesis
    unfolding handle_consensus_outcome_def outcome Let_def split_beta fst_conv snd_conv
    by (auto split: sum.splits intro!: rest upd)
qed

text \<open>
  C11. Nothing is approved without a vote: neither a packet, whoever sent it and whatever it
  holds, nor a commit round, nor any other step of a conversation than a poll adds to the approved
  work. A poll adds to it only while it hands over the outcomes it takes from the consensus service,
  not before and not after, and of these an outcome that rejects its proposal adds nothing.
\<close>

theorem approval_needs_a_vote:
  fixes c :: "('g, 'o, 'c, 's) conversation" and E :: "('g, 'o, 'c, 's) environment"
  defines "approvals \<equiv> \<lambda>d :: ('g, 'o, 'c, 's) conversation. set (q_approved_proposals (cn_queues d))"
  shows "approvals (snd (process_inbound E sender payload c)) \<subseteq> approvals c \<and>
    approvals (snd (advance_freezing E c)) \<subseteq> approvals c \<and>
    (\<forall>c'. conv_step E c c' \<longrightarrow> approvals c' \<subseteq> approvals c \<or>
       (\<exists>out c1. poll E c = Some (out, c') \<and> approvals (fire_deadlines E c) \<subseteq> approvals c \<and>
          drain_outcomes E (fire_deadlines E c) = Some c1 \<and> approvals c' \<subseteq> approvals c1)) \<and>
    (\<forall>event d. fst (snd (event_outcome event)) = False \<longrightarrow>
       approvals (snd (handle_consensus_outcome E event d)) \<subseteq> approvals d)"
proof -
  have within: "approvals d \<subseteq> approvals d'" if "approved_within (set (q_approved_proposals (cn_queues d'))) d" for d d'
    using that by (simp add: approved_within_def approvals_def)
  have "approvals c' \<subseteq> approvals c \<or>
       (\<exists>out c1. poll E c = Some (out, c') \<and> approvals (fire_deadlines E c) \<subseteq> approvals c \<and>
          drain_outcomes E (fire_deadlines E c) = Some c1 \<and> approvals c' \<subseteq> approvals c1)"
    if "conv_step E c c'" for c'
    using step_approvals [OF that] polled_approvals [of E c _ c'] within by metis
  then show ?thesis
    using rejected_outcome_approves_nothing [THEN within] by (auto intro!: within)
qed

theorem approval_needs_a_vote_witness:
  "conv_step demo_env demo_conversation (snd (leave demo_env demo_conversation)) \<and>
   set (q_approved_proposals (cn_queues (snd (handle_consensus_outcome demo_env (ConsensusFailed 1 0) demo_conversation))))
     \<subseteq> set (q_approved_proposals (cn_queues demo_conversation))"
proof -
  have "fst (snd (event_outcome (ConsensusFailed 1 0))) = False" by simp
  with approval_needs_a_vote [of demo_env "[]" "[]" demo_conversation]
  show ?thesis using conv_step.called [OF conv_call.left] by blast
qed

end
