(* ===== verification/Draining.thy ===== *)
theory Draining
  imports Lifecycle
begin

text \<open>
  Two consequences of the frames: who a conversation is and how its packets are addressed never
  change, and a poll returns when the consensus service resolves an own vote as it should.
\<close>

section \<open>Identity and addressing\<close>

text \<open>
  Who the conversation is, and the queued packets that do not carry its id and our application id.
\<close>

definition addressing :: "('g, 'o, 'c, 's) conversation \<Rightarrow> (string \<times> bytes \<times> bytes) \<times> outbound list" where
  "addressing c = ((cn_id c, cn_self_member_id c, cn_app_id c),
     filter (\<lambda>ob. ob_conversation_id ob \<noteq> cn_id c \<or> ob_sender ob \<noteq> cn_app_id c) (cn_outbound c))"

interpretation identity: whole_frame E addressing for E
  by unfold_locales
     (simp_all add: addressing_def on_engine_def outcome_publish_def broadcast_def split: prod.splits)

abbreviation well_addressed :: "('g, 'o, 'c, 's) conversation \<Rightarrow> bool" where
  "well_addressed c \<equiv> snd (addressing c) = []"

lemma call_addressing:
  assumes "conv_call E c c'"
  shows "fst (addressing c') = fst (addressing c) \<and> (well_addressed c \<longrightarrow> well_addressed c')"
  using assms
proof (induction rule: conv_call.induct)
  case (tick c now)
  then show ?case by (simp add: addressing_def)
next
  case (polled c out c')
  then show ?case using identity.view_poll [of E c out c'] by simp
next
  case (outbound_drained c)
  then show ?case by (simp add: drain_outbound_def addressing_def)
qed simp_all

lemma inbound_addressing: "process_inbound E sender payload c = (out, c') \<Longrightarrow> addressing c' = addressing c"
  by (erule identity.view_snd) (rule identity.view_inbound(1))

lemma step_addressing:
  assumes "conv_step E c c'"
  shows "fst (addressing c') = fst (addressing c) \<and> (well_addressed c \<longrightarrow> well_addressed c')"
  using assms by cases (simp_all add: call_addressing inbound_addressing)

lemma assemble_addressed:
  "assemble E name mls scoring now app_id config creation = Inr c \<Longrightarrow>
     well_addressed c"
  by (auto simp: assemble_def Let_def result_then_eq_Inr conversation_new_def emit_event_def
      addressing_def split: if_splits sum.splits prod.splits)

lemma created_addressed:
  assumes "create_conversation E name scoring now app_id config members = Inr c"
  shows "well_addressed c"
proof -
  obtain mls d where "assemble E name mls scoring now app_id config True = Inr d"
    and seed: "seed_initial_members E members d = (Inr (), c)"
    using assms unfolding create_conversation_def
    by (cases "new_as_creator (env_om E) name")
       (auto simp: result_then_def split: sum.split_asm prod.split_asm)
  then show ?thesis
    using assemble_addressed identity.view_snd [OF seed identity.view_joining(1)] by simp
qed

lemma joined_addressed:
  assumes "join_conversation E utf8 welcome sync scoring now app_id config = Inr (Some c)"
  shows "well_addressed c"
proof -
  obtain mls d where a: "assemble E (ms_conversation_id mls) mls scoring now app_id config False = Inr d"
    and j: "try_then (on_joined E d) (\<lambda>_ c'. apply_welcome_sync E sync c') = (Inr (), c)"
    using assms unfolding join_conversation_def
    by (auto simp: result_then_def split: sum.split_asm option.split_asm prod.split_asm)
  have "addressing c = addressing d"
    by (rule identity.view_snd [OF j]) (simp add: identity.view_try)
  then show ?thesis using assemble_addressed [OF a] by simp
qed

lemma reachable_addressed: "conv_reachable E c \<Longrightarrow> well_addressed c"
  by (induction rule: conv_reachable.induct)
     (blast dest: created_addressed joined_addressed step_addressing)+

text \<open>
  C23. Addressing and echo suppression: in every reachable conversation each packet waiting to be
  sent carries the conversation's id and our application id, and when the transport hands such a
  packet back to the conversation it is dropped without any effect.
\<close>

theorem own_packets_are_dropped:
  assumes "conv_reachable E c" and "ob \<in> set (cn_outbound c)"
  shows "ob_conversation_id ob = cn_id c \<and>
    process_inbound E (ob_sender ob) (ob_payload ob) c = (Inr Dropped, c)"
  using reachable_addressed [OF assms(1)] assms(2)
  by (auto simp: addressing_def filter_empty_conv process_inbound_def)

definition demo_asked ::
  "conversation_error + (demo_group, demo_object, demo_engine_state, in_memory_peer_score_storage) conversation" where
  "demo_asked =
     (case create_conversation demo_env ''c'' (scoring_new [] [] scoring_config_default) 0 [9] demo_config [] of
        Inl e \<Rightarrow> Inl e
      | Inr c \<Rightarrow> Inr (snd (request_conversation_sync demo_env c)))"

theorem own_packets_are_dropped_witness:
  "\<exists>c ob. conv_reachable demo_env c \<and> ob \<in> set (cn_outbound c) \<and>
     process_inbound demo_env (ob_sender ob) (ob_payload ob) c = (Inr Dropped, c)"
proof -
  have asked: "case demo_asked of Inr d \<Rightarrow> cn_outbound d \<noteq> [] | Inl _ \<Rightarrow> False" by code_simp
  then obtain c where "conv_reachable demo_env c" "cn_outbound c \<noteq> []"
    using conv_reachable.created [THEN conv_reachable.stepped, OF _ conv_step.called, OF _ conv_call.sync_requested]
    by (fastforce simp: demo_asked_def split: sum.splits)
  moreover from this obtain ob where "ob \<in> set (cn_outbound c)" by (cases "cn_outbound c") auto
  ultimately show ?thesis using own_packets_are_dropped by blast
qed

section \<open>A poll returns\<close>

text \<open>
  What the loop over the outcome bus relies on. The id of a proposal determines its content
  (\<open>content\<close>), for the proposals we open and for those we look up; opening a proposal or removing a
  session resolves nothing; and the YES that is bundled with an own proposal may resolve that
  proposal, as accepted, and no other.
\<close>

definition own_votes_settle :: "'c consensus_engine \<Rightarrow> (u32 \<Rightarrow> bytes) \<Rightarrow> bool" where
  "own_votes_settle ce content \<longleftrightarrow>
     (\<forall>s a b d n t l tmo now.
        fst (snd (ce_create_proposal ce a b d n t l tmo now s)) = [] \<and>
        (\<forall>p. fst (ce_create_proposal ce a b d n t l tmo now s) = Inr p \<longrightarrow> content (cp_proposal_id p) = b)) \<and>
     (\<forall>s a pid now. \<forall>e\<in>set (fst (snd (ce_cast_vote_and_get_proposal ce a pid True now s))).
        \<exists>ts. snd e = ConsensusReached pid True ts) \<and>
     (\<forall>s a p. fst (snd (ce_remove_session ce a p s)) = []) \<and>
     (\<forall>s a pid p. ce_get_proposal ce s a pid = Inr p \<longrightarrow> cp_payload p = content pid)"

text \<open>The proposals that the handling of outcomes opens with a YES: elections and calls for recovery.\<close>

definition governs :: "conversation_update_request \<Rightarrow> bool" where
  "governs request \<longleftrightarrow>
     (case request of
        Some (StewardElection _) \<Rightarrow> True
      | Some (EmergencyCriteria (Some ev)) \<Rightarrow> is_deadlock ev
      | _ \<Rightarrow> False)"

definition settled_event :: "externals \<Rightarrow> (u32 \<Rightarrow> bytes) \<Rightarrow> consensus_event \<Rightarrow> bool" where
  "settled_event x content event \<longleftrightarrow>
     (\<exists>pid ts. event = ConsensusReached pid True ts \<and>
        (\<forall>request. x_decode_request x (content pid) = Inr request \<longrightarrow> governs request))"

definition adds_settled ::
  "externals \<Rightarrow> (u32 \<Rightarrow> bytes) \<Rightarrow> ('g, 'o, 'c, 's) conversation \<Rightarrow> ('g, 'o, 'c, 's) conversation \<Rightarrow> bool" where
  "adds_settled x content c c' \<longleftrightarrow>
     (\<exists>es. cn_outcomes c' = cn_outcomes c @ es \<and> (\<forall>e\<in>set es. settled_event x content (snd e)))"

lemma adds_settled_same: "cn_outcomes c' = cn_outcomes c \<Longrightarrow> adds_settled x content c c'"
  by (simp add: adds_settled_def)

text \<open>Operations that do not reach the consensus service leave the bus alone.\<close>

interpretation bus: still_invariant E "\<lambda>d. cn_outcomes d = out" for E out
  by unfold_locales (simp_all add: broadcast_def)

lemmas bus_ops [simp] = bus.inv_queues [OF refl] bus.inv_stewards [OF refl] bus.inv_scoring [OF refl]
  bus.inv_service [OF refl] bus.inv_rounds [OF refl] bus.inv_basic [OF refl] bus.inv_anchors [OF refl]
  bus.inv_scores [OF refl] bus.inv_send [OF refl] bus.inv_freeze_entered [OF refl] bus.inv_sync_out [OF refl]
  bus.inv_emit_change [OF refl]

lemma bus_transitions [simp]:
  "cn_outcomes (on_timing ft c) = cn_outcomes c"
  "cn_outcomes (snd (start_working c)) = cn_outcomes c"
  "cn_outcomes (snd (start_freezing c)) = cn_outcomes c"
  "cn_outcomes (enter_recovery_mode c) = cn_outcomes c"
  "cn_outcomes (exit_recovery_mode c) = cn_outcomes c"
  "cn_outcomes (c\<lparr>cn_queues := q\<rparr>) = cn_outcomes c"
  "cn_outcomes (c\<lparr>cn_stewards := svc\<rparr>) = cn_outcomes c"
  by (simp_all add: on_timing_def on_phase_timer_def start_working_def start_freezing_def
      enter_recovery_mode_def exit_recovery_mode_def split: prod.splits bool.splits)

lemma bus_phases [simp]:
  "cn_outcomes (resume_from_reelection c) = cn_outcomes c"
  "cn_outcomes (start_freezing_and_emit c) = cn_outcomes c"
  by (simp_all add: resume_from_reelection_def start_freezing_and_emit_def split_beta)

lemma bus_try:
  fixes r :: "('e + 'v) \<times> ('g, 'o, 'c, 's) conversation"
  assumes "cn_outcomes (snd r) = out" and "\<And>v d. r = (Inr v, d) \<Longrightarrow> cn_outcomes d = out \<Longrightarrow> cn_outcomes (snd (k v d)) = out"
  shows "cn_outcomes (snd (try_then r k)) = out"
  using bus.inv_try [of r out k] assms by blast

lemma adds_try:
  assumes "adds_settled x content c (snd r)"
    and "\<And>v d. r = (Inr v, d) \<Longrightarrow> adds_settled x content c d \<Longrightarrow> adds_settled x content c (snd (k v d))"
  shows "adds_settled x content c (snd (try_then r k))"
proof (cases r)
  case (Pair a d)
  with assms show ?thesis by (cases a) auto
qed

lemma adds_then_same: "adds_settled x content c d \<Longrightarrow> cn_outcomes c' = cn_outcomes d \<Longrightarrow> adds_settled x content c c'"
  by (simp add: adds_settled_def)

lemma created:
  assumes "own_votes_settle ce content"
  shows "fst (snd (ce_create_proposal ce a b d n t l tmo now s)) = []"
    and "fst (ce_create_proposal ce a b d n t l tmo now s) = Inr p \<Longrightarrow> content (cp_proposal_id p) = b"
  using assms by (simp_all add: own_votes_settle_def)

lemma engine_bus: "cn_outcomes (snd (on_engine fe c)) = cn_outcomes c @ fst (snd (fe (cn_consensus c)))"
  by (simp add: on_engine_def outcome_publish_def split_beta)

lemma engine_result: "on_engine fe c = (Inr v, d) \<Longrightarrow> fst (fe (cn_consensus c)) = Inr v"
  by (auto simp: on_engine_def split: prod.splits sum.splits)

lemma submitted:
  assumes "own_votes_settle (env_ce E) content"
  shows "cn_outcomes (snd (submit_proposal E request params c)) = cn_outcomes c"
    and "submit_proposal E request params c = (Inr (pid, msg), d) \<Longrightarrow>
      content pid = x_encode_request (env_x E) request"
proof -
  show "cn_outcomes (snd (submit_proposal E request params c)) = cn_outcomes c"
    unfolding submit_proposal_def by (rule bus_try) (simp_all add: engine_bus created(1) [OF assms])
  show "submit_proposal E request params c = (Inr (pid, msg), d) \<Longrightarrow>
      content pid = x_encode_request (env_x E) request"
    by (auto simp: submit_proposal_def try_then_eq_Inr dest!: engine_result created(2) [OF assms])
qed

lemma adds_registered [simp]:
  "adds_settled x content c (register_consensus_timeout p t d) = adds_settled x content c d"
  "adds_settled x content c (on_queues fq d) = adds_settled x content c d"
  by (simp_all add: adds_settled_def on_queues_def)

text \<open>A proposal whose vote is deferred resolves nothing; one with a bundled YES at most itself.\<close>

lemma deferred_outcomes:
  assumes "own_votes_settle (env_ce E) content"
  shows "cn_outcomes (snd (initiate_proposal E request CreatorDeferred c)) = cn_outcomes c"
proof (cases "check_proposal_allowed E c (proposal_kind_of request)")
  case (Inr voters)
  then show ?thesis
    unfolding initiate_proposal_def Let_def
    by (auto simp: submitted(1) [OF assms] split_beta intro!: bus_try)
qed (simp add: initiate_proposal_def)

lemma proposed_outcomes:
  assumes own: "own_votes_settle (env_ce E) content" and governed: "governs request"
    and codec: "\<And>r r'. x_decode_request (env_x E) (x_encode_request (env_x E) r) = Inr r' \<Longrightarrow> r' = r"
  shows "adds_settled (env_x E) content c (snd (initiate_proposal E request CreatorYes c))"
proof (cases "check_proposal_allowed E c (proposal_kind_of request)")
  case (Inr voters)
  have votes: "\<exists>ts. snd e = ConsensusReached pid True ts"
    if "e \<in> set (fst (snd (ce_cast_vote_and_get_proposal (env_ce E) a pid True now s)))" for e a pid now s
    using own that unfolding own_votes_settle_def by blast
  have settled: "settled_event (env_x E) content (snd e)"
    if "content pid = x_encode_request (env_x E) request"
      "e \<in> set (fst (snd (ce_cast_vote_and_get_proposal (env_ce E) a pid True now s)))" for e a pid now s
    using votes [OF that(2)] codec [of request] governed by (auto simp: settled_event_def that(1))
  have cast: "adds_settled (env_x E) content c
      (snd (on_engine (ce_cast_vote_and_get_proposal (env_ce E) a pid True now) d))"
    if "content pid = x_encode_request (env_x E) request" "adds_settled (env_x E) content c d" for a pid now d
    using that(2) settled [OF that(1)] by (auto simp: adds_settled_def engine_bus)
  have sent: "adds_settled (env_x E) content c (snd (try_then (send_app_message E msg d) (\<lambda>_ d'. (Inr (), emit_event ev d'))))"
    if "adds_settled (env_x E) content c d" for msg d ev
    by (rule adds_then_same [OF that], rule bus_try) simp_all
  have ending: "adds_settled (env_x E) content c (snd (try_then
      (on_engine (ce_cast_vote_and_get_proposal (env_ce E) a pid True now) d)
      (\<lambda>p d'. try_then (send_app_message E (Some (ProposalPayload p)) d') (\<lambda>_ d''. (Inr (), emit_event ev d'')))))"
    if "content pid = x_encode_request (env_x E) request" "adds_settled (env_x E) content c d" for a pid now d ev
    by (rule adds_try [OF cast [OF that]]) (rule sent)
  show ?thesis
  proof (cases "case in_flight_target (env_x E) request of
      Some target \<Rightarrow> target \<in> active_proposal_targets (env_x E) (cn_queues c) | None \<Rightarrow> False")
    case False
    show ?thesis
      unfolding initiate_proposal_def Let_def if_not_P [OF False] Inr sum.case creator_vote.case
      by (rule adds_try, simp add: adds_settled_same submitted(1) [OF own])
         (auto simp: split_beta intro!: ending submitted(2) [OF own])
  qed (simp add: initiate_proposal_def adds_settled_same)
qed (simp add: initiate_proposal_def adds_settled_same)

text \<open>The handling of outcomes: elections and calls for recovery are what it opens.\<close>

lemma election_outcomes:
  assumes "own_votes_settle (env_ce E) content"
    and "\<And>r r'. x_decode_request (env_x E) (x_encode_request (env_x E) r) = Inr r' \<Longrightarrow> r' = r"
  shows "adds_settled (env_x E) content c (snd (initiate_steward_election E rec c))"
    and "adds_settled (env_x E) content c (refresh_stewards_after_removal E target c)"
    and "adds_settled (env_x E) content c (snd (request_recovery E c))"
    and "adds_settled (env_x E) content c (snd (advance_election_retry E c))"
proof -
  note propose = proposed_outcomes [OF assms(1) _ assms(2)]
  show election: "adds_settled (env_x E) content c (snd (initiate_steward_election E rec c))" for c rec
    by (auto simp: initiate_steward_election_def Let_def adds_settled_same governs_def steward_election_request_def
        split: sum.split election_decision.split intro!: propose)
  then show "adds_settled (env_x E) content c (refresh_stewards_after_removal E target c)"
    by (simp add: refresh_stewards_after_removal_def adds_settled_same)
  have deadlock: "is_deadlock (with_creator m (deadlock_evidence e))" for m e
    by (simp add: is_deadlock_def with_creator_def deadlock_evidence_def violation_evidence_of_def
        violation_try_from_def)
  show recovery: "adds_settled (env_x E) content c (snd (request_recovery E c))" for c
    by (auto simp: request_recovery_def into_update_request_def adds_settled_same governs_def deadlock
        split: sum.split intro!: propose)
  let ?b = "c\<lparr>cn_stewards := bump_retry (cn_stewards c)\<rparr>"
  have "cn_outcomes (snd (advance_election_retry E c)) = cn_outcomes
      (if svc_max_retries (cn_stewards ?b) < svc_next_election_round (cn_stewards ?b)
       then if is_deadlock_proposer E ?b then snd (request_recovery E ?b) else ?b
       else snd (initiate_steward_election E True ?b))"
    by (simp add: advance_election_retry_def Let_def split_beta split: sum.split)
  moreover have "adds_settled (env_x E) content c d" if "adds_settled (env_x E) content ?b d" for d
    using that by (simp add: adds_settled_def)
  ultimately show "adds_settled (env_x E) content c (snd (advance_election_retry E c))"
    using election [of ?b True] recovery [of ?b] by (simp add: adds_settled_def)
qed

lemma silent_handlers:
  assumes "own_votes_settle (env_ce E) content"
  shows "cn_outcomes (process_buffered_updates E c) = cn_outcomes c"
    and "cn_outcomes (snd (handle_election_accepted E election c)) = cn_outcomes c"
    and "cn_outcomes (snd (handle_emergency_scored E pid ops c)) = cn_outcomes c"
proof -
  have "cn_outcomes (fold (\<lambda>r d. snd (initiate_proposal E r CreatorDeferred d)) rs c) = cn_outcomes c" for rs c
    by (induction rs arbitrary: c) (simp_all add: deferred_outcomes [OF assms])
  then show buffered: "cn_outcomes (process_buffered_updates E c) = cn_outcomes c" for c
    by (simp add: process_buffered_updates_def drain_buffered_updates_def)
  show "cn_outcomes (snd (handle_election_accepted E election c)) = cn_outcomes c"
    by (auto simp: handle_election_accepted_def Let_def split_beta buffered split: sum.split bool.split intro!: bus_try)
  show "cn_outcomes (snd (handle_emergency_scored E pid ops c)) = cn_outcomes c"
    unfolding handle_emergency_scored_def by (rule bus_try) simp_all
qed

lemma follow_up_outcomes:
  assumes "own_votes_settle (env_ce E) content"
    and "\<And>r r'. x_decode_request (env_x E) (x_encode_request (env_x E) r) = Inr r' \<Longrightarrow> r' = r"
  shows "adds_settled (env_x E) content c (snd (follow_up E ca c))"
    and "(\<exists>se. ca = ElectionAccepted se) \<or> ca = RecoveryModeOpened \<Longrightarrow>
      cn_outcomes (snd (follow_up E ca c)) = cn_outcomes c"
proof -
  show settled: "(\<exists>se. ca = ElectionAccepted se) \<or> ca = RecoveryModeOpened \<Longrightarrow>
      cn_outcomes (snd (follow_up E ca c)) = cn_outcomes c"
    by (auto simp: silent_handlers [OF assms(1)])
  have freeze: "cn_outcomes d = cn_outcomes c" if "start_freezing c = (e, d)" for e d
    using that bus_transitions(3) [of c] by simp
  have refresh: "adds_settled (env_x E) content c (refresh_stewards_after_removal E t d)"
    if "cn_outcomes d = cn_outcomes c" for t d
    using election_outcomes(2) [OF assms, of d t] that by (simp add: adds_settled_def)
  show "adds_settled (env_x E) content c (snd (follow_up E ca c))"
  proof (cases ca)
    case (UrgentRemoval target)
    obtain e d where frozen: "start_freezing c = (e, d)" by (cases "start_freezing c")
    then have d: "cn_outcomes d = cn_outcomes c" by (rule freeze)
    have "adds_settled (env_x E) content c (snd (try_then (on_freeze_entered E s d)
        (\<lambda>_ d'. (Inr (), refresh_stewards_after_removal E target d'))))" for s
      by (rule adds_try, simp add: adds_settled_same d, simp, rule refresh, erule bus.inv_snd)
         (rule bus.inv_freeze_entered [OF d])
    with UrgentRemoval frozen show ?thesis by (simp add: refresh d split: option.split)
  next
    case (QueuedRemoval target)
    then show ?thesis by (simp add: refresh)
  next
    case ElectionRejected
    then show ?thesis by (simp add: election_outcomes(4) [OF assms])
  qed (simp_all add: adds_settled_same silent_handlers [OF assms(1)])
qed

text \<open>One outcome: only an unsettled one adds to the bus, and what it adds is settled.\<close>

lemma governed_result:
  assumes "governs request" and "apply_consensus_result x pid True request q = (Inr ca, q')"
  shows "(\<exists>se. ca = ElectionAccepted se) \<or> ca = RecoveryModeOpened"
  using assms
  by (auto simp: governs_def apply_consensus_result_def Let_def apply_election_result_def pending_removal_target_def
      duplicate_invite_def is_deadlock_def is_score_below_threshold_def
      split: option.splits request_payload.splits if_splits)

lemma outcome_outcomes:
  assumes own: "own_votes_settle (env_ce E) content"
    and codec: "\<And>r r'. x_decode_request (env_x E) (x_encode_request (env_x E) r) = Inr r' \<Longrightarrow> r' = r"
  shows "adds_settled (env_x E) content c (snd (handle_consensus_outcome E event c))"
    and "settled_event (env_x E) content event \<Longrightarrow>
      cn_outcomes (snd (handle_consensus_outcome E event c)) = cn_outcomes c"
proof -
  have remove: "cn_outcomes (snd (on_engine (ce_remove_session (env_ce E) a p) d)) = cn_outcomes d" for a p d
    using own by (simp add: engine_bus own_votes_settle_def)
  have tail: "cn_outcomes (snd (try_then (if ops = [] then (Inr (), d) else handle_emergency_scored E p ops d)
      (\<lambda>_ c8. on_engine (ce_remove_session (env_ce E) (cn_id c8) p) c8))) = cn_outcomes d" for p ops d
    by (rule bus_try) (simp_all add: remove silent_handlers [OF own])
  have rest: "adds_settled (env_x E) content c (snd (try_then (applied, d) (\<lambda>ca c5.
        try_then (conv_replay_early_candidates E c5) (\<lambda>_ c6.
        try_then (follow_up E ca c6) (\<lambda>_ c7.
        try_then (if ops = [] then (Inr (), c7) else handle_emergency_scored E p ops c7) (\<lambda>_ c8.
          on_engine (ce_remove_session (env_ce E) (cn_id c8) p) c8))))))"
    if d: "cn_outcomes d = cn_outcomes c" for d applied p ops
  proof -
    have follow: "adds_settled (env_x E) content c (snd (follow_up E ca c6))" if "cn_outcomes c6 = cn_outcomes d" for ca c6
      using follow_up_outcomes(1) [OF own codec, of c6 ca] that d by (simp add: adds_settled_def)
    show ?thesis
      by (rule adds_try, simp add: adds_settled_same d, rule adds_try, simp add: adds_settled_same d,
          rule adds_try, rule follow, erule bus.inv_snd, simp, erule adds_then_same, rule tail)
  qed
  show "adds_settled (env_x E) content c (snd (handle_consensus_outcome E event c))"
    unfolding handle_consensus_outcome_def Let_def split_beta
    by (auto simp: adds_settled_same split: sum.split intro!: rest)
  show "cn_outcomes (snd (handle_consensus_outcome E event c)) = cn_outcomes c" 
    if settled: "settled_event (env_x E) content event"
  proof -
    obtain pid ts where event: "event = ConsensusReached pid True ts"
      and governed: "\<And>r. x_decode_request (env_x E) (content pid) = Inr r \<Longrightarrow> governs r"
      using settled by (auto simp: settled_event_def)
    have found: "governs r" if "ce_get_proposal (env_ce E) s a pid = Inr p" "x_decode_request (env_x E) (cp_payload p) = Inr r"
      for s a p r
      using own that governed unfolding own_votes_settle_def by metis
    have quiet: "cn_outcomes (snd (try_then (fst (apply_consensus_result (env_x E) pid True r q), d) (\<lambda>ca c5.
        try_then (conv_replay_early_candidates E c5) (\<lambda>_ c6.
        try_then (follow_up E ca c6) (\<lambda>_ c7.
        try_then (if ops = [] then (Inr (), c7) else handle_emergency_scored E p ops c7) (\<lambda>_ c8.
          on_engine (ce_remove_session (env_ce E) (cn_id c8) p) c8)))))) = cn_outcomes c"
      if "governs r" "cn_outcomes d = cn_outcomes c" for r q d p ops
    proof (cases "fst (apply_consensus_result (env_x E) pid True r q)")
      case (Inr ca)
      then have ca: "(\<exists>se. ca = ElectionAccepted se) \<or> ca = RecoveryModeOpened"
        using that(1) governed_result [of r "env_x E" pid q ca] by (metis prod.collapse)
      then have follow: "cn_outcomes (snd (follow_up E ca c6)) = cn_outcomes c6" for c6
        using follow_up_outcomes(2) [OF own] codec by blast
      show ?thesis
        unfolding Inr by (rule bus_try, simp add: that(2), clarify, rule bus_try, simp, rule bus_try, simp add: follow,
            subst tail, assumption)
    qed (simp add: that(2))
    show ?thesis
      unfolding handle_consensus_outcome_def Let_def split_beta event event_outcome.simps fst_conv snd_conv
      by (auto split: sum.split intro!: quiet [OF found])
  qed
qed

text \<open>
  The loop ends: an unsettled outcome leaves one unsettled outcome less, a settled one a shorter
  bus.
\<close>

lemma drain_returns:
  assumes own: "own_votes_settle (env_ce E) content"
    and codec: "\<And>r r'. x_decode_request (env_x E) (x_encode_request (env_x E) r) = Inr r' \<Longrightarrow> r' = r"
  shows "\<exists>c'. drain_outcomes E c = Some c' \<and> cn_outcomes c' = []"
proof (induction c rule: wf_induct_rule [OF wf_measures, of
    "[\<lambda>c. length (filter (\<lambda>e. \<not> settled_event (env_x E) content (snd e)) (cn_outcomes c)),
      \<lambda>c. length (cn_outcomes c)]"])
  case (1 c)
  show ?case
  proof (cases "cn_outcomes c")
    case Nil
    then show ?thesis by (subst drain_outcomes.simps) (simp add: outcome_try_recv_def)
  next
    case (Cons e es)
    let ?c = "c\<lparr>cn_outcomes := es\<rparr>"
    let ?d = "snd (handle_consensus_outcome E (snd e) ?c)"
    have adds: "adds_settled (env_x E) content ?c ?d"
      using codec by (rule outcome_outcomes(1) [OF own])
    have settled: "settled_event (env_x E) content (snd e) \<Longrightarrow> cn_outcomes ?d = es"
      using outcome_outcomes(2) [OF own, of "snd e" ?c] codec by simp
    have "(?d, c) \<in> measures
        [\<lambda>c. length (filter (\<lambda>e. \<not> settled_event (env_x E) content (snd e)) (cn_outcomes c)),
         \<lambda>c. length (cn_outcomes c)]"
    proof (cases "settled_event (env_x E) content (snd e)")
      case False
      obtain new where "cn_outcomes ?d = es @ new" "\<forall>e\<in>set new. settled_event (env_x E) content (snd e)"
        using adds by (auto simp: adds_settled_def)
      with Cons False show ?thesis by simp
    qed (simp add: settled Cons)
    then obtain c' where "drain_outcomes E ?d = Some c'" "cn_outcomes c' = []" using 1 by blast
    then show ?thesis
      using Cons by (subst drain_outcomes.simps) (simp add: outcome_try_recv_def split_beta)
  qed
qed


text \<open>
  A service of a few proposals, numbered by their content. It resolves a proposal with a single
  expected voter on that voter's own YES.
\<close>

definition catalogue :: "bytes list" where
  "catalogue = [[], 1 # member_id_of 1, 1 # member_id_of 2, 1 # member_id_of 3]"

definition catalogue_content :: "u32 \<Rightarrow> bytes" where
  "catalogue_content pid = (if unat pid < length catalogue then catalogue ! unat pid else [])"

definition catalogue_ids :: "u32 list" where
  "catalogue_ids = [0, 1, 2, 3]"

definition catalogue_env ::
  "(demo_group, demo_object, demo_engine_state, in_memory_peer_score_storage) environment" where
  "catalogue_env = demo_env\<lparr>env_ce := demo_engine\<lparr>
     ce_create_proposal := (\<lambda>scope payload owner voters secs live timeout now s.
       case find (\<lambda>pid. catalogue_content pid = payload) catalogue_ids of
         None \<Rightarrow> (Inl SessionNotFound, [], s)
       | Some pid \<Rightarrow>
           let p = demo_proposal pid payload owner voters
           in (Inr p, [], s\<lparr>de_sessions := de_sessions s @ [p]\<rparr>)),
     ce_get_proposal := (\<lambda>s scope pid.
       case demo_session s pid of
         None \<Rightarrow> Inl SessionNotFound
       | Some p \<Rightarrow> if cp_payload p = catalogue_content pid then Inr p else Inl SessionNotFound)\<rparr>\<rparr>"

lemma catalogue_settles: "own_votes_settle (env_ce catalogue_env) catalogue_content"
  unfolding own_votes_settle_def
proof (intro conjI allI ballI impI)
  fix s a b d n t l tmo now p
  assume "fst (ce_create_proposal (env_ce catalogue_env) a b d n t l tmo now s) = Inr p"
  then show "catalogue_content (cp_proposal_id p) = b"
    by (auto simp: catalogue_env_def Let_def demo_proposal_def find_Some_iff split: option.splits)
next
  fix s a pid now e
  assume "e \<in> set (fst (snd (ce_cast_vote_and_get_proposal (env_ce catalogue_env) a pid True now s)))"
  then show "\<exists>ts. snd e = ConsensusReached pid True ts"
    by (auto simp: catalogue_env_def demo_engine_def demo_resolution_def demo_session_def find_Some_iff
        split: option.splits if_splits)
qed (auto simp: catalogue_env_def demo_engine_def Let_def split: option.splits if_splits)


end
