(* ===== verification/Group_Run.thy ===== *)
theory Group_Run
  imports Component_Safety Draining
begin

text \<open>
  A group: conversations that each run in an environment of their own and are connected by
  nothing but the packets they drain. A step of the group is a call on one member, the sending of
  what a member has queued, or the delivery of a packet that was sent; the transport may lose,
  repeat and reorder. The question is where the candidates come from that a member ranks.
\<close>

section \<open>Candidates of other members\<close>

definition candidates_within :: "commit_candidate set \<Rightarrow> ('g, 'o, 'c, 's) conversation \<Rightarrow> bool" where
  "candidates_within A c \<longleftrightarrow> remote_candidates (cn_queues c) \<subseteq> A"

lemma admission_remote [simp]:
  "remote_candidates (remove_voting_proposal pid q) = remote_candidates q"
  "remote_candidates (insert_approved_proposal pid r q) = remote_candidates q"
  "remote_candidates (set_urgent_commit_target t q) = remote_candidates q"
  by (simp_all add: remote_candidates_def remove_voting_proposal_def insert_approved_proposal_def
      set_urgent_commit_target_def)

lemma resolved_remote: "remote_candidates (snd (apply_consensus_result x pid approved r q)) = remote_candidates q"
  by (simp add: apply_consensus_result_def Let_def split: option.split)

interpretation heard: call_invariant E "candidates_within A" for E A
  by unfold_locales
     (auto simp: candidates_within_def quiet_steps_def broadcast_def resolved_remote)

lemma call_candidates:
  "conv_call E c c' \<Longrightarrow> remote_candidates (cn_queues c') \<subseteq> remote_candidates (cn_queues c)"
  using heard.inv_call [of E c c' "remote_candidates (cn_queues c)"] by (simp add: candidates_within_def)

text \<open>The candidates a packet holds: at most one.\<close>

definition candidates_in :: "externals \<Rightarrow> bytes \<Rightarrow> commit_candidate set" where
  "candidates_in x payload = {cand. x_decode_app x payload = Inr (Some (CommitCandidatePayload cand))}"

lemma decoded_candidates:
  "candidates_within (remote_candidates (cn_queues c) \<union> candidates_in (env_x E) payload)
     (snd (decode_inbound E payload c))"
  using decode_steps(2) [of "env_x E" "env_om E" payload "(cn_queues c, cn_mls c)"]
  by (simp add: candidates_within_def candidates_in_def decode_inbound_def on_round_def split_beta)

lemma packet_candidates:
  assumes "process_inbound E sender payload c = (out, c')"
  shows "remote_candidates (cn_queues c') \<subseteq> remote_candidates (cn_queues c) \<union>
    (if sender = cn_app_id c then {} else candidates_in (env_x E) payload)"
proof (cases "sender = cn_app_id c")
  case False
  then have "c' = snd (try_then (decode_inbound E payload c) (dispatch_inbound_result E))"
    using assms by (simp add: process_inbound_def)
  then have "candidates_within (remote_candidates (cn_queues c) \<union> candidates_in (env_x E) payload) c'"
    by (auto intro: heard.inv_try simp: decoded_candidates)
  with False show ?thesis by (simp add: candidates_within_def)
qed (use assms in \<open>simp add: process_inbound_def\<close>)

lemma assembled_candidates:
  "assemble E name mls scoring now app_id config creation = Inr c \<Longrightarrow> remote_candidates (cn_queues c) = {}"
  by (auto simp: assemble_def Let_def result_then_eq_Inr conversation_new_def emit_event_def
      remote_candidates_def queues_new_def commit_round_buffer_default_def split: if_splits sum.splits prod.splits)

lemma created_candidates:
  assumes "create_conversation E name scoring now app_id config members = Inr c"
  shows "remote_candidates (cn_queues c) = {}"
proof -
  obtain mls d where a: "assemble E name mls scoring now app_id config True = Inr d"
    and seed: "seed_initial_members E members d = (Inr (), c)"
    using assms unfolding create_conversation_def
    by (cases "new_as_creator (env_om E) name")
       (auto simp: result_then_def split: sum.split_asm prod.split_asm)
  have "candidates_within {} d"
    using assembled_candidates [OF a] by (simp add: candidates_within_def)
  then have "candidates_within {} c" by (intro heard.inv_snd [OF seed]) simp
  then show ?thesis by (simp add: candidates_within_def)
qed

lemma welcome_sync_candidates:
  assumes "candidates_within A c" and "candidates_in (env_x E) sync \<subseteq> A"
  shows "candidates_within A (snd (apply_welcome_sync E sync c))"
proof -
  have "candidates_within A (snd (decode_inbound E sync c))"
    using decoded_candidates [of c E sync] assms by (auto simp: candidates_within_def)
  with assms(1) show ?thesis by (cases "sync = []") (simp_all add: apply_welcome_sync_def heard.inv_try)
qed

lemma joined_candidates:
  assumes "join_conversation E utf8 welcome sync scoring now app_id config = Inr (Some c)"
  shows "remote_candidates (cn_queues c) \<subseteq> candidates_in (env_x E) sync"
proof -
  obtain mls d where a: "assemble E (ms_conversation_id mls) mls scoring now app_id config False = Inr d"
    and j: "try_then (on_joined E d) (\<lambda>_ c'. apply_welcome_sync E sync c') = (Inr (), c)"
    using assms unfolding join_conversation_def
    by (auto simp: result_then_def split: sum.split_asm option.split_asm prod.split_asm)
  let ?A = "candidates_in (env_x E) sync"
  have "candidates_within ?A d"
    using assembled_candidates [OF a] by (simp add: candidates_within_def)
  then have "candidates_within ?A (snd (try_then (on_joined E d) (\<lambda>_ c'. apply_welcome_sync E sync c')))"
    by (intro heard.inv_try welcome_sync_candidates) simp_all
  with j show ?thesis by (simp add: candidates_within_def)
qed

section \<open>Steps of a group\<close>

text \<open>
  A member is named by an index; the index of a member that has left is not used again once a
  packet of it was sent. What is on the wire stays there: it can be delivered to any member of
  the conversation, at any time, any number of times or never. Two rules are the integrator's: a
  packet goes to the conversation whose id it carries, and the blob that comes with a welcome is a
  sync, not a candidate, when a member enters or later.
\<close>

record ('i, 'g, 'o, 'c, 's) messaging_group =
  gr_members :: "'i \<Rightarrow> ('g, 'o, 'c, 's) conversation option"
  gr_wire :: "('i \<times> outbound) set"

definition with_member ::
  "('i, 'g, 'o, 'c, 's) messaging_group \<Rightarrow> 'i \<Rightarrow> ('g, 'o, 'c, 's) conversation option \<Rightarrow>
   ('i, 'g, 'o, 'c, 's) messaging_group" where
  "with_member S i m = S\<lparr>gr_members := (gr_members S)(i := m)\<rparr>"

inductive group_step ::
  "('i \<Rightarrow> ('g, 'o, 'c, 's) environment) \<Rightarrow> ('i, 'g, 'o, 'c, 's) messaging_group \<Rightarrow>
   ('i, 'g, 'o, 'c, 's) messaging_group \<Rightarrow> bool" for E where
  founded: "\<forall>ob. (i, ob) \<notin> gr_wire S \<Longrightarrow>
    create_conversation (E i) name scoring now app_id config members = Inr c \<Longrightarrow>
    group_step E S (with_member S i (Some c))"
| entered: "\<forall>ob. (i, ob) \<notin> gr_wire S \<Longrightarrow> candidates_in (env_x (E i)) sync = {} \<Longrightarrow>
    join_conversation (E i) utf8 welcome_bytes sync scoring now app_id config = Inr (Some c) \<Longrightarrow>
    group_step E S (with_member S i (Some c))"
| acted: "gr_members S i = Some c \<Longrightarrow> conv_call (E i) c c' \<Longrightarrow> group_step E S (with_member S i (Some c'))"
| sent: "gr_members S i = Some c \<Longrightarrow> drain_outbound c = (obs, c') \<Longrightarrow>
    group_step E S ((with_member S i (Some c'))\<lparr>gr_wire := gr_wire S \<union> Pair i ` set obs\<rparr>)"
| delivered: "gr_members S j = Some c \<Longrightarrow> (i, ob) \<in> gr_wire S \<Longrightarrow> ob_conversation_id ob = cn_id c \<Longrightarrow>
    process_inbound (E j) (ob_sender ob) (ob_payload ob) c = (out, c') \<Longrightarrow> out \<noteq> Inr LeaveRequested \<Longrightarrow>
    group_step E S (with_member S j (Some c'))"
| synced: "gr_members S i = Some c \<Longrightarrow> candidates_in (env_x (E i)) blob = {} \<Longrightarrow>
    group_step E S (with_member S i (Some (snd (apply_welcome_sync (E i) blob c))))"
| gone: "group_step E S (with_member S i None)"

definition group_start :: "('i, 'g, 'o, 'c, 's) messaging_group \<Rightarrow> bool" where
  "group_start S \<longleftrightarrow> gr_wire S = {} \<and>
     (\<forall>i c. gr_members S i = Some c \<longrightarrow> well_addressed c \<and> remote_candidates (cn_queues c) = {})"

text \<open>The candidates that others have sent to the conversation of a member.\<close>

definition sent_by_others ::
  "('i \<Rightarrow> ('g, 'o, 'c, 's) environment) \<Rightarrow> ('i \<times> outbound) set \<Rightarrow> 'i \<Rightarrow>
   ('g, 'o, 'c, 's) conversation \<Rightarrow> commit_candidate set" where
  "sent_by_others E wire j c =
     (\<Union>(i, ob) \<in> {(i, ob) \<in> wire. i \<noteq> j \<and> ob_sender ob \<noteq> cn_app_id c \<and> ob_conversation_id ob = cn_id c}.
        candidates_in (env_x (E j)) (ob_payload ob))"

definition member_ok ::
  "('i \<Rightarrow> ('g, 'o, 'c, 's) environment) \<Rightarrow> ('i \<times> outbound) set \<Rightarrow> 'i \<Rightarrow>
   ('g, 'o, 'c, 's) conversation \<Rightarrow> bool" where
  "member_ok E wire j c \<longleftrightarrow>
     well_addressed c \<and> (\<forall>ob. (j, ob) \<in> wire \<longrightarrow> ob_sender ob = cn_app_id c) \<and>
     remote_candidates (cn_queues c) \<subseteq> sent_by_others E wire j c"

definition group_ok ::
  "('i \<Rightarrow> ('g, 'o, 'c, 's) environment) \<Rightarrow> ('i, 'g, 'o, 'c, 's) messaging_group \<Rightarrow> bool" where
  "group_ok E S \<longleftrightarrow> (\<forall>j c. gr_members S j = Some c \<longrightarrow> member_ok E (gr_wire S) j c)"

lemma sent_by_others_mono:
  assumes "wire \<subseteq> wire'" and "cn_id c' = cn_id c" and "cn_app_id c' = cn_app_id c"
  shows "sent_by_others E wire j c \<subseteq> sent_by_others E wire' j c'"
  using assms by (auto simp: sent_by_others_def)

lemma same_identity:
  "fst (addressing c') = fst (addressing c) \<Longrightarrow> cn_id c' = cn_id c \<and> cn_app_id c' = cn_app_id c"
  by (simp add: addressing_def)

lemma member_ok_call:
  assumes "conv_call (E i) c c'" and "member_ok E wire i c"
  shows "member_ok E wire i c'"
  using call_addressing [OF assms(1)] same_identity [of c' c] call_candidates [OF assms(1)] assms(2)
    sent_by_others_mono [of wire wire c' c E i]
  by (auto simp: member_ok_def)

lemma member_ok_packet:
  assumes "process_inbound (E j) (ob_sender ob) (ob_payload ob) c = (out, c')"
    and "(i, ob) \<in> wire" and "ob_conversation_id ob = cn_id c" and "member_ok E wire j c"
  shows "member_ok E wire j c'"
proof -
  have same: "addressing c' = addressing c" using inbound_addressing [OF assms(1)] .
  then have ids: "cn_id c' = cn_id c" "cn_app_id c' = cn_app_id c" using same_identity by metis+
  have "(if ob_sender ob = cn_app_id c then {} else candidates_in (env_x (E j)) (ob_payload ob))
      \<subseteq> sent_by_others E wire j c"
  proof (cases "ob_sender ob = cn_app_id c")
    case False
    then have "i \<noteq> j" using assms(2,4) by (auto simp: member_ok_def)
    with False show ?thesis using assms(2,3) by (auto simp: sent_by_others_def)
  qed simp
  moreover have "remote_candidates (cn_queues c) \<subseteq> sent_by_others E wire j c"
    using assms(4) by (simp add: member_ok_def)
  ultimately have "remote_candidates (cn_queues c') \<subseteq> sent_by_others E wire j c'"
    using packet_candidates [OF assms(1)] sent_by_others_mono [of wire wire c' c E j] ids by blast
  with assms(4) same ids show ?thesis by (simp add: member_ok_def)
qed

lemma member_ok_sync:
  assumes "candidates_in (env_x (E i)) blob = {}" and "member_ok E wire i c"
  shows "member_ok E wire i (snd (apply_welcome_sync (E i) blob c))"
proof -
  let ?c = "snd (apply_welcome_sync (E i) blob c)"
  have same: "addressing ?c = addressing c" by simp
  have "candidates_within (remote_candidates (cn_queues c)) ?c"
    using assms(1) by (intro welcome_sync_candidates) (simp_all add: candidates_within_def)
  then have "remote_candidates (cn_queues ?c) \<subseteq> remote_candidates (cn_queues c)"
    by (simp add: candidates_within_def)
  moreover have "cn_id ?c = cn_id c" "cn_app_id ?c = cn_app_id c"
    using same_identity [of ?c c] same by simp_all
  ultimately show ?thesis
    using assms(2) same sent_by_others_mono [of wire wire ?c c E i] by (auto simp: member_ok_def)
qed

lemma member_ok_wire:
  assumes "member_ok E wire j c" and "wire \<subseteq> wire'"
    and "\<And>ob. (j, ob) \<in> wire' - wire \<Longrightarrow> ob_sender ob = cn_app_id c"
  shows "member_ok E wire' j c"
  using assms sent_by_others_mono [of wire wire' c c E j] by (fastforce simp: member_ok_def)

lemma group_ok_with:
  "group_ok E S \<Longrightarrow> (\<And>c. m = Some c \<Longrightarrow> member_ok E (gr_wire S) i c) \<Longrightarrow> group_ok E (with_member S i m)"
  by (simp add: group_ok_def with_member_def)

lemma fresh_member_ok:
  "\<forall>ob. (i, ob) \<notin> wire \<Longrightarrow> well_addressed c \<Longrightarrow> remote_candidates (cn_queues c) = {} \<Longrightarrow>
     member_ok E wire i c"
  by (simp add: member_ok_def)

lemma group_ok_step:
  assumes "group_step E S S'" and "group_ok E S"
  shows "group_ok E S'"
  using assms
proof (induction rule: group_step.induct)
  case (founded i S name scoring now app_id config members c)
  then show ?case using fresh_member_ok created_addressed created_candidates by (metis group_ok_with option.inject)
next
  case (entered i S sync utf8 welcome_bytes scoring now app_id config c)
  then have "remote_candidates (cn_queues c) = {}" using joined_candidates by fastforce
  with entered show ?case using fresh_member_ok joined_addressed by (metis group_ok_with option.inject)
next
  case (acted S i c c')
  then show ?case using member_ok_call by (metis group_ok_def group_ok_with option.inject)
next
  case (sent S i c obs c')
  let ?wire = "gr_wire S \<union> Pair i ` set obs"
  have ok: "member_ok E (gr_wire S) i c" using sent by (simp add: group_ok_def)
  have "conv_call (E i) c c'" and obs: "obs = cn_outbound c"
    using conv_call.outbound_drained [of "E i" c] sent(2) by (simp_all add: drain_outbound_def)
  then have ok': "member_ok E (gr_wire S) i c'" using member_ok_call ok by metis
  moreover have "cn_app_id c' = cn_app_id c" using sent(2) by (auto simp: drain_outbound_def)
  then have "\<forall>ob \<in> set obs. ob_sender ob = cn_app_id c'"
    using ok obs by (auto simp: member_ok_def addressing_def filter_empty_conv)
  ultimately have "member_ok E ?wire i c'" by (auto intro: member_ok_wire)
  moreover have "member_ok E ?wire j d" if "gr_members S j = Some d" "j \<noteq> i" for j d
    using sent(3) that by (auto simp: group_ok_def intro: member_ok_wire)
  ultimately show ?case by (simp add: group_ok_def with_member_def)
next
  case (delivered S j c i ob out c')
  then show ?case using member_ok_packet by (metis group_ok_def group_ok_with option.inject)
next
  case (synced S i c blob)
  then show ?case using member_ok_sync by (metis group_ok_def group_ok_with option.inject)
next
  case (gone S i)
  then show ?case by (intro group_ok_with) simp_all
qed

lemma started_group_ok: "group_start S \<Longrightarrow> group_ok E S"
  by (auto simp: group_start_def group_ok_def intro: fresh_member_ok)

lemma run_group_ok: "(group_step E)\<^sup>*\<^sup>* S S' \<Longrightarrow> group_ok E S \<Longrightarrow> group_ok E S'"
  by (induction rule: rtranclp_induct) (auto dest: group_ok_step)

text \<open>
  The members of a group are reachable conversations, so what is shown of those (their phases,
  components and addressing) holds of every member.
\<close>

lemma members_stay_reachable:
  assumes "(group_step E)\<^sup>*\<^sup>* S S'" and "\<And>i c. gr_members S i = Some c \<Longrightarrow> conv_reachable (E i) c"
  shows "gr_members S' i = Some c \<Longrightarrow> conv_reachable (E i) c"
  using assms(1)
proof (induction arbitrary: i c rule: rtranclp_induct)
  case (step S' S'')
  note member = step.IH
  from step(2) have "(\<And>i c. gr_members S' i = Some c \<Longrightarrow> conv_reachable (E i) c) \<Longrightarrow>
      gr_members S'' i = Some c \<Longrightarrow> conv_reachable (E i) c"
  proof (induction rule: group_step.induct)
    case (acted S k d d')
    then show ?case by (auto simp: with_member_def split: if_splits intro: conv_reachable.stepped conv_step.called)
  next
    case (sent S k d obs d')
    then show ?case using conv_call.outbound_drained [of "E k" d]
      by (auto simp: with_member_def split: if_splits intro: conv_reachable.stepped conv_step.called)
  next
    case (delivered S k d l ob out d')
    then show ?case by (auto simp: with_member_def split: if_splits intro: conv_reachable.stepped conv_step.inbound)
  next
    case (synced S k d blob)
    then show ?case by (auto simp: with_member_def split: if_splits intro: conv_reachable.stepped conv_step.welcome_synced)
  qed (auto simp: with_member_def split: if_splits intro: conv_reachable.created conv_reachable.joined)
  with member step.prems show ?case by blast
qed (rule assms(2))

end
