(* ===== verification/Group_Safety.thy ===== *)
theory Group_Safety
  imports Group_Run
begin

text \<open>
  What a member of a group merges. A round merges its own candidate or one of the buffer; the
  buffer holds what was sent; and the check before the merge asks who committed what. Together:
  no commit enters a conversation that another member has not sent to it.
\<close>

section \<open>What a round merges\<close>

lemma dropped_queues:
  assumes "all_dropped x om svc ctx cs st ps st'"
  shows "fst st' = fst st"
proof -
  from assms have "\<forall>c\<in>set cs. \<not> bc_is_local_candidate c"
    by (induction rule: all_dropped.induct)
       (auto simp: apply_candidate_def apply_local_candidate_def try_then_eq_Inr Let_def split_beta)
  with assms show ?thesis by (rule all_dropped_queues)
qed

lemma round_winner:
  fixes om :: "('g, 'o) openmls"
  assumes "finalize_commit_round x om svc recovery subset_ok self (q, mls) = (Inr res, st')"
    and "crr_outcome res \<noteq> NoCandidate"
  obtains b committer ctx q' mls' where "b \<in> set (cb_candidates (q_commit_round q))"
    and "apply_candidate x om svc ctx b (q', mls') =
      (Inr (Terminal (crr_outcome res) committer (crr_committed_batch res)), st')"
    and "rc_in_recovery ctx = recovery" and "q_approved_proposals q' = q_approved_proposals q"
proof -
  define e where "e = mls_epoch om mls"
  define taken where "taken = buffer_take e (q_commit_round q)"
  define q' where "q' = q\<lparr>q_commit_round := snd taken\<rparr>"
  define ctx where "ctx = round_snapshot om q' mls svc e recovery self"
  define sorted where "sorted = rank_applicable_candidates (fst taken) ctx subset_ok"
  have none: "discard_and_finish om ops s \<noteq> (Inr res, s')" for ops s s'
    using assms(2) by (auto simp: discard_and_finish_def try_then_eq_Inr)
  have run: "apply_in_priority_order x om svc ctx self sorted [] (q', mls) = (Inr res, st')"
    using assms none unfolding finalize_commit_round_def
    by (auto simp: Let_def split_beta e_def taken_def q'_def ctx_def sorted_def split: if_splits)
  obtain pre b post ps st1 committer where w: "sorted = pre @ b # post"
    "all_dropped x om svc ctx pre (q', mls) ps st1"
    "apply_candidate x om svc ctx b st1 =
       (Inr (Terminal (crr_outcome res) committer (crr_committed_batch res)), st')"
    using apply_in_priority_order_split [OF run] none by blast
  have "b \<in> set (fst taken)"
    using w(1) ranked_subset [of "fst taken" ctx subset_ok] by (auto simp: sorted_def)
  then have "b \<in> set (cb_candidates (q_commit_round q))"
    by (auto simp: taken_def buffer_take_def split: if_splits)
  moreover have "st1 = (q', snd st1)" using dropped_queues [OF w(2)] by (metis fst_conv prod.collapse)
  then have "apply_candidate x om svc ctx b (q', snd st1) =
      (Inr (Terminal (crr_outcome res) committer (crr_committed_batch res)), st')" using w(3) by simp
  moreover have "rc_in_recovery ctx = recovery" "q_approved_proposals q' = q_approved_proposals q"
    by (simp_all add: ctx_def round_snapshot_def q'_def)
  ultimately show ?thesis by (rule that)
qed

lemma selection_start_candidates:
  "remote_candidates (cn_queues (selection_start E c)) \<subseteq> remote_candidates (cn_queues c)"
proof -
  have "candidates_within (remote_candidates (cn_queues c)) (selection_start E c)"
    by (simp add: selection_start_def Let_def candidates_within_def [of _ c])
  then show ?thesis by (simp add: candidates_within_def)
qed

lemma ticked_candidates:
  assumes "tick_deadlines E c = Some c1"
  shows "remote_candidates (cn_queues c1) \<subseteq> remote_candidates (cn_queues c)"
proof -
  have "candidates_within (remote_candidates (cn_queues c)) (fire_deadlines E c)"
    by (rule heard.inv_fire_deadlines) (simp add: candidates_within_def)
  then show ?thesis
    using heard.inv_drain assms by (fastforce simp: tick_deadlines_def candidates_within_def)
qed

text \<open>
  A candidate the member may merge: its committer, as MLS authenticated it, is a steward (unless
  recovery is open or there is no list yet) and its changes are exactly the approved ones.
\<close>

definition rightful_commit ::
  "('g, 'o, 'c, 's) environment \<Rightarrow> ('g, 'o, 'c, 's) conversation \<Rightarrow> commit_candidate \<Rightarrow> bool" where
  "rightful_commit E d cand \<longleftrightarrow>
     (is_in_recovery_mode d \<or> svc_list (cn_stewards d) = None \<or>
       svc_is_steward (cn_stewards d) (cc_steward_member_id cand)) \<and>
     (\<exists>self_removed actions mls mls'.
        stage_remote_commit (env_om E) (cc_mls_proposals cand) (cc_commit_message cand) mls =
          (Inr (Staged (cc_steward_member_id cand) self_removed actions), mls') \<and>
        set (map action_projection_from_mls actions) =
          set (List.map_filter (action_projection_from_request (env_x E))
            (imap_values (q_approved_proposals (cn_queues d)))))"

text \<open>The candidate a round has merged: it was in the buffer and the round ends as it does.\<close>

definition round_merged ::
  "('g, 'o, 'c, 's) environment \<Rightarrow> ('g, 'o, 'c, 's) conversation \<Rightarrow> buffered_commit_candidate \<Rightarrow>
   commit_round_result \<Rightarrow> ('g, 'o, 'c, 's) conversation \<Rightarrow> bool" where
  "round_merged E d b res d' \<longleftrightarrow>
     b \<in> set (cb_candidates (q_commit_round (cn_queues d))) \<and>
     (\<exists>ctx st committer. apply_candidate (env_x E) (env_om E) (cn_stewards d) ctx b st =
        (Inr (Terminal (crr_outcome res) committer (crr_committed_batch res)), cn_queues d', cn_mls d'))"

lemma round_merges:
  assumes "conv_finalize_commit_round E subset_ok self d = (Inr res, d')" and "crr_outcome res \<noteq> NoCandidate"
  obtains b where "round_merged E d b res d'"
    and "bc_is_local_candidate b \<or> rightful_commit E d (bc_candidate_msg b)"
proof -
  let ?round = "finalize_commit_round (env_x E) (env_om E) (cn_stewards d) (is_in_recovery_mode d)
      subset_ok self (cn_queues d, cn_mls d)"
  have "(fst ?round, d\<lparr>cn_queues := fst (snd ?round), cn_mls := snd (snd ?round)\<rparr>) = (Inr res, d')"
    using assms(1) by (simp add: conv_finalize_commit_round_def on_round_def split_beta)
  then have "fst ?round = Inr res" "snd ?round = (cn_queues d', cn_mls d')" by auto
  then have round: "?round = (Inr res, cn_queues d', cn_mls d')" by (metis prod.collapse)
  obtain b committer ctx q' mls' where b: "b \<in> set (cb_candidates (q_commit_round (cn_queues d)))"
    and won: "apply_candidate (env_x E) (env_om E) (cn_stewards d) ctx b (q', mls') =
      (Inr (Terminal (crr_outcome res) committer (crr_committed_batch res)), cn_queues d', cn_mls d')"
    and ctx: "rc_in_recovery ctx = is_in_recovery_mode d"
    and approved: "q_approved_proposals q' = q_approved_proposals (cn_queues d)"
    by (rule round_winner [OF round assms(2)])
  have "rightful_commit E d (bc_candidate_msg b)" if "\<not> bc_is_local_candidate b"
  proof -
    have "apply_incoming_candidate (env_x E) (env_om E) (cn_stewards d) b ctx (q', mls') =
      (Inr (Terminal (crr_outcome res) committer (crr_committed_batch res)), cn_queues d', cn_mls d')"
      using won that by (simp add: apply_candidate_def)
    from authorized_merge [OF this] ctx approved show ?thesis by (auto simp: rightful_commit_def)
  qed
  moreover have "round_merged E d b res d'" using b won by (auto simp: round_merged_def)
  ultimately show ?thesis using that by blast
qed

text \<open>
  C5. Nothing is merged that was not sent: however the members of a group act and whatever the
  transport loses, repeats or delays, the candidate that a member merges in a round is its own, or
  it was broadcast to this conversation by another member; it then carries the changes that were
  approved, and no others, and its committer, as MLS authenticated it, is the steward it names.
\<close>

theorem merged_commits_were_sent:
  fixes E :: "'i \<Rightarrow> ('g, 'o, 'c, 's) environment"
  assumes "(group_step E)\<^sup>*\<^sup>* S\<^sub>0 S" and "group_start S\<^sub>0" and "gr_members S j = Some c"
    and "tick_deadlines (E j) c = Some c1"
  defines "d \<equiv> selection_start (E j) c1"
  assumes "conv_finalize_commit_round (E j) subset_ok (cn_self_member_id d) d = (Inr res, d')"
    and "crr_outcome res \<noteq> NoCandidate"
  shows "\<exists>b. round_merged (E j) d b res d' \<and>
    (bc_is_local_candidate b \<or>
     rightful_commit (E j) d (bc_candidate_msg b) \<and>
     (\<exists>i ob. (i, ob) \<in> gr_wire S \<and> i \<noteq> j \<and> ob_conversation_id ob = cn_id c \<and>
        x_decode_app (env_x (E j)) (ob_payload ob) = Inr (Some (CommitCandidatePayload (bc_candidate_msg b)))))"
proof -
  obtain b where b: "round_merged (E j) d b res d'"
    "bc_is_local_candidate b \<or> rightful_commit (E j) d (bc_candidate_msg b)"
    by (rule round_merges [OF assms(6,7)])
  have "bc_candidate_msg b \<in> sent_by_others E (gr_wire S) j c" if "\<not> bc_is_local_candidate b"
  proof -
    have "bc_candidate_msg b \<in> remote_candidates (cn_queues d)"
      using b(1) that by (auto simp: round_merged_def remote_candidates_def)
    then have "bc_candidate_msg b \<in> remote_candidates (cn_queues c)"
      using selection_start_candidates ticked_candidates [OF assms(4)] unfolding d_def by blast
    then show ?thesis
      using run_group_ok [OF assms(1) started_group_ok [OF assms(2)]] assms(3)
      by (auto simp: group_ok_def member_ok_def)
  qed
  then show ?thesis using b by (fastforce simp: sent_by_others_def candidates_in_def)
qed

text \<open>A group of two: the steward has a candidate waiting to be sent, the other member is in the freeze.\<close>

definition relay_env ::
  "(demo_group, demo_object, demo_engine_state, in_memory_peer_score_storage) environment" where
  "relay_env = demo_env\<lparr>env_x := demo_codec\<lparr>x_decode_app := (\<lambda>b.
     if b = [7] then Inr (Some (CommitCandidatePayload (demo_removal_candidate 1 [3]))) else Inl ''app'')\<rparr>\<rparr>"

definition demo_sender ::
  "(demo_group, demo_object, demo_engine_state, in_memory_peer_score_storage) conversation" where
  "demo_sender = demo_conversation\<lparr>cn_app_id := [8],
     cn_outbound := [\<lparr>ob_conversation_id = ''c'', ob_sender = [8], ob_payload = [7]\<rparr>]\<rparr>"

definition demo_listener ::
  "(demo_group, demo_object, demo_engine_state, in_memory_peer_score_storage) conversation" where
  "demo_listener = demo_frozen\<lparr>cn_now := 5, cn_queues := demo_queues\<rparr>"

definition demo_pair ::
  "(nat, demo_group, demo_object, demo_engine_state, in_memory_peer_score_storage) messaging_group" where
  "demo_pair = \<lparr>gr_members = [0 \<mapsto> demo_listener, 1 \<mapsto> demo_sender], gr_wire = {}\<rparr>"

definition demo_reached ::
  "(demo_group, demo_object, demo_engine_state, in_memory_peer_score_storage) conversation" where
  "demo_reached = snd (process_inbound relay_env [8] [7] demo_listener)"

lemma demo_delivery: "fst (process_inbound relay_env [8] [7] demo_listener) = Inr Done"
  by code_simp

lemma demo_ticked: "tick_deadlines relay_env demo_reached = Some demo_reached"
proof -
  have idle: "tm_pending_auto_votes (cn_timing demo_reached) = []"
    "tm_pending_consensus_timeouts (cn_timing demo_reached) = []" "cn_outcomes demo_reached = []"
    by code_simp+
  then have "fire_deadlines relay_env demo_reached = demo_reached"
    by (cases "cn_timing demo_reached") (simp add: fire_deadlines_def due_auto_votes_def due_timeouts_def on_timing_def)
  then show ?thesis
    using idle(3) by (simp add: tick_deadlines_def outcome_try_recv_def drain_outcomes.simps)
qed

lemma demo_sent: "group_step (\<lambda>_. relay_env) demo_pair
    \<lparr>gr_members = [0 \<mapsto> demo_listener, 1 \<mapsto> demo_sender\<lparr>cn_outbound := []\<rparr>],
     gr_wire = {(1, \<lparr>ob_conversation_id = ''c'', ob_sender = [8], ob_payload = [7]\<rparr>)}\<rparr>"
  using group_step.sent [of demo_pair 1 demo_sender _ _ "\<lambda>_. relay_env"]
  by (auto simp: demo_pair_def drain_outbound_def with_member_def demo_sender_def fun_upd_twist)

lemma demo_merges: "case fst (conv_finalize_commit_round relay_env False (member_id_of 0) (selection_start relay_env demo_reached))
  of Inr res \<Rightarrow> crr_outcome res = Applied ConversationUpdated None | Inl _ \<Rightarrow> False"
  by code_simp


lemma demo_exchange:
  "\<exists>S. (group_step (\<lambda>_. relay_env))\<^sup>*\<^sup>* demo_pair S \<and> gr_members S 0 = Some demo_reached"
proof -
  let ?S = "\<lparr>gr_members = [0 \<mapsto> demo_listener, 1 \<mapsto> demo_sender\<lparr>cn_outbound := []\<rparr>],
     gr_wire = {(1 :: nat, \<lparr>ob_conversation_id = ''c'', ob_sender = [8], ob_payload = [7]\<rparr>)}\<rparr>"
  have "cn_id demo_listener = ''c''" by code_simp
  moreover have "process_inbound relay_env [8] [7] demo_listener = (Inr Done, demo_reached)"
    using demo_delivery by (simp add: demo_reached_def prod_eq_iff)
  ultimately have "group_step (\<lambda>_. relay_env) ?S (with_member ?S 0 (Some demo_reached))"
    using group_step.delivered [of ?S 0 demo_listener 1
        "\<lparr>ob_conversation_id = ''c'', ob_sender = [8], ob_payload = [7]\<rparr>" "\<lambda>_. relay_env" "Inr Done" demo_reached]
    by simp
  then have "(group_step (\<lambda>_. relay_env))\<^sup>*\<^sup>* demo_pair (with_member ?S 0 (Some demo_reached))"
    using demo_sent by (meson converse_rtranclp_into_rtranclp r_into_rtranclp)
  moreover have "gr_members (with_member ?S 0 (Some demo_reached)) 0 = Some demo_reached"
    by (simp add: with_member_def)
  ultimately show ?thesis by blast
qed

lemma demo_pair_start: "group_start demo_pair"
proof -
  have "remote_candidates (cn_queues demo_listener) = {}" "remote_candidates (cn_queues demo_sender) = {}"
    "well_addressed demo_listener" "well_addressed demo_sender"
    by (simp_all add: remote_candidates_def addressing_def demo_listener_def demo_sender_def demo_queues_def
        demo_frozen_def demo_conversation_def conversation_new_def queues_new_def insert_approved_proposal_def
        commit_round_buffer_default_def start_freezing_def sm_start_freezing_def on_phase_timer_def on_timing_def)
  then show ?thesis by (simp add: group_start_def demo_pair_def)
qed

theorem merged_commits_were_sent_witness:
  "\<exists>S (i :: nat) ob cand. (group_step (\<lambda>_. relay_env))\<^sup>*\<^sup>* demo_pair S \<and> (i, ob) \<in> gr_wire S \<and> i \<noteq> 0 \<and>
     x_decode_app (env_x relay_env) (ob_payload ob) = Inr (Some (CommitCandidatePayload cand)) \<and>
     rightful_commit relay_env (selection_start relay_env demo_reached) cand"
proof -
  let ?d = "selection_start relay_env demo_reached"
  obtain S where S: "(group_step (\<lambda>_. relay_env))\<^sup>*\<^sup>* demo_pair S" "gr_members S 0 = Some demo_reached"
    using demo_exchange by blast
  have self: "cn_self_member_id ?d = member_id_of 0" by code_simp
  obtain res d' where round: "conv_finalize_commit_round relay_env False (cn_self_member_id ?d) ?d = (Inr res, d')"
    "crr_outcome res \<noteq> NoCandidate"
    using demo_merges unfolding self
    by (cases "conv_finalize_commit_round relay_env False (member_id_of 0) ?d") (auto split: sum.splits)
  have "list_all (\<lambda>b. \<not> bc_is_local_candidate b) (cb_candidates (q_commit_round (cn_queues ?d)))" by code_simp
  then have remote: "\<not> bc_is_local_candidate b" if "round_merged relay_env ?d b res d'" for b
    using that by (auto simp: round_merged_def list_all_iff)
  obtain b where b: "round_merged relay_env ?d b res d'" and sent: "bc_is_local_candidate b \<or>
      rightful_commit relay_env ?d (bc_candidate_msg b) \<and> (\<exists>i ob. (i, ob) \<in> gr_wire S \<and> i \<noteq> 0 \<and>
        ob_conversation_id ob = cn_id demo_reached \<and>
        x_decode_app (env_x relay_env) (ob_payload ob) = Inr (Some (CommitCandidatePayload (bc_candidate_msg b))))"
    using merged_commits_were_sent [OF S(1) demo_pair_start S(2) demo_ticked round] by blast
  then obtain i ob where "(i, ob) \<in> gr_wire S" "i \<noteq> 0"
    "x_decode_app (env_x relay_env) (ob_payload ob) = Inr (Some (CommitCandidatePayload (bc_candidate_msg b)))"
    "rightful_commit relay_env ?d (bc_candidate_msg b)"
    using remote [OF b] by blast
  with S(1) show ?thesis by blast
qed

end
