(* ===== verification/Boundaries.thy ===== *)
theory Boundaries
  imports Draining
begin

text \<open>
  Inputs at the edge of what the components agree on: the one-voter fast path, an emergency
  without evidence, a batch that does not fit one commit, and a commit of a part of the batch.
\<close>

section \<open>The one-voter fast path\<close>

lemma classify_proposal:
  assumes "classify_app_message x om mls member m = ProposalResult p"
  shows "authorize_fast_path_proposal x p (member_id_of (mbr_index member))"
  using assms
  by (auto simp: classify_app_message_def split: option.splits app_payload.splits if_splits)

lemma decode_proposal:
  assumes "decode_inbound_payload x om payload (q, mls) = (Inr (ProposalResult p), st)"
  obtains dm mls' where "decrypt_application_only om payload mls = (Inr (Some dm), mls')"
    and "authorize_fast_path_proposal x p (member_id_of (mbr_index (dm_member dm)))"
proof -
  have "decode_encrypted_payload x om payload (q, mls) = (Inr (ProposalResult p), st)"
    using assms
    by (auto simp: decode_inbound_payload_def split: sum.splits option.splits app_payload.splits
        if_splits prod.splits bool.splits dest: receive_candidate_result)
  then obtain d st1 where dec: "on_mls (decrypt_application_only om payload) (q, mls) = (Inr d, st1)"
    and rest: "(case d of None \<Rightarrow> (Inr (Noop DecryptIgnored), st1)
        | Some dm \<Rightarrow> (case x_decode_app x (dm_payload dm) of
              Inl e \<Rightarrow> (Inl (Message e), st1)
            | Inr m \<Rightarrow> (Inr (classify_app_message x om (snd st1) (dm_member dm) m), st1)))
          = (Inr (ProposalResult p), st)"
    by (auto simp: decode_encrypted_payload_def try_then_eq_Inr)
  then obtain dm where dm: "d = Some dm" by (cases d) auto
  then have "authorize_fast_path_proposal x p (member_id_of (mbr_index (dm_member dm)))"
    using rest by (auto split: sum.split_asm intro: classify_proposal)
  moreover obtain mls' where "decrypt_application_only om payload mls = (Inr (Some dm), mls')"
    using dec dm by (auto simp: on_mls_def split: prod.splits sum.splits)
  ultimately show thesis using that by blast
qed

text \<open>
  C13. Nobody removes another member without a vote: a proposal with a single expected voter,
  which its own yes vote resolves on arrival, only leaves decoding when it asks for the removal
  of its owner, and the owner is the member MLS authenticated as the sender of the packet.
\<close>

theorem fast_path_removes_only_the_sender:
  assumes "decode_inbound E payload c = (Inr (ProposalResult p), c')"
    and "cp_expected_voters_count p = 1"
  shows "\<exists>dm mls'. decrypt_application_only (env_om E) payload (cn_mls c) = (Inr (Some dm), mls') \<and>
    cp_proposal_owner p = member_id_of (mbr_index (dm_member dm)) \<and>
    x_decode_request (env_x E) (cp_payload p) = Inr (Some (RemoveMember (cp_proposal_owner p)))"
proof -
  obtain st where "decode_inbound_payload (env_x E) (env_om E) payload (cn_queues c, cn_mls c) =
      (Inr (ProposalResult p), st)"
    using assms(1) by (auto simp: decode_inbound_def on_round_def split: prod.splits)
  then obtain dm mls' where "decrypt_application_only (env_om E) payload (cn_mls c) = (Inr (Some dm), mls')"
    and "authorize_fast_path_proposal (env_x E) p (member_id_of (mbr_index (dm_member dm)))"
    by (rule decode_proposal)
  with assms(2) show ?thesis
    by (auto simp: authorize_fast_path_proposal_def split: if_splits sum.splits option.splits
        request_payload.splits)
qed

theorem fast_path_removes_only_the_sender_witness:
  "\<exists>dm mls'. decrypt_application_only demo_mls [3, 1, 5, 1] demo_service = (Inr (Some dm), mls') \<and>
     mbr_index (dm_member dm) = 1"
proof -
  let ?p = "demo_proposal 1 (1 # member_id_of 1) (member_id_of 1) 1"
  have "fst (decode_inbound demo_env [3, 1, 5, 1] demo_conversation) = Inr (ProposalResult ?p)"
    by code_simp
  then have "decode_inbound demo_env [3, 1, 5, 1] demo_conversation =
      (Inr (ProposalResult ?p), snd (decode_inbound demo_env [3, 1, 5, 1] demo_conversation))"
    by (metis prod.collapse)
  moreover have "cp_expected_voters_count ?p = 1" by (simp add: demo_proposal_def)
  ultimately obtain dm mls' where "decrypt_application_only (env_om demo_env) [3, 1, 5, 1]
      (cn_mls demo_conversation) = (Inr (Some dm), mls')"
    and "cp_proposal_owner ?p = member_id_of (mbr_index (dm_member dm))"
    using fast_path_removes_only_the_sender by blast
  moreover from this(2) have "mbr_index (dm_member dm) = 1"
    using inj_u32_to_be_bytes by (simp add: demo_proposal_def member_id_of_def inj_eq)
  moreover have "env_om demo_env = demo_mls" "cn_mls demo_conversation = demo_service"
    by (simp_all add: demo_env_def demo_conversation_def conversation_new_def)
  ultimately show ?thesis by auto
qed

section \<open>An emergency without evidence\<close>

lemma receive_keeps_emergencies:
  "q_active_emergency_ids (snd (receive_commit_candidate x om mls cand q)) = q_active_emergency_ids q"
  by (auto simp: receive_commit_candidate_def stash_early_candidate_def Let_def split: prod.splits)

lemma replay_keeps_emergencies:
  "q_active_emergency_ids (snd (replay_early_candidates x om mls q)) = q_active_emergency_ids q"
proof -
  have step: "q_active_emergency_ids (snd (try_then (receive_commit_candidate x om mls k s) (\<lambda>_ s'. (Inr (), s'))))
      = q_active_emergency_ids s" for k s
    using receive_keeps_emergencies [of x om mls k s]
    by (cases "receive_commit_candidate x om mls k s"; cases "fst (receive_commit_candidate x om mls k s)") auto
  have "q_active_emergency_ids (snd (try_fold (\<lambda>k s. try_then (receive_commit_candidate x om mls k s)
      (\<lambda>_ s'. (Inr (), s'))) ks s)) = q_active_emergency_ids s" for ks s
    using try_fold_invariant [where P = "\<lambda>t. q_active_emergency_ids t = q_active_emergency_ids s"] step
    by (metis (no_types, lifting))
  then show ?thesis
    by (simp add: replay_early_candidates_def take_early_candidates_def Let_def)
qed

lemma engine_keeps_queues: "cn_queues (snd (on_engine fe d)) = cn_queues d"
  by (simp add: on_engine_def outcome_publish_def split: prod.splits)

lemma apply_evidence_less:
  "apply_consensus_result x pid approved (Some (EmergencyCriteria None)) q =
     (Inr NoAction, if approved then insert_approved_proposal pid (Some (EmergencyCriteria None))
                                      (remove_voting_proposal pid q)
                    else remove_voting_proposal pid q)"
  by (simp add: apply_consensus_result_def pending_removal_target_def duplicate_invite_def Let_def)

text \<open>
  C22. An emergency without evidence is never closed: the outcome of its vote, accepted or not,
  is marked as handled, yet its id stays among the active emergencies, so the partial freeze it
  opened keeps blocking every ordinary and election proposal.
\<close>

theorem evidence_less_emergency_sticks:
  assumes "ce_get_proposal (env_ce E) (cn_consensus c) (cn_id c) pid = Inr p"
    and "x_decode_request (env_x E) (cp_payload p) = Inr (Some (EmergencyCriteria None))"
    and "event_outcome event = (pid, approved, ts)"
    and "pid \<in> q_active_emergency_ids (cn_queues c)"
  defines "c' \<equiv> snd (handle_consensus_outcome E event c)"
  shows "pid \<in> q_active_emergency_ids (cn_queues c') \<and>
    (kind < EmergencyKind \<longrightarrow> partial_freeze_blocks (cn_queues c') kind)"
proof -
  let ?ids = "\<lambda>d. q_active_emergency_ids (cn_queues d)"
  have base: "?ids (unregister_consensus_timeout p' (cancel_auto_vote p' c)) = ?ids c"
    "cn_consensus (unregister_consensus_timeout p' (cancel_auto_vote p' c)) = cn_consensus c"
    "cn_id (unregister_consensus_timeout p' (cancel_auto_vote p' c)) = cn_id c" for p'
    by (simp_all add: unregister_consensus_timeout_def cancel_auto_vote_def on_timing_def)
  have replay: "?ids (snd (conv_replay_early_candidates E d)) = ?ids d" for d
    using replay_keeps_emergencies [of "env_x E" "env_om E" "cn_mls d" "cn_queues d"]
    by (simp add: conv_replay_early_candidates_def split_beta)
  have rest: "?ids (snd (try_then (conv_replay_early_candidates E d) (\<lambda>_ c6.
      try_then (follow_up E NoAction c6) (\<lambda>_ c7. try_then (Inr (), c7) (\<lambda>_ c8.
        on_engine (ce_remove_session (env_ce E) (cn_id c8) pid) c8))))) = ?ids d" for d
    using replay [of d]
    by (cases "conv_replay_early_candidates E d"; cases "fst (conv_replay_early_candidates E d)")
       (auto simp: engine_keeps_queues)
  have "?ids c' = ?ids c"
    using assms(1-3) base rest unfolding c'_def handle_consensus_outcome_def
    by (simp add: Let_def apply_evidence_less emergency_score_ops_def emit_event_def on_queues_def
        mark_consensus_outcome_applied_def insert_approved_proposal_def remove_voting_proposal_def)
  with assms(4) show ?thesis by (auto simp: partial_freeze_blocks_def has_active_emergency_def)
qed

definition demo_emergency ::
  "(demo_group, demo_object, demo_engine_state, in_memory_peer_score_storage) conversation" where
  "demo_emergency = demo_conversation\<lparr>cn_queues := insert_emergency 1 (queues_new ''c'' 4),
     cn_consensus := \<lparr>de_sessions = [demo_proposal 1 [2] (member_id_of 2) 4], de_next = 2\<rparr>\<rparr>"

theorem evidence_less_emergency_sticks_witness:
  "partial_freeze_blocks (cn_queues
     (snd (handle_consensus_outcome demo_env (ConsensusReached 1 True 0) demo_emergency))) CommitKind"
proof -
  have "ce_get_proposal (env_ce demo_env) (cn_consensus demo_emergency) (cn_id demo_emergency) 1 =
      Inr (demo_proposal 1 [2] (member_id_of 2) 4)"
    by (simp add: demo_env_def demo_emergency_def demo_engine_def demo_session_def demo_proposal_def)
  moreover have "x_decode_request (env_x demo_env) (cp_payload (demo_proposal 1 [2] (member_id_of 2) 4)) =
      Inr (Some (EmergencyCriteria None))"
    by (simp add: demo_env_def demo_codec_def demo_proposal_def)
  moreover have "event_outcome (ConsensusReached 1 True 0) = (1, True, 0)" by simp
  moreover have "1 \<in> q_active_emergency_ids (cn_queues demo_emergency)"
    by (simp add: demo_emergency_def insert_emergency_def)
  ultimately have "CommitKind < EmergencyKind \<longrightarrow> partial_freeze_blocks (cn_queues
      (snd (handle_consensus_outcome demo_env (ConsensusReached 1 True 0) demo_emergency))) CommitKind"
    by (rule evidence_less_emergency_sticks [THEN conjunct2])
  moreover have "CommitKind < EmergencyKind" by (simp add: less_proposal_kind_def)
  ultimately show ?thesis by blast
qed

section \<open>A batch that does not fit one commit\<close>

text \<open>The approved changes a candidate may carry: an urgent target leaves out all others.\<close>

definition within_urgency :: "bytes option \<Rightarrow> conversation_update_request \<Rightarrow> bool" where
  "within_urgency urgent r = (case urgent of Some t \<Rightarrow> removes_member r t | None \<Rightarrow> True)"

lemma within_urgency_simps [simp]:
  "within_urgency None = (\<lambda>r. True)" "within_urgency (Some t) = (\<lambda>r. removes_member r t)"
  by (simp_all add: within_urgency_def fun_eq_iff)

lemma collect_updates_length:
  "collect_updates x keys members urgent rs us js = Inr (us', js') \<Longrightarrow>
     length us' \<le> length us + length (filter (within_urgency urgent) rs)"
proof (induction rs arbitrary: us js)
  case (Cons r rs)
  have skip: "length us' \<le> length us + length (filter (within_urgency urgent) (r # rs))"
    if "collect_updates x keys members urgent rs us js = Inr (us', js')" for js
    using Cons.IH [OF that] by simp
  have take: "length us' \<le> length us + length (filter (within_urgency urgent) (r # rs))"
    if "collect_updates x keys members urgent rs (us @ [u]) js = Inr (us', js')" "within_urgency urgent r" for u js
    using Cons.IH [OF that(1)] that(2) by simp
  show ?case
  proof (cases r rule: removal_of.cases)
    case (1 m)
    then show ?thesis
      using Cons.prems skip take by (cases urgent) (auto split: if_splits)
  qed (use Cons.prems skip take in \<open>(cases urgent; auto split: if_splits sum.splits)+\<close>)
qed simp

lemma propose_updates_length:
  "propose_updates x om us ps mls = (Inr ps', mls') \<Longrightarrow> length ps' \<le> length ps + length us"
proof (induction us arbitrary: ps mls)
  case (Cons u us)
  show ?case
  proof (cases u)
    case (AddInput kp)
    then show ?thesis using Cons
      by (fastforce simp: try_then_eq_Inr split: sum.split_asm)
  next
    case (RemoveInput m)
    then show ?thesis using Cons
      by (fastforce simp: try_then_eq_Inr split: option.split_asm if_splits)
  qed
qed simp

lemma commit_proposals_length:
  "create_commit_candidate x om us mls = (Inr a, mls') \<Longrightarrow> length (ca_proposals a) \<le> length us"
  by (auto simp: create_commit_candidate_def try_then_eq_Inr dest!: propose_updates_length)

text \<open>
  C21. A batch that does not fit one commit cannot be committed by a round that requires the whole
  batch (one outside recovery, unless the group's configuration allows subset candidates): when the
  batch size or an urgent target leaves an approved membership change out of the candidate a
  steward builds, the candidate carries fewer proposals than every such round requires, so no peer
  ranks it there, whoever holds it.
\<close>

theorem oversized_batch_is_never_applicable:
  assumes "build_local_candidate E self c = (Inr (Some payload), c')"
    and "length (filter (within_urgency (q_urgent_commit_target (cn_queues c)))
        (take (cfg_commit_batch_max (cn_config c)) (imap_values (q_approved_proposals (cn_queues c)))))
      < length (filter produces_mls_action (imap_values (q_approved_proposals (cn_queues c))))"
  shows "\<exists>cand. payload = x_encode_app (env_x E) (Some (CommitCandidatePayload cand)) \<and>
    (\<forall>b om mls svc epoch recovery member. bc_candidate_msg b = cand \<longrightarrow>
       \<not> candidate_applicable (round_snapshot om (cn_queues c) mls svc epoch recovery member) False b)"
proof -
  let ?batch = "map snd (take (cfg_commit_batch_max (cn_config c)) (q_approved_proposals (cn_queues c)))"
  obtain updates joiners artifacts c1 cand where
    collected: "collect_updates (env_x E) (map mbr_signature_key (om_members (env_om E) (ms_group (cn_mls c))))
        (conv_members E c) (q_urgent_commit_target (cn_queues c)) ?batch [] [] = Inr (updates, joiners)"
    and minted: "on_service (create_commit_candidate (env_x E) (env_om E) updates) c = (Inr artifacts, c1)"
    and payload: "payload = x_encode_app (env_x E) (Some (CommitCandidatePayload cand))"
    and cand: "cc_mls_proposals cand = ca_proposals artifacts"
    using assms(1) unfolding build_local_candidate_def Let_def
    by (auto simp: try_then_eq_Inr split: if_split_asm sum.split_asm)
  have "length (ca_proposals artifacts) \<le> length updates"
    using minted by (auto simp: on_service_def split: prod.splits sum.splits dest: commit_proposals_length)
  also have "\<dots> \<le> length (filter (within_urgency (q_urgent_commit_target (cn_queues c))) ?batch)"
    using collect_updates_length [OF collected] by simp
  also have "?batch = take (cfg_commit_batch_max (cn_config c)) (imap_values (q_approved_proposals (cn_queues c)))"
    by (simp add: imap_values_def take_map)
  finally have "length (cc_mls_proposals cand) <
      length (filter produces_mls_action (imap_values (q_approved_proposals (cn_queues c))))"
    using assms(2) cand by simp
  then show ?thesis using payload
    by (intro exI [of _ cand]) (auto simp: candidate_applicable_def round_snapshot_def)
qed

text \<open>Two removals approved under a batch size of one, the steward at leaf 1 about to commit.\<close>

definition demo_two_removals :: conversation_queues where
  "demo_two_removals = insert_approved_proposal 8 (Some (RemoveMember (member_id_of 2))) demo_queues"

definition demo_oversized ::
  "(demo_group, demo_object, demo_engine_state, in_memory_peer_score_storage) conversation" where
  "demo_oversized = demo_conversation\<lparr>cn_queues := demo_two_removals\<rparr>"

lemma demo_removal_commit:
  "create_commit_candidate demo_codec demo_mls [RemoveInput (member_id_of 3)] demo_service =
     (Inr \<lparr>ca_proposals = [[1, 0, 5, 3]], ca_commit = [2, 0, 5, 0], ca_welcome = None\<rparr>,
      demo_service\<lparr>ms_group := (ms_group demo_service)\<lparr>dg_pending := [3], dg_commit := Some [3]\<rparr>\<rparr>)"
proof -
  have leaf: "mbr_index (demo_member i) = i" for i by (simp add: demo_member_def)
  have "propose_updates demo_codec demo_mls [RemoveInput (member_id_of 3)] [] demo_service =
      (Inr [[1, 0, 5, 3]], demo_service\<lparr>ms_group := (ms_group demo_service)\<lparr>dg_pending := [3]\<rparr>\<rparr>)"
    by (simp add: demo_service_def demo_mls_def on_group_def leaf_index_of_def member_id_of_def
        map_error_def leaf)
  then show ?thesis
    by (simp add: create_commit_candidate_def)
       (simp add: demo_service_def demo_mls_def on_group_def map_error_def)
qed

lemma demo_oversized_builds:
  "\<exists>payload c'. build_local_candidate demo_env (member_id_of 1) demo_oversized = (Inr (Some payload), c')"
proof -
  have steward: "svc_is_steward (cn_stewards demo_oversized) (member_id_of 1)"
    and own: "\<not> has_approved_removal (cn_queues demo_oversized) (member_id_of 1)"
    by code_simp+
  have approved: "q_approved_proposals (cn_queues demo_oversized) =
      [(7, Some (RemoveMember (member_id_of 3))), (8, Some (RemoveMember (member_id_of 2)))]"
    by code_simp
  have collected: "collect_updates demo_codec
      (map mbr_signature_key (om_members (env_om demo_env) (ms_group (cn_mls demo_oversized))))
      (conv_members demo_env demo_oversized) (q_urgent_commit_target (cn_queues demo_oversized))
      (map snd (take 1 (q_approved_proposals (cn_queues demo_oversized)))) [] [] =
      Inr ([RemoveInput (member_id_of 3)], [])"
    by code_simp
  have parts: "cfg_commit_batch_max (cn_config demo_oversized) = 1" "env_x demo_env = demo_codec"
    "env_om demo_env = demo_mls" "cn_mls demo_oversized = demo_service"
    by (simp_all add: demo_oversized_def demo_conversation_def demo_config_def conversation_new_def
        demo_env_def)
  show ?thesis
    using steward own collected demo_removal_commit
    by (simp add: build_local_candidate_def Let_def approved parts is_governance_def
        is_mls_producing_def on_service_def)
qed

theorem oversized_batch_is_never_applicable_witness:
  "\<exists>payload c' cand. build_local_candidate demo_env (member_id_of 1) demo_oversized = (Inr (Some payload), c') \<and>
     payload = x_encode_app demo_codec (Some (CommitCandidatePayload cand)) \<and>
     \<not> candidate_applicable (round_snapshot demo_mls demo_two_removals demo_service demo_stewards 5 False
          (member_id_of 0)) False (demo_buffered cand)"
proof -
  let ?r = "build_local_candidate demo_env (member_id_of 1) demo_oversized"
  obtain payload c' where built: "?r = (Inr (Some payload), c')"
    using demo_oversized_builds by blast
  moreover have "length (filter (within_urgency (q_urgent_commit_target (cn_queues demo_oversized)))
        (take (cfg_commit_batch_max (cn_config demo_oversized))
          (imap_values (q_approved_proposals (cn_queues demo_oversized)))))
      < length (filter produces_mls_action (imap_values (q_approved_proposals (cn_queues demo_oversized))))"
    by code_simp
  ultimately obtain cand where "payload = x_encode_app (env_x demo_env) (Some (CommitCandidatePayload cand))"
    and "\<forall>b (om :: (demo_group, demo_object) openmls) mls svc epoch recovery member.
      bc_candidate_msg b = cand \<longrightarrow> \<not> candidate_applicable
      (round_snapshot om (cn_queues demo_oversized) mls svc epoch recovery member) False b"
    using oversized_batch_is_never_applicable by blast
  moreover have parts: "env_x demo_env = demo_codec" "cn_queues demo_oversized = demo_two_removals"
    "bc_candidate_msg (demo_buffered cand) = cand"
    by (simp_all add: demo_env_def demo_oversized_def demo_buffered_def)
  ultimately show ?thesis using built unfolding parts(1,2) by blast
qed

section \<open>A commit of a part of the batch\<close>

lemma partial_commit_rejected:
  assumes "stage_candidate om (bc_candidate_msg b) ctx mls = (Inr (StagedCandidate sender sr actions), mls1)"
    and "check_commit_sender_authorized svc sender ctx = None"
    and "length actions < card (set (List.map_filter (action_projection_from_request x)
           (imap_values (q_approved_proposals q))))"
  shows "apply_incoming_candidate x om svc b ctx (q, mls) =
    reject_staged om (Some \<lparr>op_member_id = sender, op_event = BrokenMlsProposal\<rparr>) (q, mls1)"
proof -
  have "card (set (map action_projection_from_mls actions)) \<le> length actions"
    using card_length [of "map action_projection_from_mls actions"] by simp
  then have "validate_commit_candidate x q sender actions ctx \<noteq> Inr None"
    using assms(3) unfolding validate_commit_candidate_iff by (metis not_le)
  moreover have "target_score_op (broken_mls_proposal sender e msg) =
      Some \<lparr>op_member_id = sender, op_event = BrokenMlsProposal\<rparr>" for e msg
    by (simp add: target_score_op_def target_score_event_def broken_mls_proposal_def
        violation_evidence_of_def violation_try_from_def)
  ultimately show ?thesis
    using assms(1,2) by (auto simp: apply_incoming_candidate_def validate_commit_candidate_def Let_def)
qed

text \<open>
  C20. A commit of a part of the batch splits the group. A ranking that allows subsets, as in
  recovery, passes a commit with fewer changes than were approved; its author then merges it
  without a check and forgets the whole batch (with an urgent target, the approved removals of that
  target and of the members that left), while every peer that receives the same commit rejects it as
  a broken proposal and penalises the author.
\<close>

theorem partial_commit_diverges:
  assumes "stage_candidate om (bc_candidate_msg b) ctx mls = (Inr (StagedCandidate sender sr actions), mls1)"
    and "check_commit_sender_authorized svc sender ctx = None"
    and "length actions < card (set (List.map_filter (action_projection_from_request x)
           (imap_values (q_approved_proposals q))))"
    and "merge_own_commit om own = (Inr delta, own')"
  shows "apply_incoming_candidate x om svc b ctx (q, mls) =
      reject_staged om (Some \<lparr>op_member_id = sender, op_event = BrokenMlsProposal\<rparr>) (q, mls1) \<and>
    (\<exists>outcome batch q'. apply_local_candidate om b ctx (q, own) =
       (Inr (Terminal outcome sender batch), (q', own')) \<and>
       q_approved_proposals q' = approvals_after_merge (q_urgent_commit_target q) delta (q_approved_proposals q))"
proof -
  let ?f = "finalize_committed_batch (bc_commit_hash b) (rc_current_epoch ctx + 1)
    (store_membership_delta delta q)"
  have "q_approved_proposals (snd ?f) =
      approvals_after_merge (q_urgent_commit_target q) delta (q_approved_proposals q)"
    by (rule merged_approvals(1))
  moreover have "cc_steward_member_id (bc_candidate_msg b) = sender"
    using stage_candidate_StagedD(2) [OF assms(1)] .
  ultimately show ?thesis
    using partial_commit_rejected [OF assms(1-3)] assms(4)
    by (auto simp: apply_local_candidate_def on_mls_def split_beta)
qed

theorem partial_commit_diverges_witness:
  "\<exists>outcome batch q' own' mls1.
     apply_incoming_candidate demo_externals demo_mls demo_stewards
         (demo_buffered (demo_removal_candidate 1 [3])) demo_context (demo_two_removals, demo_service) =
       reject_staged demo_mls (Some \<lparr>op_member_id = member_id_of 1, op_event = BrokenMlsProposal\<rparr>)
         (demo_two_removals, mls1) \<and>
     apply_local_candidate demo_mls (demo_buffered (demo_removal_candidate 1 [3])) demo_context
         (demo_two_removals, demo_service) = (Inr (Terminal outcome (member_id_of 1) batch), (q', own')) \<and>
     q_approved_proposals q' = []"
proof -
  let ?b = "demo_buffered (demo_removal_candidate 1 [3])"
  let ?st = "stage_candidate demo_mls (bc_candidate_msg ?b) demo_context demo_service"
  let ?own = "merge_own_commit demo_mls demo_service"
  have staged: "fst ?st = Inr (StagedCandidate (member_id_of 1) False [RemoveOutput (member_id_of 3)])"
    by code_simp
  have own: "fst ?own = Inr \<lparr>md_added = [], md_removed = []\<rparr>" by code_simp
  have voted: "List.map_filter (action_projection_from_request demo_externals)
      (imap_values (q_approved_proposals demo_two_removals)) =
      [(ActionRemove, member_id_of 3), (ActionRemove, member_id_of 2)]"
    by code_simp
  have auth: "check_commit_sender_authorized demo_stewards (member_id_of 1) demo_context = None"
    and urgent: "q_urgent_commit_target demo_two_removals = None"
    by code_simp+
  have forgotten: "approvals_after_merge (q_urgent_commit_target demo_two_removals) delta as = []" for delta as
    by (simp add: urgent approvals_after_merge_def)
  have "member_id_of 3 \<noteq> member_id_of 2" by code_simp
  then have card: "length [RemoveOutput (member_id_of 3)] < card (set (List.map_filter
      (action_projection_from_request demo_externals) (imap_values (q_approved_proposals demo_two_removals))))"
    unfolding voted by simp
  have "?st = (Inr (StagedCandidate (member_id_of 1) False [RemoveOutput (member_id_of 3)]), snd ?st)"
    "?own = (Inr \<lparr>md_added = [], md_removed = []\<rparr>, snd ?own)"
    using staged own by (metis prod.collapse)+
  from partial_commit_diverges [OF this(1) auth card this(2)] forgotten show ?thesis by metis
qed

end
