(* ===== verification/Agreement.thy ===== *)
theory Agreement
  imports Boundaries
begin

text \<open>
  Peers resolve the same proposals in different orders. This theory abstracts the approved queue
  to the membership actions it stands for, shows that applying an outcome refines the insertion
  of one action, and concludes that the order does not matter for what a valid commit is; and it
  shows that the candidate a steward builds from its queue is one its peers accept.
\<close>

section \<open>The approved actions\<close>

text \<open>
  The actions of the approved membership changes; an invite whose key package does not parse
  has no action and is kept as \<open>None\<close>.
\<close>

definition approved_actions ::
  "externals \<Rightarrow> conversation_queues \<Rightarrow> (action_kind \<times> bytes) option multiset" where
  "approved_actions x q =
     image_mset (action_projection_from_request x)
       (filter_mset produces_mls_action (mset (imap_values (q_approved_proposals q))))"

type_synonym outcome = "u32 \<times> bool \<times> conversation_update_request"

definition apply_outcome :: "externals \<Rightarrow> outcome \<Rightarrow> conversation_queues \<Rightarrow> conversation_queues" where
  "apply_outcome x = (\<lambda>(pid, approved, request) q. snd (apply_consensus_result x pid approved request q))"

text \<open>The action an outcome asks for: none unless accepted, a removal for a score emergency.\<close>

fun voted_action :: "externals \<Rightarrow> outcome \<Rightarrow> (action_kind \<times> bytes) option option" where
  "voted_action x (pid, False, request) = None"
| "voted_action x (pid, True, Some (MemberInvite kp)) =
     Some (action_projection_from_request x (Some (MemberInvite kp)))"
| "voted_action x (pid, True, Some (RemoveMember m)) = Some (Some (ActionRemove, m))"
| "voted_action x (pid, True, Some (EmergencyCriteria (Some ev))) =
     (if is_score_below_threshold ev then Some (Some (ActionRemove, ve_target_member_id ev)) else None)"
| "voted_action x (pid, True, request) = None"

text \<open>The abstract queue: an action is admitted once, an action without a key every time.\<close>

fun admit :: "'k option option \<Rightarrow> 'k option multiset \<Rightarrow> 'k option multiset" where
  "admit None M = M"
| "admit (Some None) M = add_mset None M"
| "admit (Some (Some k)) M = (if Some k \<in># M then M else add_mset (Some k) M)"

lemma admit_commute: "admit a (admit b M) = admit b (admit a M)"
  by (cases "(a, M)" rule: admit.cases; cases "(b, M)" rule: admit.cases) auto

lemma approved_removal_action:
  "has_approved_removal q m \<longleftrightarrow> Some (ActionRemove, m) \<in># approved_actions x q"
proof -
  have "removal_of r = Some m \<longleftrightarrow> produces_mls_action r \<and> action_projection_from_request x r = Some (ActionRemove, m)"
    for r by (cases r rule: produces_mls_action.cases) auto
  then show ?thesis
    by (force simp: has_approved_removal_iff approved_actions_def imap_values_def)
qed

lemma approved_invite_action:
  "has_approved_invite x q k \<longleftrightarrow> Some (ActionAdd, k) \<in># approved_actions x q"
proof -
  have "admission_of x r = Some k \<longleftrightarrow> produces_mls_action r \<and> action_projection_from_request x r = Some (ActionAdd, k)"
    for r by (cases r rule: produces_mls_action.cases) auto
  then show ?thesis
    by (force simp: has_approved_invite_iff approved_actions_def imap_values_def)
qed

lemma duplicate_invite_action:
  "duplicate_invite x q (Some (MemberInvite kp)) \<longleftrightarrow>
     (\<exists>k. action_projection_from_request x (Some (MemberInvite kp)) = Some k \<and> Some k \<in># approved_actions x q)"
  by (auto simp: duplicate_invite_iff approved_invite_action)

lemma approved_actions_insert:
  "\<not> imap_contains (q_approved_proposals q) pid \<Longrightarrow>
     approved_actions x (insert_approved_proposal pid r q) =
       (if produces_mls_action r then add_mset (action_projection_from_request x r) (approved_actions x q)
        else approved_actions x q)"
  by (simp add: approved_actions_def insert_approved_proposal_def imap_insert_new imap_values_def)

lemma approved_actions_other [simp]:
  "approved_actions x (remove_voting_proposal pid q) = approved_actions x q"
  "approved_actions x (set_urgent_commit_target t q) = approved_actions x q"
  by (simp_all add: approved_actions_def set_urgent_commit_target_def)

lemma contains_remove_voting [simp]:
  "imap_contains (q_approved_proposals (remove_voting_proposal p q)) = imap_contains (q_approved_proposals q)"
  by simp

lemma apply_outcome_actions:
  assumes "\<not> imap_contains (q_approved_proposals q) (fst out)"
  shows "approved_actions x (apply_outcome x out q) = admit (voted_action x out) (approved_actions x q)"
proof (cases "(x, out)" rule: voted_action.cases)
  case (2 x' pid kp)
  then show ?thesis
    using assms
    by (cases "result_ok (signature_key_of_key_package x kp)")
       (auto simp: apply_outcome_def apply_accepted approved_actions_insert duplicate_invite_action)
qed (use assms in \<open>auto simp: apply_outcome_def apply_rejected apply_accepted apply_accepted_emergency
    Let_def approved_actions_insert approved_removal_action [where x = x]\<close>)

lemma apply_outcome_keys:
  "imap_contains (q_approved_proposals (apply_outcome x out q)) p \<Longrightarrow>
     p = fst out \<or> imap_contains (q_approved_proposals q) p"
proof -
  assume c: "imap_contains (q_approved_proposals (apply_outcome x out q)) p"
  obtain pid approved request where out: "out = (pid, approved, request)" by (cases out)
  from apply_consensus_result_approved [of x pid approved request q] show ?thesis
  proof
    assume "\<exists>req. q_approved_proposals (snd (apply_consensus_result x pid approved request q)) =
      imap_insert pid req (q_approved_proposals q) \<and> fresh_approval x q req"
    then obtain req where "q_approved_proposals (apply_outcome x out q) =
        imap_insert pid req (q_approved_proposals q)"
      by (auto simp: apply_outcome_def out)
    then show ?thesis
      using c set_imap_insert_subset [of pid req "q_approved_proposals q"]
      by (auto simp: imap_contains_iff out)
  qed (use c in \<open>simp add: apply_outcome_def out\<close>)
qed

lemma apply_outcomes_actions:
  assumes "distinct (map fst os)" and "\<forall>out\<in>set os. \<not> imap_contains (q_approved_proposals q) (fst out)"
  shows "approved_actions x (fold (apply_outcome x) os q) =
    fold (admit \<circ> voted_action x) os (approved_actions x q)"
  using assms
proof (induction os arbitrary: q)
  case (Cons out os)
  have "\<forall>o'\<in>set os. \<not> imap_contains (q_approved_proposals (apply_outcome x out q)) (fst o')"
  proof
    fix o' assume "o' \<in> set os"
    then have "fst o' \<in> fst ` set os" "\<not> imap_contains (q_approved_proposals q) (fst o')"
      using Cons.prems by auto
    moreover have "fst out \<notin> fst ` set os" using Cons.prems(1) by simp
    ultimately have "fst o' \<noteq> fst out" "\<not> imap_contains (q_approved_proposals q) (fst o')"
      by metis+
    then show "\<not> imap_contains (q_approved_proposals (apply_outcome x out q)) (fst o')"
      using apply_outcome_keys by blast
  qed
  then show ?case
    using Cons.IH [of "apply_outcome x out q"] Cons.prems apply_outcome_actions [of q out x] by simp
qed simp

text \<open>What commit validation and the round snapshot read of the queue.\<close>

lemma expected_of_actions:
  "set (List.map_filter (action_projection_from_request x) (imap_values (q_approved_proposals q))) =
     {k. Some k \<in># approved_actions x q}"
proof -
  have produces: "produces_mls_action r" if "action_projection_from_request x r = Some k" for r k
    using that by (cases r rule: produces_mls_action.cases) auto
  have actions: "Some k \<in># approved_actions x q \<longleftrightarrow>
      (\<exists>r\<in>set (imap_values (q_approved_proposals q)). action_projection_from_request x r = Some k)" for k
    using produces [of _ k] by (auto simp: approved_actions_def image_iff)
  have filtered: "k \<in> set (List.map_filter f rs) \<longleftrightarrow> (\<exists>r\<in>set rs. f r = Some k)" for k f and rs :: "'r list"
    by (induction rs) (auto simp: List.map_filter_simps split: option.splits)
  show ?thesis by (rule set_eqI) (simp only: actions filtered mem_Collect_eq)
qed

lemma mls_count_of_actions:
  "rc_mls_count (round_snapshot om q mls svc e rec self) = size (approved_actions x q)"
  by (simp add: round_snapshot_def approved_actions_def flip: mset_filter)

section \<open>Properties\<close>

text \<open>
  C26. The approved queue refines a set of actions: applying the outcome of a proposal to the
  queue is, on the membership actions the queue stands for, the admission of the action the
  outcome asks for, once per action.
\<close>

theorem outcome_refines_admission:
  assumes "\<not> imap_contains (q_approved_proposals q) pid"
  shows "approved_actions x (snd (apply_consensus_result x pid approved request q)) =
    admit (voted_action x (pid, approved, request)) (approved_actions x q)"
  using apply_outcome_actions [of q "(pid, approved, request)" x] assms by (simp add: apply_outcome_def)

theorem outcome_refines_admission_witness:
  "approved_actions demo_externals
     (snd (apply_consensus_result demo_externals 9 True (Some (RemoveMember (member_id_of 2))) demo_queues)) =
   {#Some (ActionRemove, member_id_of 3), Some (ActionRemove, member_id_of 2)#}"
proof -
  have "\<not> imap_contains (q_approved_proposals demo_queues) 9" by code_simp
  from outcome_refines_admission [OF this, of demo_externals True "Some (RemoveMember (member_id_of 2))"]
  have "approved_actions demo_externals (snd (apply_consensus_result demo_externals 9 True
      (Some (RemoveMember (member_id_of 2))) demo_queues)) =
      admit (Some (Some (ActionRemove, member_id_of 2))) (approved_actions demo_externals demo_queues)"
    by simp
  moreover have "imap_values (q_approved_proposals demo_queues) = [Some (RemoveMember (member_id_of 3))]"
    by code_simp
  then have "approved_actions demo_externals demo_queues = {#Some (ActionRemove, member_id_of 3)#}"
    by (simp add: approved_actions_def)
  moreover have "member_id_of 2 \<noteq> member_id_of 3" by code_simp
  ultimately show ?thesis by simp
qed

text \<open>
  C27. The order of outcomes does not matter: peers that apply the same outcomes of different
  proposals in any order accept the same commits as matching the vote, and require the same
  number of proposals of a candidate.
\<close>

theorem outcome_order_irrelevant:
  fixes x :: externals
  assumes "mset os = mset os'" and "distinct (map fst os)"
    and "\<forall>out\<in>set os. \<not> imap_contains (q_approved_proposals q) (fst out)"
  defines "qa \<equiv> fold (apply_outcome x) os q" and "qb \<equiv> fold (apply_outcome x) os' q"
  shows "(validate_commit_candidate x qa sender actions ctx = Inr None) =
      (validate_commit_candidate x qb sender actions ctx = Inr None) \<and>
    rc_mls_count (round_snapshot om qa mls svc epoch rec self) =
      rc_mls_count (round_snapshot om qb mls svc epoch rec self)"
proof -
  have "set os = set os'" "distinct (map fst os')"
    using assms(1,2) by (metis mset_eq_setD, metis distinct_map mset_eq_imp_distinct_iff mset_map)
  then have "approved_actions x qa = fold (admit \<circ> voted_action x) os (approved_actions x q)"
    "approved_actions x qb = fold (admit \<circ> voted_action x) os' (approved_actions x q)"
    using assms(2,3) unfolding qa_def qb_def by (simp_all add: apply_outcomes_actions)
  moreover have "fold (admit \<circ> voted_action x) os = fold (admit \<circ> voted_action x) os'"
    by (rule fold_multiset_equiv) (use assms(1) in \<open>simp_all add: fun_eq_iff admit_commute\<close>)
  ultimately have "approved_actions x qa = approved_actions x qb" by simp
  then show ?thesis
    by (simp add: validate_commit_candidate_iff expected_of_actions mls_count_of_actions [where x = x])
qed

theorem outcome_order_irrelevant_witness:
  "let removals = [(8, True, Some (RemoveMember (member_id_of 2))), (9, True, Some (RemoveMember (member_id_of 2)))]
   in rc_mls_count (round_snapshot demo_mls (fold (apply_outcome demo_externals) removals demo_queues)
        demo_service demo_stewards 5 False (member_id_of 0)) =
      rc_mls_count (round_snapshot demo_mls (fold (apply_outcome demo_externals) (rev removals) demo_queues)
        demo_service demo_stewards 5 False (member_id_of 0))"
proof -
  let ?os = "[(8, True, Some (RemoveMember (member_id_of 2))), (9, True, Some (RemoveMember (member_id_of 2)))] :: outcome list"
  have "\<forall>out\<in>set ?os. \<not> imap_contains (q_approved_proposals demo_queues) (fst out)" by code_simp
  moreover have "mset ?os = mset (rev ?os)" "distinct (map fst ?os)" by simp_all
  ultimately show ?thesis
    unfolding Let_def using outcome_order_irrelevant [of ?os "rev ?os" demo_queues demo_externals] by blast
qed

section \<open>A full batch is accepted\<close>

text \<open>The action a commit input asks MLS for.\<close>

fun input_action :: "externals \<Rightarrow> mls_commit_input \<Rightarrow> (action_kind \<times> bytes) option" where
  "input_action x (AddInput kp) = map_option (Pair ActionAdd) (result_ok (signature_key_of_key_package x kp))"
| "input_action x (RemoveInput m) = Some (ActionRemove, m)"

text \<open>The approved changes fit one commit and can all be made now.\<close>

definition batch_fits :: "('g, 'o, 'c, 's) environment \<Rightarrow> ('g, 'o, 'c, 's) conversation \<Rightarrow> bool" where
  "batch_fits E c \<longleftrightarrow>
     q_urgent_commit_target (cn_queues c) = None \<and>
     length (q_approved_proposals (cn_queues c)) \<le> cfg_commit_batch_max (cn_config c) \<and>
     list_all (\<lambda>r. case r of
         Some (MemberInvite kp) \<Rightarrow>
           (case signature_key_of_key_package (env_x E) kp of
              Inr k \<Rightarrow> k \<notin> set (map mbr_signature_key (om_members (env_om E) (ms_group (cn_mls c))))
            | Inl _ \<Rightarrow> False)
       | Some (RemoveMember m) \<Rightarrow> m \<in> set (conv_members E c)
       | _ \<Rightarrow> False) (imap_values (q_approved_proposals (cn_queues c)))"

text \<open>
  What the construction of a commit relies on: a proposal does not change the members of the
  group before it is committed, and a listed member is found at its leaf.
\<close>

definition proposing_keeps_members :: "('g, 'o) openmls \<Rightarrow> bool" where
  "proposing_keeps_members om \<longleftrightarrow>
     (\<forall>g i. om_member_at om (snd (om_propose_remove_member om i g)) = om_member_at om g) \<and>
     (\<forall>g kp. om_member_at om (snd (om_propose_add_member om kp g)) = om_member_at om g)"

definition members_at_leaves :: "('g, 'o) openmls \<Rightarrow> 'g \<Rightarrow> bool" where
  "members_at_leaves om g \<longleftrightarrow> (\<forall>m\<in>set (om_members om g). om_member_at om g (mbr_index m) \<noteq> None)"

lemma collect_all_updates:
  assumes "list_all (\<lambda>r. case r of
         Some (MemberInvite kp) \<Rightarrow>
           (case signature_key_of_key_package x kp of Inr k \<Rightarrow> k \<notin> set keys | Inl _ \<Rightarrow> False)
       | Some (RemoveMember m) \<Rightarrow> m \<in> set members
       | _ \<Rightarrow> False) rs"
  shows "\<exists>new js'. collect_updates x keys members None rs us js = Inr (us @ new, js') \<and>
    map (input_action x) new = map (action_projection_from_request x) rs \<and>
    (\<forall>m. RemoveInput m \<in> set new \<longrightarrow> m \<in> set members) \<and> list_all produces_mls_action rs"
  using assms
proof (induction rs arbitrary: us js)
  case (Cons r rs)
  show ?case
  proof (cases r rule: produces_mls_action.cases)
    case (1 kp)
    then obtain k where k: "signature_key_of_key_package x kp = Inr k" "k \<notin> set keys"
      using Cons.prems by (auto split: sum.splits)
    obtain new js' where "collect_updates x keys members None rs (us @ [AddInput kp]) (js @ [k]) =
        Inr ((us @ [AddInput kp]) @ new, js')"
      "map (input_action x) new = map (action_projection_from_request x) rs"
      "\<forall>m. RemoveInput m \<in> set new \<longrightarrow> m \<in> set members" "list_all produces_mls_action rs"
      using Cons.IH [of "us @ [AddInput kp]" "js @ [k]"] Cons.prems by auto
    then show ?thesis using 1 k by (intro exI [of _ "AddInput kp # new"]) auto
  next
    case (2 m)
    obtain new js' where "collect_updates x keys members None rs (us @ [RemoveInput m]) js =
        Inr ((us @ [RemoveInput m]) @ new, js')"
      "map (input_action x) new = map (action_projection_from_request x) rs"
      "\<forall>m. RemoveInput m \<in> set new \<longrightarrow> m \<in> set members" "list_all produces_mls_action rs"
      using Cons.IH [of "us @ [RemoveInput m]" js] Cons.prems by auto
    then show ?thesis using 2 Cons.prems by (intro exI [of _ "RemoveInput m # new"]) auto
  qed (use Cons.prems in auto)
qed simp

lemma on_group_member_at:
  assumes "on_group k f mls = (Inr v, mls')" and "\<And>g. om_member_at om (snd (f g)) = om_member_at om g"
  shows "om_member_at om (ms_group mls') = om_member_at om (ms_group mls)"
  using assms(1) assms(2) [of "ms_group mls"] by (auto simp: on_group_def split: prod.splits sum.splits)

lemma propose_all_updates:
  assumes "proposing_keeps_members om" and "propose_updates x om us ps mls = (Inr ps', mls')"
    and "\<forall>m. RemoveInput m \<in> set us \<longrightarrow> (\<exists>i. leaf_index_of m = Some i \<and> om_member_at om (ms_group mls) i \<noteq> None)"
  shows "length ps' = length ps + length us"
  using assms(2,3)
proof (induction us arbitrary: ps mls)
  case (Cons u us)
  note keeps = assms(1) [unfolded proposing_keeps_members_def]
  show ?case
  proof (cases u)
    case (AddInput kp)
    then obtain kp' out mls1 b where
      "on_group ProposeAddMember (om_propose_add_member om kp') mls = (Inr out, mls1)"
      "propose_updates x om us (ps @ [b]) mls1 = (Inr ps', mls')"
      using Cons.prems(1) by (auto simp: try_then_eq_Inr split: sum.split_asm)
    moreover from this(1) have "om_member_at om (ms_group mls1) = om_member_at om (ms_group mls)"
      by (rule on_group_member_at) (simp add: keeps)
    ultimately show ?thesis using Cons.IH [of "ps @ [b]" mls1] Cons.prems(2) by simp
  next
    case (RemoveInput m)
    then obtain i where "leaf_index_of m = Some i" "om_member_at om (ms_group mls) i \<noteq> None"
      using Cons.prems(2) by auto
    then obtain out mls1 b where
      "on_group ProposeRemoveMember (om_propose_remove_member om i) mls = (Inr out, mls1)"
      "propose_updates x om us (ps @ [b]) mls1 = (Inr ps', mls')"
      using Cons.prems(1) RemoveInput by (auto simp: try_then_eq_Inr)
    moreover from this(1) have "om_member_at om (ms_group mls1) = om_member_at om (ms_group mls)"
      by (rule on_group_member_at) (simp add: keeps)
    ultimately show ?thesis using Cons.IH [of "ps @ [b]" mls1] Cons.prems(2) by simp
  qed
qed simp

lemma collected_of_fitting:
  assumes "batch_fits E c"
  obtains us js where
    "collect_updates (env_x E) (map mbr_signature_key (om_members (env_om E) (ms_group (cn_mls c))))
       (conv_members E c) (q_urgent_commit_target (cn_queues c))
       (map snd (take (cfg_commit_batch_max (cn_config c)) (q_approved_proposals (cn_queues c)))) [] [] = Inr (us, js)"
    "mset (map (input_action (env_x E)) us) = approved_actions (env_x E) (cn_queues c)"
    "\<forall>m. RemoveInput m \<in> set us \<longrightarrow> m \<in> set (conv_members E c)"
proof -
  let ?q = "cn_queues c"
  have fits: "q_urgent_commit_target ?q = None"
    "map snd (take (cfg_commit_batch_max (cn_config c)) (q_approved_proposals ?q)) =
       imap_values (q_approved_proposals ?q)"
    using assms by (simp_all add: batch_fits_def imap_values_def)
  obtain us js where us:
    "collect_updates (env_x E) (map mbr_signature_key (om_members (env_om E) (ms_group (cn_mls c))))
       (conv_members E c) None (imap_values (q_approved_proposals ?q)) [] [] = Inr ([] @ us, js)"
    "map (input_action (env_x E)) us = map (action_projection_from_request (env_x E)) (imap_values (q_approved_proposals ?q))"
    "\<forall>m. RemoveInput m \<in> set us \<longrightarrow> m \<in> set (conv_members E c)"
    "list_all produces_mls_action (imap_values (q_approved_proposals ?q))"
    using collect_all_updates assms unfolding batch_fits_def by metis
  have "filter produces_mls_action (imap_values (q_approved_proposals ?q)) = imap_values (q_approved_proposals ?q)"
    using us(4) by (simp add: list_all_iff)
  then have "mset (map (input_action (env_x E)) us) = approved_actions (env_x E) ?q"
    unfolding us(2) approved_actions_def by (simp flip: mset_filter)
  then show thesis by (rule that [rotated]) (use us fits in simp_all)
qed

lemma performed_actions_validate:
  assumes "approved_actions x q = mset (map (input_action x) us)"
    and "Some ` set (map action_projection_from_mls acts) = input_action x ` set us"
  shows "validate_commit_candidate x q sender acts ctx = Inr None"
proof -
  have "Some k \<in># approved_actions x q \<longleftrightarrow> Some k \<in> input_action x ` set us" for k
    using assms(1) by simp
  then have "Some k \<in># approved_actions x q \<longleftrightarrow> k \<in> set (map action_projection_from_mls acts)" for k
    unfolding assms(2) [symmetric] by blast
  then show ?thesis unfolding validate_commit_candidate_iff expected_of_actions by auto
qed

text \<open>
  C28. A steward's full batch is acceptable to every peer: when every approved change can still
  be made and all fit one commit, the candidate the steward builds carries as many proposals as
  every peer with the same approved actions requires, whether or not subsets are allowed, and a
  staged commit that performs exactly the proposed changes passes the peer's validation.
\<close>

theorem full_batch_is_acceptable:
  assumes "build_local_candidate E self c = (Inr (Some payload), c')" and "batch_fits E c"
    and "proposing_keeps_members (env_om E)" and "members_at_leaves (env_om E) (ms_group (cn_mls c))"
  shows "\<exists>cand us. payload = x_encode_app (env_x E) (Some (CommitCandidatePayload cand)) \<and>
    (\<exists>artifacts. fst (create_commit_candidate (env_x E) (env_om E) us (cn_mls c)) = Inr artifacts \<and>
       cc_mls_proposals cand = ca_proposals artifacts \<and> cc_commit_message cand = ca_commit artifacts) \<and>
    (\<forall>q. approved_actions (env_x E) q = approved_actions (env_x E) (cn_queues c) \<longrightarrow>
       (\<forall>(om :: ('h, 'p) openmls) mls svc epoch recovery member subset_ok b. bc_candidate_msg b = cand \<longrightarrow>
          candidate_applicable (round_snapshot om q mls svc epoch recovery member) subset_ok b) \<and>
       (\<forall>sender actions ctx.
          Some ` set (map action_projection_from_mls actions) = input_action (env_x E) ` set us \<longrightarrow>
          validate_commit_candidate (env_x E) q sender actions ctx = Inr None))"
proof -
  obtain us js where us:
    "collect_updates (env_x E) (map mbr_signature_key (om_members (env_om E) (ms_group (cn_mls c))))
       (conv_members E c) (q_urgent_commit_target (cn_queues c))
       (map snd (take (cfg_commit_batch_max (cn_config c)) (q_approved_proposals (cn_queues c)))) [] [] = Inr (us, js)"
    and actions: "mset (map (input_action (env_x E)) us) = approved_actions (env_x E) (cn_queues c)"
    and removals: "\<forall>m. RemoveInput m \<in> set us \<longrightarrow> m \<in> set (conv_members E c)"
    using collected_of_fitting [OF assms(2)] .
  obtain artifacts c1 cand where
    minted: "on_service (create_commit_candidate (env_x E) (env_om E) us) c = (Inr artifacts, c1)"
    and payload: "payload = x_encode_app (env_x E) (Some (CommitCandidatePayload cand))"
    and cand: "cc_mls_proposals cand = ca_proposals artifacts" "cc_commit_message cand = ca_commit artifacts"
    using assms(1) us unfolding build_local_candidate_def Let_def
    by (auto simp: try_then_eq_Inr split: if_split_asm)
  obtain mls' where created: "create_commit_candidate (env_x E) (env_om E) us (cn_mls c) = (Inr artifacts, mls')"
    using minted by (auto simp: on_service_def split: prod.splits sum.splits)
  then obtain mls1 where "propose_updates (env_x E) (env_om E) us [] (cn_mls c) = (Inr (ca_proposals artifacts), mls1)"
    by (auto simp: create_commit_candidate_def try_then_eq_Inr)
  moreover have "\<forall>m. RemoveInput m \<in> set us \<longrightarrow>
      (\<exists>i. leaf_index_of m = Some i \<and> om_member_at (env_om E) (ms_group (cn_mls c)) i \<noteq> None)"
    using removals assms(4) by (fastforce simp: conv_members_def mls_members_def members_at_leaves_def)
  ultimately have len: "length (ca_proposals artifacts) = length us"
    using propose_all_updates [OF assms(3)] by fastforce
  have applicable: "candidate_applicable (round_snapshot om q mls svc epoch recovery member) subset_ok b"
    if "approved_actions (env_x E) q = approved_actions (env_x E) (cn_queues c)" "bc_candidate_msg b = cand"
    for om mls svc epoch recovery member subset_ok b q
  proof -
    have "rc_mls_count (round_snapshot om q mls svc epoch recovery member) = length us"
      using that(1) by (simp add: mls_count_of_actions [where x = "env_x E"] flip: actions)
    then show ?thesis using that(2) cand len by (simp add: candidate_applicable_def)
  qed
  show ?thesis
  proof (intro exI [of _ cand] exI [of _ us] conjI allI impI)
    show "\<exists>artifacts. fst (create_commit_candidate (env_x E) (env_om E) us (cn_mls c)) = Inr artifacts \<and>
        cc_mls_proposals cand = ca_proposals artifacts \<and> cc_commit_message cand = ca_commit artifacts"
      using created cand by simp
  qed (rule payload, rule applicable, assumption+, rule performed_actions_validate,
      erule trans, rule actions [symmetric], assumption)
qed

text \<open>One approved removal under a batch size of one, the steward at leaf 1 about to commit.\<close>

definition demo_full_batch ::
  "(demo_group, demo_object, demo_engine_state, in_memory_peer_score_storage) conversation" where
  "demo_full_batch = demo_conversation\<lparr>cn_queues := demo_queues\<rparr>"

lemma demo_full_batch_builds:
  "\<exists>payload c'. build_local_candidate demo_env (member_id_of 1) demo_full_batch = (Inr (Some payload), c')"
proof -
  have steward: "svc_is_steward (cn_stewards demo_full_batch) (member_id_of 1)"
    and own: "\<not> has_approved_removal (cn_queues demo_full_batch) (member_id_of 1)"
    by code_simp+
  have approved: "q_approved_proposals (cn_queues demo_full_batch) = [(7, Some (RemoveMember (member_id_of 3)))]"
    by code_simp
  have collected: "collect_updates demo_codec
      (map mbr_signature_key (om_members (env_om demo_env) (ms_group (cn_mls demo_full_batch))))
      (conv_members demo_env demo_full_batch) (q_urgent_commit_target (cn_queues demo_full_batch))
      (map snd (take 1 (q_approved_proposals (cn_queues demo_full_batch)))) [] [] =
      Inr ([RemoveInput (member_id_of 3)], [])"
    by code_simp
  have parts: "cfg_commit_batch_max (cn_config demo_full_batch) = 1" "env_x demo_env = demo_codec"
    "env_om demo_env = demo_mls" "cn_mls demo_full_batch = demo_service"
    by (simp_all add: demo_full_batch_def demo_conversation_def demo_config_def conversation_new_def
        demo_env_def)
  show ?thesis
    using steward own collected demo_removal_commit
    by (simp add: build_local_candidate_def Let_def approved parts is_governance_def
        is_mls_producing_def on_service_def)
qed

theorem full_batch_is_acceptable_witness:
  "\<exists>payload c' cand. build_local_candidate demo_env (member_id_of 1) demo_full_batch = (Inr (Some payload), c') \<and>
     payload = x_encode_app demo_codec (Some (CommitCandidatePayload cand)) \<and>
     candidate_applicable (round_snapshot demo_mls demo_queues demo_service demo_stewards 5 False
       (member_id_of 0)) False (demo_buffered cand)"
proof -
  obtain payload c' where
    built: "build_local_candidate demo_env (member_id_of 1) demo_full_batch = (Inr (Some payload), c')"
    using demo_full_batch_builds by blast
  have fits: "batch_fits demo_env demo_full_batch"
    by code_simp
  have keeps: "proposing_keeps_members (env_om demo_env)"
    by (simp add: proposing_keeps_members_def demo_env_def demo_mls_def)
  have leaves: "members_at_leaves (env_om demo_env) (ms_group (cn_mls demo_full_batch))"
    by code_simp
  obtain cand where payload: "payload = x_encode_app (env_x demo_env) (Some (CommitCandidatePayload cand))"
    and applicable: "\<forall>q. approved_actions (env_x demo_env) q =
        approved_actions (env_x demo_env) (cn_queues demo_full_batch) \<longrightarrow>
      (\<forall>(om :: (demo_group, demo_object) openmls) mls svc epoch recovery member subset_ok b.
        bc_candidate_msg b = cand \<longrightarrow>
        candidate_applicable (round_snapshot om q mls svc epoch recovery member) subset_ok b)"
    using full_batch_is_acceptable [OF built fits keeps leaves, where 'h = demo_group and 'p = demo_object]
    by (elim exE conjE) (rule that, assumption, simp)
  have parts: "env_x demo_env = demo_codec" "cn_queues demo_full_batch = demo_queues"
    "bc_candidate_msg (demo_buffered cand) = cand"
    by (simp_all add: demo_env_def demo_full_batch_def demo_buffered_def)
  show ?thesis using built payload applicable parts by auto
qed

end
