(* ===== verification/Round_Agreement.thy ===== *)
theory Round_Agreement
  imports Agreement
begin

text \<open>
  Two members of one group run a commit round on their own queues and their own MLS state. The
  hypothesis on MLS is the one its protocol gives: two members in the same epoch process the same
  handshake messages alike. The round keeps them together: both merge the same commit, or neither
  merges one.
\<close>

section \<open>Two runs side by side\<close>

text \<open>Two results with the same error, or related values, and related states.\<close>

fun agrees :: "('a \<Rightarrow> 'b \<Rightarrow> bool) \<Rightarrow> ('s \<Rightarrow> 't \<Rightarrow> bool) \<Rightarrow> ('e + 'a) \<times> 's \<Rightarrow> ('e + 'b) \<times> 't \<Rightarrow> bool" where
  "agrees V R (Inl e, s) (Inl e', s') \<longleftrightarrow> e = e' \<and> R s s'"
| "agrees V R (Inr v, s) (Inr v', s') \<longleftrightarrow> V v v' \<and> R s s'"
| "agrees V R _ _ \<longleftrightarrow> False"

lemma agrees_try:
  assumes "agrees V R r r'"
    and "\<And>v v' d d'. r = (Inr v, d) \<Longrightarrow> r' = (Inr v', d') \<Longrightarrow> V v v' \<Longrightarrow> R d d' \<Longrightarrow> agrees W R (k v d) (k' v' d')"
  shows "agrees W R (try_then r k) (try_then r' k')"
  using assms by (cases "(V, R, r, r')" rule: agrees.cases) auto

lemma agrees_try_pair:
  assumes "agrees (rel_prod (=) Q) R r r'"
    and "\<And>a b b' d d'. Q b b' \<Longrightarrow> R d d' \<Longrightarrow> agrees W R (k a b d) (k' a b' d')"
  shows "agrees W R (try_then r (\<lambda>(a, b). k a b)) (try_then r' (\<lambda>(a, b). k' a b))"
  using assms by (intro agrees_try [OF assms(1)]) (auto elim!: rel_prod.cases)

lemma agrees_state: "agrees V R r r' \<Longrightarrow> R (snd r) (snd r')"
  by (cases "(V, R, r, r')" rule: agrees.cases) auto

lemma agrees_mono: "agrees V R r r' \<Longrightarrow> (\<And>v v'. V v v' \<Longrightarrow> W v v') \<Longrightarrow> agrees W R r r'"
  by (cases "(V, R, r, r')" rule: agrees.cases) auto

section \<open>Members of one epoch\<close>

text \<open>
  The MLS hypothesis: \<open>G\<close> relates the group states of two members, \<open>S\<close> the objects MLS hands out
  to them for one message (a staged commit says to each whether it is the one removed).
\<close>

definition same_handshakes ::
  "('g, 'o) openmls \<Rightarrow> ('g \<Rightarrow> 'g \<Rightarrow> bool) \<Rightarrow> ('o \<Rightarrow> 'o \<Rightarrow> bool) \<Rightarrow> bool" where
  "same_handshakes om G S \<longleftrightarrow>
     (\<forall>g g'. G g g' \<longrightarrow>
        om_epoch om g = om_epoch om g' \<and> om_group_id om g = om_group_id om g' \<and>
        om_members om g = om_members om g' \<and> om_member_at om g = om_member_at om g' \<and>
        (\<forall>m. agrees (rel_prod (=) (rel_processed_content S)) G
               (om_process_message om m g) (om_process_message om m g')) \<and>
        agrees (=) G (om_clear_pending_commit om g) (om_clear_pending_commit om g') \<and>
        agrees (=) G (om_clear_pending_proposals om g) (om_clear_pending_proposals om g') \<and>
        (\<forall>s s'. S s s' \<longrightarrow>
           agrees (=) G (om_store_pending_proposal om s g) (om_store_pending_proposal om s' g') \<and>
           agrees (=) G (om_merge_staged_commit om s g) (om_merge_staged_commit om s' g'))) \<and>
     (\<forall>s s'. S s s' \<longrightarrow> om_staged_add_keys om s = om_staged_add_keys om s' \<and>
        om_staged_removed_leaves om s = om_staged_removed_leaves om s')"

definition together ::
  "('g \<Rightarrow> 'g \<Rightarrow> bool) \<Rightarrow> ('o \<Rightarrow> 'o \<Rightarrow> bool) \<Rightarrow> ('g, 'o) mls_service \<Rightarrow> ('g, 'o) mls_service \<Rightarrow> bool" where
  "together G S mls mls' \<longleftrightarrow>
     ms_conversation_id mls = ms_conversation_id mls' \<and> G (ms_group mls) (ms_group mls') \<and>
     rel_option S (ms_pending_staged_commit mls) (ms_pending_staged_commit mls')"

lemma together_group:
  "together G S mls mls' \<Longrightarrow> agrees V G (f (ms_group mls)) (f' (ms_group mls')) \<Longrightarrow>
     agrees V (together G S) (on_group k f mls) (on_group k f' mls')"
  by (cases "(V, G, f (ms_group mls), f' (ms_group mls'))" rule: agrees.cases)
     (auto simp: on_group_def together_def)

lemma together_views:
  assumes "same_handshakes om G S" and "together G S mls mls'"
  shows "mls_epoch om mls = mls_epoch om mls'" "mls_members om mls = mls_members om mls'"
    "om_group_id om (ms_group mls) = om_group_id om (ms_group mls')"
    "om_members om (ms_group mls) = om_members om (ms_group mls')"
    "om_member_at om (ms_group mls) = om_member_at om (ms_group mls')"
  using assms by (auto simp: same_handshakes_def together_def mls_epoch_def mls_members_def)

lemma together_process:
  assumes "same_handshakes om G S" and "together G S mls mls'"
  shows "agrees (rel_prod (=) (rel_processed_content S)) (together G S)
      (on_group ProcessMessage (om_process_message om m) mls)
      (on_group ProcessMessage (om_process_message om m) mls')"
  using assms by (intro together_group) (auto simp: same_handshakes_def together_def)

lemma together_store:
  assumes "same_handshakes om G S" and "together G S mls mls'" and "S p p'"
  shows "agrees (=) (together G S) (on_group MlsStorage (om_store_pending_proposal om p) mls)
      (on_group MlsStorage (om_store_pending_proposal om p') mls')"
  using assms by (intro together_group) (auto simp: same_handshakes_def together_def)

lemma together_discard:
  assumes "same_handshakes om G S" and "together G S mls mls'"
  shows "agrees (=) (together G S) (discard_own_commit om mls) (discard_own_commit om mls')"
    and "agrees (=) (together G S) (discard_staged_commit om mls) (discard_staged_commit om mls')"
proof -
  have "agrees (=) G (om_clear_pending_proposals om g) (om_clear_pending_proposals om g')"
    "agrees (=) G (om_clear_pending_commit om g) (om_clear_pending_commit om g')" if "G g g'" for g g'
    using assms(1) that by (auto simp: same_handshakes_def)
  then show "agrees (=) (together G S) (discard_own_commit om mls) (discard_own_commit om mls')"
    and "agrees (=) (together G S) (discard_staged_commit om mls) (discard_staged_commit om mls')"
    using assms(2) unfolding discard_own_commit_def discard_staged_commit_def
    by (auto simp: together_def intro!: agrees_try together_group)
qed

lemma stage_proposals_together:
  assumes "same_handshakes om G S" and "together G S mls mls'"
  shows "agrees (=) (together G S) (stage_proposals om ps senders mls) (stage_proposals om ps senders mls')"
  using assms(2)
proof (induction ps arbitrary: senders mls mls')
  case (Cons b bs)
  show ?case
  proof (cases "protocol_message_of om b")
    case (Inr m)
    show ?thesis
      unfolding stage_proposals.simps Inr sum.case
    proof (rule agrees_try_pair [OF together_process [OF assms(1) Cons.prems]], goal_cases)
      case (1 sender content content' d d')
      then show ?case
        by (cases sender)
          (auto split: processed_content.splits intro!: agrees_try [OF together_store [OF assms(1)]] Cons.IH)
    qed
  qed (use Cons.prems in simp)
qed simp

fun same_staging :: "staged_candidate_result \<Rightarrow> staged_candidate_result \<Rightarrow> bool" where
  "same_staging (Staged s _ acts) (Staged s' _ acts') \<longleftrightarrow> s = s' \<and> acts = acts'"
| "same_staging r r' \<longleftrightarrow> r = r'"

lemma stage_remote_together:
  fixes om :: "('g, 'o) openmls"
  assumes "same_handshakes om G S" and "together G S mls mls'"
  shows "agrees same_staging (together G S) (stage_remote_commit om ps cm mls) (stage_remote_commit om ps cm mls')"
  unfolding stage_remote_commit_def
proof (rule agrees_try [OF stage_proposals_together [OF assms]], goal_cases)
  case (1 senders senders' d d')
  have views: "om_group_id om (ms_group d) = om_group_id om (ms_group d')"
    "om_epoch om (ms_group d) = om_epoch om (ms_group d')"
    using together_views [OF assms(1) 1(4)] by (simp_all add: mls_epoch_def)
  have actions: "S s s' \<Longrightarrow> staged_actions_of om s = staged_actions_of om s'" for s s'
    using assms(1) by (simp add: same_handshakes_def staged_actions_of_def)
  show ?case
  proof (cases senders)
    case (Some proposal_senders)
    show ?thesis
    proof (cases "protocol_message_of om cm")
      case (Inr m)
      have step: "agrees same_staging (together G S)
          (try_then (on_group ProcessMessage (om_process_message om m) d) (\<lambda>(sender, content). k sender content))
          (try_then (on_group ProcessMessage (om_process_message om m) d') (\<lambda>(sender, content). k sender content))"
        if "\<And>sender content content' d2 d2'. rel_processed_content S content content' \<Longrightarrow>
              together G S d2 d2' \<Longrightarrow> agrees same_staging (together G S) (k sender content d2) (k sender content' d2')"
        for k :: "mls_sender \<Rightarrow> 'o processed_content \<Rightarrow> ('g, 'o) mls_service \<Rightarrow>
              (mls_error + staged_candidate_result) \<times> ('g, 'o) mls_service"
        using that by (rule agrees_try_pair [OF together_process [OF assms(1) 1(4)]])
      have "agrees same_staging (together G S) (Inr Aborted, d) (Inr Aborted, d')" using 1(4) by simp
      then show ?thesis
        using 1(3) unfolding Some Inr views
        by (auto simp: Some views intro!: step)
           (auto simp: Let_def actions together_def split: mls_sender.split processed_content.splits)
    next
      case (Inl e)
      then show ?thesis using 1(3,4) Some by auto
    qed
  next
    case None
    then show ?thesis using 1(3,4) by auto
  qed
qed

section \<open>The approved work after a merge\<close>

definition removal_kept :: "bytes set \<Rightarrow> (action_kind \<times> bytes) option \<Rightarrow> bool" where
  "removal_kept gone a \<longleftrightarrow> (\<forall>m\<in>gone. a \<noteq> Some (ActionRemove, m))"

lemma actions_of_kept:
  assumes "q_approved_proposals q' =
      imap_retain (\<lambda>_ r. \<forall>m\<in>gone. \<not> removes_member r m) (q_approved_proposals q)"
  shows "approved_actions x q' = filter_mset (removal_kept gone) (approved_actions x q)"
proof -
  have kept: "(\<forall>m\<in>gone. \<not> removes_member r m) \<longleftrightarrow> removal_kept gone (action_projection_from_request x r)"
    if "produces_mls_action r" for r
    using that by (cases r rule: produces_mls_action.cases) (auto simp: removes_member_iff removal_kept_def)
  have "imap_values (q_approved_proposals q') =
      filter (\<lambda>r. \<forall>m\<in>gone. \<not> removes_member r m) (imap_values (q_approved_proposals q))"
    unfolding assms imap_values_def imap_retain_def by (simp add: filter_map o_def split_def)
  then have "approved_actions x q' = image_mset (action_projection_from_request x)
      (filter_mset (\<lambda>r. produces_mls_action r \<and> (\<forall>m\<in>gone. \<not> removes_member r m))
        (mset (imap_values (q_approved_proposals q))))"
    by (simp add: approved_actions_def filter_filter_mset conj_commute)
  also have "\<dots> = filter_mset (removal_kept gone) (approved_actions x q)"
    unfolding approved_actions_def filter_mset_image_mset filter_filter_mset
    by (intro arg_cong [where f = "image_mset (action_projection_from_request x)"] filter_mset_cong
        conj_cong [OF refl kept]) simp_all
  finally show ?thesis .
qed

definition work_after_merge ::
  "bytes option \<Rightarrow> membership_delta \<Rightarrow> (action_kind \<times> bytes) option multiset \<Rightarrow>
   (action_kind \<times> bytes) option multiset" where
  "work_after_merge urgent delta actions =
     (case urgent of
        None \<Rightarrow> {#}
      | Some target \<Rightarrow> filter_mset (removal_kept {target})
          (filter_mset (removal_kept ((member_id_of \<circ> mid_leaf) ` set (md_removed delta))) actions))"

lemma merged_work:
  fixes q delta h e
  defines "q' \<equiv> snd (finalize_committed_batch h e (store_membership_delta delta q))"
  shows "approved_actions x q' = work_after_merge (q_urgent_commit_target q) delta (approved_actions x q)"
    and "q_urgent_commit_target q' = None"
proof -
  note after = merged_approvals [of h e delta q, folded q'_def]
  show "q_urgent_commit_target q' = None" by (rule after)
  show "approved_actions x q' = work_after_merge (q_urgent_commit_target q) delta (approved_actions x q)"
  proof (cases "q_urgent_commit_target q")
    case None
    then show ?thesis
      using after(1) by (simp add: work_after_merge_def approvals_after_merge_def approved_actions_def imap_values_def)
  next
    case (Some target)
    let ?q1 = "q\<lparr>q_approved_proposals := imap_retain (\<lambda>_ r. \<forall>m\<in>(member_id_of \<circ> mid_leaf) ` set (md_removed delta).
        \<not> removes_member r m) (q_approved_proposals q)\<rparr>"
    have "approved_actions x q' = filter_mset (removal_kept {target}) (approved_actions x ?q1)"
      using after(1) Some by (intro actions_of_kept) (simp add: approvals_after_merge_def)
    also have "approved_actions x ?q1 =
        filter_mset (removal_kept ((member_id_of \<circ> mid_leaf) ` set (md_removed delta))) (approved_actions x q)"
      by (intro actions_of_kept) simp
    finally show ?thesis using Some by (simp add: work_after_merge_def)
  qed
qed

section \<open>Candidates side by side\<close>

definition in_step ::
  "externals \<Rightarrow> ('g \<Rightarrow> 'g \<Rightarrow> bool) \<Rightarrow> ('o \<Rightarrow> 'o \<Rightarrow> bool) \<Rightarrow> ('g, 'o) round_state \<Rightarrow> ('g, 'o) round_state \<Rightarrow> bool" where
  "in_step x G S st st' \<longleftrightarrow>
     together G S (snd st) (snd st') \<and> approved_actions x (fst st) = approved_actions x (fst st') \<and>
     q_urgent_commit_target (fst st) = q_urgent_commit_target (fst st')"

definition same_context :: "round_context \<Rightarrow> round_context \<Rightarrow> bool" where
  "same_context ctx ctx' \<longleftrightarrow>
     rc_mls_count ctx = rc_mls_count ctx' \<and> rc_current_epoch ctx = rc_current_epoch ctx' \<and>
     rc_in_recovery ctx = rc_in_recovery ctx' \<and> rc_epoch_steward_id ctx = rc_epoch_steward_id ctx'"

lemma in_step_mls:
  assumes "in_step x G S st st'" and "agrees V (together G S) (f (snd st)) (f' (snd st'))"
  shows "agrees V (in_step x G S) (on_mls f st) (on_mls f' st')"
  using assms by (cases "(V, together G S, f (snd st), f' (snd st'))" rule: agrees.cases)
    (auto simp: on_mls_def in_step_def)

fun same_verdict :: "staging_outcome \<Rightarrow> staging_outcome \<Rightarrow> bool" where
  "same_verdict (StagedCandidate s _ acts) (StagedCandidate s' _ acts') \<longleftrightarrow> s = s' \<and> acts = acts'"
| "same_verdict v v' \<longleftrightarrow> v = v'"

fun same_outcome :: "candidate_outcome \<Rightarrow> candidate_outcome \<Rightarrow> bool" where
  "same_outcome (Terminal r s _) (Terminal r' s' _) \<longleftrightarrow> (r = NoCandidate \<longleftrightarrow> r' = NoCandidate) \<and> s = s'"
| "same_outcome v v' \<longleftrightarrow> v = v'"

lemma stage_candidate_together:
  assumes "same_handshakes om G S" and "together G S mls mls'" and "same_context ctx ctx'"
  shows "agrees same_verdict (together G S) (stage_candidate om c ctx mls) (stage_candidate om c ctx' mls')"
proof -
  let ?r = "stage_remote_commit om (cc_mls_proposals c) (cc_commit_message c)"
  from stage_remote_together [OF assms(1,2), of "cc_mls_proposals c" "cc_commit_message c"]
  show ?thesis
    using assms(3) unfolding stage_candidate_def same_context_def
    by (cases "(same_staging, together G S, ?r mls, ?r mls')" rule: agrees.cases)
       (auto split: staged_candidate_result.splits)
qed

lemma validate_same:
  assumes "approved_actions x q = approved_actions x q'" and "same_context ctx ctx'"
  shows "validate_commit_candidate x q sender acts ctx = validate_commit_candidate x q' sender acts ctx'"
proof -
  let ?e = "\<lambda>q. List.map_filter (action_projection_from_request x) (imap_values (q_approved_proposals q))"
  have "set (?e q) = set (?e q')" unfolding expected_of_actions assms(1) ..
  then have "remdups_adj (sort_by action_cmp (?e q)) = remdups_adj (sort_by action_cmp (?e q'))"
    by (simp add: action_order.sort_dedup_eq_iff)
  then show ?thesis using assms(2) by (simp add: validate_commit_candidate_def Let_def same_context_def)
qed

lemma reject_together:
  assumes "same_handshakes om G S" and "in_step x G S st st'"
  shows "agrees same_outcome (in_step x G S) (reject_staged om p st) (reject_staged om p st')"
  unfolding reject_staged_def
  by (rule agrees_try [OF in_step_mls [OF assms(2) together_discard(2) [OF assms(1)]]])
     (use assms(2) in \<open>simp_all add: in_step_def\<close>)

lemma merge_together:
  assumes "same_handshakes om G S" and "together G S mls mls'"
  shows "agrees (=) (together G S) (merge_staged_commit om mls) (merge_staged_commit om mls')"
proof (cases "ms_pending_staged_commit mls")
  case None
  then show ?thesis using assms(2) by (auto simp: merge_staged_commit_def together_def)
next
  case (Some staged)
  then obtain staged' where staged': "ms_pending_staged_commit mls' = Some staged'" and s: "S staged staged'"
    using assms(2) by (auto simp: together_def option_rel_Some1)
  let ?m = "mls\<lparr>ms_pending_staged_commit := None\<rparr>" and ?m' = "mls'\<lparr>ms_pending_staged_commit := None\<rparr>"
  have m: "together G S ?m ?m'" using assms(2) by (simp add: together_def)
  have removed: "removed_members_of om ?m staged = removed_members_of om ?m' staged'"
    and before: "populated_leaves om ?m = populated_leaves om ?m'"
    using together_views [OF assms(1) m] assms(1) s
    by (simp_all add: removed_members_of_def populated_leaves_def same_handshakes_def)
  have delta: "mls_delta om d b r = mls_delta om d' b r" if "together G S d d'" for d d' b r
    using together_views [OF assms(1) that] by (simp add: mls_delta_def)
  have "agrees (=) (together G S) (on_group MergeCommit (om_merge_staged_commit om staged) ?m)
      (on_group MergeCommit (om_merge_staged_commit om staged') ?m')"
    using assms(1) m s by (intro together_group) (auto simp: same_handshakes_def together_def)
  then show ?thesis
    unfolding merge_staged_commit_def Some staged' Let_def option.case removed before
    by (rule agrees_try) (simp add: delta)
qed

lemma incoming_together:
  assumes "same_handshakes om G S" and "in_step x G S st st'" and "same_context ctx ctx'"
    and "bc_candidate_msg c = bc_candidate_msg c'" and "bc_commit_hash c = bc_commit_hash c'"
  shows "agrees same_outcome (in_step x G S) (apply_incoming_candidate x om svc c ctx st)
    (apply_incoming_candidate x om svc c' ctx' st')"
proof -
  have t: "together G S (snd st) (snd st')" and work: "approved_actions x (fst st) = approved_actions x (fst st')"
    using assms(2) by (simp_all add: in_step_def)
  have after: "in_step x G S (fst st, m) (fst st', m')" if "together G S m m'" for m m'
    using that assms(2) by (simp add: in_step_def)
  have auth: "check_commit_sender_authorized svc s ctx = check_commit_sender_authorized svc s ctx'" for s
    using assms(3) by (simp add: check_commit_sender_authorized_def same_context_def)
  have merged: "agrees same_outcome (in_step x G S)
      (try_then (on_mls (discard_own_commit om) (fst st, m)) (\<lambda>_ st2.
        try_then (on_mls (merge_staged_commit om) st2) (\<lambda>delta (q, mls).
          case finalize_committed_batch h e (store_membership_delta delta q) of
            (batch, q') \<Rightarrow> (Inr (Terminal (Applied r None) s batch), (q', mls)))))
      (try_then (on_mls (discard_own_commit om) (fst st', m')) (\<lambda>_ st2.
        try_then (on_mls (merge_staged_commit om) st2) (\<lambda>delta (q, mls).
          case finalize_committed_batch h e (store_membership_delta delta q) of
            (batch, q') \<Rightarrow> (Inr (Terminal (Applied r' None) s batch), (q', mls)))))"
    if "together G S m m'" for m m' h e r r' s
  proof (rule agrees_try [OF in_step_mls [OF after [OF that] together_discard(1) [OF assms(1)]]], goal_cases)
    case (2 _ _ d d')
    then show ?case
      by (intro agrees_try [OF in_step_mls [OF 2(4) merge_together [OF assms(1)]]])
         (auto simp: in_step_def split_beta merged_work)
  qed (use that in simp)
  from stage_candidate_together [OF assms(1) t assms(3), of "bc_candidate_msg c"]
  show ?thesis
    using assms(3) unfolding apply_incoming_candidate_def assms(4) [symmetric] assms(5) [symmetric]
    by (cases "(same_verdict, together G S, stage_candidate om (bc_candidate_msg c) ctx (snd st),
          stage_candidate om (bc_candidate_msg c) ctx' (snd st'))" rule: agrees.cases)
       (auto simp: after auth validate_same [OF work assms(3)] same_context_def Let_def
          split: staging_outcome.splits option.splits sum.splits
          intro!: reject_together [OF assms(1)] merged)
qed

section \<open>The round\<close>

text \<open>
  What two members report of one round: both merged a commit or neither did, and the same score
  operations in the same order, except that neither records its own inactivity.
\<close>

definition recorded_by_both :: "bytes \<Rightarrow> bytes \<Rightarrow> score_op \<Rightarrow> bool" where
  "recorded_by_both self self' op \<longleftrightarrow>
     \<not> (op_event op = CensorshipInactivity \<and> (op_member_id op = self \<or> op_member_id op = self'))"

definition same_round :: "bytes \<Rightarrow> bytes \<Rightarrow> commit_round_result \<Rightarrow> commit_round_result \<Rightarrow> bool" where
  "same_round self self' res res' \<longleftrightarrow>
     (crr_outcome res = NoCandidate \<longleftrightarrow> crr_outcome res' = NoCandidate) \<and>
     filter (recorded_by_both self self') (crr_score_ops res) =
       filter (recorded_by_both self self') (crr_score_ops res')"

lemma same_winner_scores:
  assumes "rc_epoch_steward_id ctx = rc_epoch_steward_id ctx'" and "map candidate_key losers = map candidate_key losers'"
  shows "filter (recorded_by_both self self') (record_winner_scores ops s self ctx losers svc) =
    filter (recorded_by_both self self') (record_winner_scores ops s self' ctx' losers' svc)"
proof -
  let ?charge = "\<lambda>m. let claimed = cc_steward_member_id m in
    \<lparr>op_member_id = claimed, op_event = (if svc_is_steward svc claimed then HonestCommitAttempt else MisbehavingCommit)\<rparr>"
  have "map bc_candidate_msg losers = map bc_candidate_msg losers'"
    using arg_cong [OF assms(2), of "map fst"] by (simp add: candidate_key_def comp_def)
  then have "map (?charge \<circ> bc_candidate_msg) losers = map (?charge \<circ> bc_candidate_msg) losers'"
    by (metis map_map)
  then show ?thesis
    using assms(1) by (auto simp: record_winner_scores_def recorded_by_both_def comp_def split: option.split)
qed

lemma discard_together:
  assumes "same_handshakes om G S" and "in_step x G S st st'"
  shows "agrees (same_round self self') (in_step x G S) (discard_and_finish om ops st) (discard_and_finish om ops st')"
  unfolding discard_and_finish_def
  by (rule agrees_try [OF in_step_mls [OF assms(2) together_discard(1) [OF assms(1)]]])
     (use assms(2) in \<open>simp_all add: in_step_def same_round_def\<close>)

lemma priority_order_together:
  assumes "same_handshakes om G S" and "same_context ctx ctx'"
    and "map candidate_key cs = map candidate_key cs'"
    and "\<forall>c\<in>set cs. \<not> bc_is_local_candidate c" and "\<forall>c\<in>set cs'. \<not> bc_is_local_candidate c"
    and "in_step x G S st st'"
  shows "agrees (same_round self self') (in_step x G S) (apply_in_priority_order x om svc ctx self cs ops st)
    (apply_in_priority_order x om svc ctx' self' cs' ops st')"
  using assms(3-6)
proof (induction cs arbitrary: cs' ops st st')
  case Nil
  then show ?case using discard_together [OF assms(1)] by simp
next
  case (Cons c cs)
  then obtain c' cs1 where cs': "cs' = c' # cs1" and key: "candidate_key c = candidate_key c'"
    and rest: "map candidate_key cs = map candidate_key cs1"
    by (cases cs') auto
  have msg: "bc_candidate_msg c = bc_candidate_msg c'" "bc_commit_hash c = bc_commit_hash c'"
    using key by (simp_all add: candidate_key_def)
  have remote: "\<not> bc_is_local_candidate c" "\<not> bc_is_local_candidate c'" using Cons.prems cs' by auto
  have scores: "filter (recorded_by_both self self') (record_winner_scores ops s self ctx cs svc) =
      filter (recorded_by_both self self') (record_winner_scores ops s self' ctx' cs1 svc)" for ops s
    using assms(2) by (intro same_winner_scores rest) (simp add: same_context_def)
  show ?case
    unfolding cs' apply_in_priority_order.simps if_not_P [OF remote(1)] if_not_P [OF remote(2)]
  proof (rule agrees_try [OF incoming_together [OF assms(1) Cons.prems(4) assms(2) msg]], goal_cases)
    case (1 r r' d d')
    from 1(3,4) show ?case
      using Cons.IH [OF rest] Cons.prems(2,3) cs'
      by (cases "(r, r')" rule: same_outcome.cases) (auto simp: same_round_def scores)
  qed
qed

section \<open>Properties\<close>


text \<open>The group as seen from another leaf, and the candidates of two stewards in either order.\<close>

definition demo_same_epoch :: "demo_group \<Rightarrow> demo_group \<Rightarrow> bool" where
  "demo_same_epoch g g' \<longleftrightarrow>
     dg_epoch g = dg_epoch g' \<and> dg_members g = dg_members g' \<and> dg_pending g = dg_pending g'"

definition demo_service_at :: "u32 \<Rightarrow> (demo_group, demo_object) mls_service" where
  "demo_service_at leaf = demo_service\<lparr>ms_group := (ms_group demo_service)\<lparr>dg_own := leaf\<rparr>\<rparr>"

definition demo_received :: "commit_candidate list \<Rightarrow> conversation_queues" where
  "demo_received cs = demo_queues\<lparr>q_commit_round := \<lparr>cb_epoch = 5, cb_candidates = map demo_buffered cs\<rparr>\<rparr>"

lemma demo_same_handshakes: "same_handshakes demo_mls demo_same_epoch (=)"
  unfolding same_handshakes_def
proof (intro conjI allI impI)
  fix g g' :: demo_group and m s s' :: demo_object
  assume g: "demo_same_epoch g g'"
  then have fields: "dg_epoch g = dg_epoch g'" "dg_members g = dg_members g'" "dg_pending g = dg_pending g'"
    by (simp_all add: demo_same_epoch_def)
  show "om_epoch demo_mls g = om_epoch demo_mls g'" "om_group_id demo_mls g = om_group_id demo_mls g'"
    "om_members demo_mls g = om_members demo_mls g'" "om_member_at demo_mls g = om_member_at demo_mls g'"
    by (simp_all add: demo_mls_def fields)
  have "demo_content m g = demo_content m g'" by (simp add: demo_content_def fields)
  then show "agrees (rel_prod (=) (rel_processed_content (=))) demo_same_epoch
      (om_process_message demo_mls m g) (om_process_message demo_mls m g')"
    using g by (simp add: demo_mls_def processed_content.rel_eq)
  show "agrees (=) demo_same_epoch (om_clear_pending_commit demo_mls g) (om_clear_pending_commit demo_mls g')"
    "agrees (=) demo_same_epoch (om_clear_pending_proposals demo_mls g) (om_clear_pending_proposals demo_mls g')"
    by (simp_all add: demo_mls_def demo_same_epoch_def fields)
  assume "s = s'"
  then show "agrees (=) demo_same_epoch (om_store_pending_proposal demo_mls s g) (om_store_pending_proposal demo_mls s' g')"
    "agrees (=) demo_same_epoch (om_merge_staged_commit demo_mls s g) (om_merge_staged_commit demo_mls s' g')"
    by (simp_all add: demo_mls_def demo_same_epoch_def demo_remove_def fields)
qed simp_all


end
