(* ===== verification/Epoch_Liveness.thy ===== *)
theory Epoch_Liveness
  imports Component_Safety Round_Agreement
begin

text \<open>
  That the protocol makes progress: an acceptable candidate settles the epoch, and the ladder of
  election retries climbs to one request for recovery.
\<close>

section \<open>A merged candidate\<close>

lemma terminal_queues:
  assumes "apply_candidate x om svc ctx c st = (Inr (Terminal r s batch), st')"
  shows "\<exists>h e delta. fst st' = snd (finalize_committed_batch h e (store_membership_delta delta (fst st)))"
proof (cases "bc_is_local_candidate c")
  case True
  then show ?thesis
    using assms by (fastforce simp: apply_candidate_def apply_local_candidate_def try_then_eq_Inr split_beta
        Let_def dest: arg_cong [where f = "\<lambda>r. fst (snd r)"])
next
  case False
  then have "apply_incoming_candidate x om svc c ctx st = (Inr (Terminal r s batch), st')"
    using assms by (simp add: apply_candidate_def)
  then show ?thesis
  proof (cases rule: apply_incoming_cases)
    case (merged sender sr acts b mls1 st2 delta st3)
    then have "fst st3 = fst st"
      using on_mls_queues [of "discard_own_commit om" "(fst st, mls1)"]
        on_mls_queues [of "merge_staged_commit om" st2] by simp
    then have "fst st' = snd (finalize_committed_batch (bc_commit_hash c) (rc_current_epoch ctx + 1)
        (store_membership_delta delta (fst st)))"
      using merged(6) by simp
    then show ?thesis by blast
  qed (auto dest: reject_staged_Drop)
qed

lemma first_candidate_round:
  fixes x and om :: "('g, 'o) openmls" and mls :: "('g, 'o) mls_service" and svc and q :: conversation_queues
    and recovery and self
  defines "taken \<equiv> buffer_take (mls_epoch om mls) (q_commit_round q)"
  defines "q' \<equiv> q\<lparr>q_commit_round := snd taken\<rparr>"
  defines "ctx \<equiv> round_snapshot om q' mls svc (mls_epoch om mls) recovery self"
  assumes "rank_applicable_candidates (fst taken) ctx subset_ok = chosen # losers"
    and "apply_candidate x om svc ctx chosen (q', mls) = (Inr (Terminal outcome committer batch), st')"
  shows "finalize_commit_round x om svc recovery subset_ok self (q, mls) =
    (Inr \<lparr>crr_outcome = outcome,
       crr_score_ops = record_winner_scores [] committer self ctx losers svc, crr_committed_batch = batch\<rparr>, st')"
proof -
  have some: "fst taken \<noteq> []"
    using assms(4) by (auto simp: rank_applicable_candidates_def)
  have "apply_in_priority_order x om svc ctx self (chosen # losers) [] (q', mls) =
      (Inr \<lparr>crr_outcome = outcome,
         crr_score_ops = record_winner_scores [] committer self ctx losers svc, crr_committed_batch = batch\<rparr>, st')"
    using assms(5) by (cases "bc_is_local_candidate chosen") (simp_all add: apply_candidate_def)
  then show ?thesis
    using some assms(4) unfolding finalize_commit_round_def Let_def
    by (simp add: split_beta taken_def q'_def ctx_def)
qed


text \<open>A freeze that is over, with the candidate of the epoch steward in the buffer.\<close>

definition demo_due ::
  "(demo_group, demo_object, demo_engine_state, in_memory_peer_score_storage) conversation" where
  "demo_due = demo_frozen\<lparr>cn_now := 5, cn_queues := demo_received [demo_removal_candidate 1 [3]]\<rparr>"

lemma demo_due_round:
  "\<exists>st'. apply_candidate demo_codec demo_mls demo_stewards demo_context
     (demo_buffered (demo_removal_candidate 1 [3]))
     ((cn_queues demo_due)\<lparr>q_commit_round := snd (buffer_take 5 (q_commit_round (cn_queues demo_due)))\<rparr>, demo_service) =
     (Inr (Terminal (Applied ConversationUpdated None) (member_id_of 1) []), st')"
proof -
  let ?r = "apply_candidate demo_codec demo_mls demo_stewards demo_context
     (demo_buffered (demo_removal_candidate 1 [3]))
     ((cn_queues demo_due)\<lparr>q_commit_round := snd (buffer_take 5 (q_commit_round (cn_queues demo_due)))\<rparr>, demo_service)"
  have "fst ?r = Inr (Terminal (Applied ConversationUpdated None) (member_id_of 1) [])" by code_simp
  then show ?thesis by (metis prod.collapse)
qed


section \<open>The retry ladder\<close>

lemma stewards_kept [simp]:
  "cn_stewards (on_queues fq c) = cn_stewards c"
  "cn_stewards (on_timing ft c) = cn_stewards c"
  "cn_stewards (snd (on_service fm c)) = cn_stewards c"
  "cn_stewards (broadcast b c) = cn_stewards c"
  "cn_stewards (emit_event e c) = cn_stewards c"
  "cn_stewards (register_auto_vote p d v c) = cn_stewards c"
  "cn_stewards (register_consensus_timeout p d c) = cn_stewards c"
  by (simp_all add: on_queues_def on_timing_def on_service_def broadcast_def emit_event_def
      register_auto_vote_def register_consensus_timeout_def split: prod.split sum.split)

lemma stewards_try:
  assumes "cn_stewards (snd r) = svc" and "\<And>v d. cn_stewards d = svc \<Longrightarrow> cn_stewards (snd (k v d)) = svc"
  shows "cn_stewards (snd (try_then r k)) = svc"
  using assms by (cases r; cases "fst r") auto

lemma stewards_proposing [simp]:
  "cn_stewards (snd (send_app_message E msg c)) = cn_stewards c"
  "cn_stewards (snd (submit_proposal E request p c)) = cn_stewards c"
  "cn_stewards (snd (initiate_proposal E request cv c)) = cn_stewards c"
  "cn_stewards (snd (initiate_steward_election E recovery c)) = cn_stewards c"
  "cn_stewards (snd (request_recovery E c)) = cn_stewards c"
proof -
  show send: "cn_stewards (snd (send_app_message E msg c)) = cn_stewards c" for msg c
    unfolding send_app_message_def by (rule stewards_try) simp_all
  have submit: "cn_stewards (snd (submit_proposal E request p c)) = cn_stewards c" for p c request
    unfolding submit_proposal_def by (rule stewards_try) simp_all
  then show "cn_stewards (snd (submit_proposal E request p c)) = cn_stewards c" .
  show initiate: "cn_stewards (snd (initiate_proposal E request cv c)) = cn_stewards c" for request cv c
  proof (cases "check_proposal_allowed E c (proposal_kind_of request)")
    case (Inr voters)
    then show ?thesis
      unfolding initiate_proposal_def Let_def
      by (cases cv) (auto simp: send submit split_beta intro!: stewards_try)
  qed (simp add: initiate_proposal_def)
  show "cn_stewards (snd (initiate_steward_election E recovery c)) = cn_stewards c"
    by (auto simp: initiate_steward_election_def Let_def initiate split: sum.split election_decision.split)
  show "cn_stewards (snd (request_recovery E c)) = cn_stewards c"
    by (auto simp: request_recovery_def initiate split: sum.split)
qed

definition bumped :: "('g, 'o, 'c, 's) conversation \<Rightarrow> ('g, 'o, 'c, 's) conversation" where
  "bumped c = c\<lparr>cn_stewards := bump_retry (cn_stewards c)\<rparr>"

definition climb ::
  "('g, 'o, 'c, 's) environment \<Rightarrow> ('g, 'o, 'c, 's) conversation \<Rightarrow> ('g, 'o, 'c, 's) conversation" where
  "climb E c = snd (advance_election_retry E c)"

lemma climb_stewards [simp]: "cn_stewards (climb E c) = bump_retry (cn_stewards c)"
  by (simp add: climb_def advance_election_retry_def Let_def split_beta split: sum.split)

lemma climb_exhausted:
  assumes "svc_max_retries (cn_stewards c) < svc_next_election_round (cn_stewards (bumped c))"
  shows "climb E c =
    (if is_deadlock_proposer E (bumped c)
     then case request_recovery E (bumped c) of
            (Inl e, d) \<Rightarrow> emit_event (ErrorEvent ''Reelection stuck'' (Displayed e)) d
          | (Inr _, d) \<Rightarrow> d
     else bumped c)"
  using assms by (auto simp: climb_def advance_election_retry_def Let_def bumped_def bump_retry_def split_beta
      split: sum.split)

lemma climb_tries:
  assumes "\<not> svc_max_retries (cn_stewards c) < svc_next_election_round (cn_stewards (bumped c))"
  shows "climb E c = snd (initiate_steward_election E True (bumped c))"
  using assms by (simp add: climb_def advance_election_retry_def Let_def bumped_def bump_retry_def)

lemma climbs_stewards:
  assumes "unat (svc_next_election_round (cn_stewards c)) + k < 2 ^ 32"
  shows "cn_stewards ((climb E ^^ k) c) =
    (cn_stewards c)\<lparr>svc_next_election_round := svc_next_election_round (cn_stewards c) + word_of_nat k\<rparr>"
  using assms
proof (induction k)
  case (Suc k)
  let ?r = "svc_next_election_round (cn_stewards c)"
  have "unat (?r + word_of_nat k) = unat ?r + k"
    using Suc.prems by (simp add: unat_word_ariths unat_of_nat)
  then have "unat (saturating_add_u32 (?r + word_of_nat k) 1) = unat (?r + word_of_nat (Suc k))"
    using Suc.prems by (simp add: unat_saturating_add_u32 unat_word_ariths unat_of_nat)
  then have "saturating_add_u32 (?r + word_of_nat k) 1 = ?r + word_of_nat (Suc k)"
    by (simp only: unsigned_word_eqI)
  then show ?case using Suc by (simp add: bump_retry_def)
qed simp

lemma climbs_approved: "approved_within A c \<Longrightarrow> approved_within A ((climb E ^^ k) c)"
  by (induction k) (simp_all add: climb_def)

lemma climbs_round:
  assumes "unat (svc_next_election_round (cn_stewards c)) + k < 2 ^ 32"
  shows "unat (svc_next_election_round (cn_stewards ((climb E ^^ k) c))) =
      unat (svc_next_election_round (cn_stewards c)) + k"
    and "svc_max_retries (cn_stewards ((climb E ^^ k) c)) = svc_max_retries (cn_stewards c)"
  using climbs_stewards [OF assms, of E] assms by (simp_all add: unat_word_ariths unat_of_nat)

lemma climbs_try:
  assumes "k < unat (svc_max_retries (cn_stewards c)) - unat (svc_next_election_round (cn_stewards c))"
    and "unat (svc_max_retries (cn_stewards c)) + 1 < 2 ^ 32"
  shows "(climb E ^^ Suc k) c = snd (initiate_steward_election E True (bumped ((climb E ^^ k) c)))"
proof -
  have less: "unat (svc_next_election_round (cn_stewards c)) + k < 2 ^ 32" using assms by linarith
  have "unat (svc_next_election_round (cn_stewards (bumped ((climb E ^^ k) c)))) =
      unat (svc_next_election_round (cn_stewards c)) + Suc k"
    using climbs_round(1) [OF less, of E] assms by (simp add: bumped_def bump_retry_def unat_saturating_add_u32)
  then show ?thesis
    using assms climbs_round(2) [OF less, of E] by (simp add: climb_tries word_less_nat_alt)
qed

lemma one_deadlock_proposer:
  assumes "\<exists>m\<in>set (conv_members E c). \<not> has_approved_removal (cn_queues c) m"
  shows "\<exists>m\<in>set (conv_members E c). \<not> has_approved_removal (cn_queues c) m \<and>
    (\<forall>self. is_deadlock_proposer E (bumped (c\<lparr>cn_self_member_id := self\<rparr>)) \<longleftrightarrow> self = m)"
proof -
  let ?svc = "bump_retry (cn_stewards c)" and ?el = "\<lambda>m. m \<in> set (conv_members E c) \<and> \<not> has_approved_removal (cn_queues c) m"
  let ?seq = "authority_sequence ?svc (conv_members E c) ?el"
  have stay: "set ?seq = {m. ?el m}" unfolding set_authority_sequence by auto
  then have some: "?seq \<noteq> []" using assms by auto
  define p where "p = ?seq ! (unat (svc_next_election_round ?svc) mod length ?seq)"
  have "p \<in> set ?seq" using some by (simp add: p_def)
  then have "p \<in> set (conv_members E c)" "\<not> has_approved_removal (cn_queues c) p" using stay by auto
  moreover have "responsible_proposer ?svc (svc_next_election_round ?svc) (conv_members E c) ?el = Some p"
    using some unfolding responsible_proposer_def Let_def p_def by simp
  then have "is_deadlock_proposer E (bumped (c\<lparr>cn_self_member_id := self\<rparr>)) \<longleftrightarrow> self = p" for self
    by (auto simp: is_deadlock_proposer_def Let_def bumped_def conv_members_def)
  ultimately show ?thesis by blast
qed

text \<open>
  C29. Silent elections end in one request for recovery: from round \<open>r\<close> the ladder tries every
  round up to the limit, and the next silence takes it over the limit. Among members that see the
  same state, exactly one is then the one to ask for recovery, and it is a member whose removal has
  not been approved; every other member only counts.
\<close>

theorem silent_elections_end_in_one_request:
  fixes E :: "('g, 'o, 'c, 's) environment" and c :: "('g, 'o, 'c, 's) conversation"
  defines "r \<equiv> svc_next_election_round (cn_stewards c)" and "limit \<equiv> svc_max_retries (cn_stewards c)"
  defines "brink \<equiv> (climb E ^^ (unat limit - unat r)) c"
  assumes "r \<le> limit" and "unat limit + 1 < 2 ^ 32"
    and "\<exists>m\<in>set (conv_members E brink). \<not> has_approved_removal (cn_queues c) m"
  shows "(\<forall>k<unat limit - unat r.
       (climb E ^^ Suc k) c = snd (initiate_steward_election E True (bumped ((climb E ^^ k) c))) \<and>
       unat (svc_next_election_round (cn_stewards ((climb E ^^ Suc k) c))) = unat r + Suc k) \<and>
    limit < svc_next_election_round (cn_stewards (climb E brink)) \<and>
    (\<exists>m\<in>set (conv_members E brink). \<not> has_approved_removal (cn_queues brink) m \<and>
       (\<forall>self. is_deadlock_proposer E (bumped (brink\<lparr>cn_self_member_id := self\<rparr>)) \<longleftrightarrow> self = m)) \<and>
    (\<not> is_deadlock_proposer E (bumped brink) \<longrightarrow> climb E brink = bumped brink) \<and>
    (\<forall>d. is_deadlock_proposer E (bumped brink) \<and> request_recovery E (bumped brink) = (Inr (), d) \<longrightarrow>
       climb E brink = d)"
proof -
  let ?n = "unat limit - unat r"
  have le: "unat r \<le> unat limit" using assms(4) by (simp add: word_le_nat_alt)
  have round: "unat (svc_next_election_round (cn_stewards ((climb E ^^ k) c))) = unat r + k" if "k \<le> ?n" for k
    using that le assms(5) unfolding r_def by (intro climbs_round(1)) linarith
  have "unat (svc_next_election_round (cn_stewards (climb E brink))) = unat limit + 1"
    using round [of ?n] le assms(5) by (simp add: brink_def bump_retry_def unat_saturating_add_u32)
  then have over: "limit < svc_next_election_round (cn_stewards (climb E brink))"
    by (simp add: word_less_nat_alt)
  moreover have "svc_max_retries (cn_stewards brink) = limit"
    unfolding brink_def limit_def using le assms(5) by (intro climbs_round(2)) (simp add: r_def limit_def)
  ultimately have exhausted: "svc_max_retries (cn_stewards brink) < svc_next_election_round (cn_stewards (bumped brink))"
    by (simp add: bumped_def)
  have "approved_within (set (q_approved_proposals (cn_queues c))) brink"
    unfolding brink_def by (rule climbs_approved) (simp add: approved_within_def)
  then have standing: "\<exists>m\<in>set (conv_members E brink). \<not> has_approved_removal (cn_queues brink) m"
    using assms(6) by (auto simp: approved_within_def has_approved_removal_def list_ex_iff imap_values_def)
  have "\<not> is_deadlock_proposer E (bumped brink) \<Longrightarrow> climb E brink = bumped brink"
    and "request_recovery E (bumped brink) = (Inr (), d) \<Longrightarrow> is_deadlock_proposer E (bumped brink) \<Longrightarrow>
      climb E brink = d" for d
    by (simp_all add: climb_exhausted [OF exhausted])
  moreover have "(climb E ^^ Suc k) c = snd (initiate_steward_election E True (bumped ((climb E ^^ k) c)))"
    and "unat (svc_next_election_round (cn_stewards ((climb E ^^ Suc k) c))) = unat r + Suc k" if "k < ?n" for k
    using that assms(5) round [of "Suc k"] unfolding r_def limit_def by (blast intro: climbs_try, simp only: Suc_le_eq)
  ultimately show ?thesis using over one_deadlock_proposer [OF standing] by blast
qed

text \<open>Member 3 is the proposer of none of the rounds up to the limit, and of the request after them.\<close>

definition demo_silent ::
  "u32 \<Rightarrow> (demo_group, demo_object, demo_engine_state, in_memory_peer_score_storage) conversation" where
  "demo_silent r = demo_conversation\<lparr>cn_self_member_id := member_id_of 3,
     cn_stewards := demo_stewards\<lparr>svc_next_election_round := r\<rparr>\<rparr>"

lemma demo_silent_skips:
  assumes "r = 1 \<or> r = 2"
  shows "initiate_steward_election demo_env True (demo_silent r) = (Inr (), demo_silent r)"
proof -
  let ?e = "\<lambda>c :: (demo_group, demo_object, demo_engine_state, in_memory_peer_score_storage) conversation.
    propose_election (env_x demo_env) (cn_stewards c) (conv_epoch demo_env c)
      (filter (\<lambda>m. is_settled (cn_queues c) m (conv_epoch demo_env c)) (conv_members demo_env c))
      (cn_self_member_id c) (\<lambda>m. \<not> (True \<and> has_approved_removal (cn_queues c) m)) True"
  have "case ?e (demo_silent r) of Inr (Skip _) \<Rightarrow> True | _ \<Rightarrow> False"
    using assms by (elim disjE; hypsubst; code_simp)
  then obtain reason where "?e (demo_silent r) = Inr (Skip reason)"
    by (cases "?e (demo_silent r)") (auto split: election_decision.splits)
  then show ?thesis by (simp add: initiate_steward_election_def Let_def)
qed

lemma demo_silent_climbs: "(climb demo_env ^^ 2) (demo_silent 0) = demo_silent 2"
proof -
  have "bumped (demo_silent r) = demo_silent (saturating_add_u32 r 1)" for r
    by (simp add: bumped_def demo_silent_def bump_retry_def)
  moreover have "svc_max_retries (cn_stewards (demo_silent r)) = 2"
    and "svc_next_election_round (cn_stewards (demo_silent r)) = r" for r
    by (simp_all add: demo_silent_def demo_stewards_def)
  ultimately have "climb demo_env (demo_silent 0) = demo_silent 1" "climb demo_env (demo_silent 1) = demo_silent 2"
    by (simp_all add: climb_tries demo_silent_skips saturating_add_u32_def)
  then show ?thesis by (simp add: numeral_2_eq_2)
qed

theorem silent_elections_end_in_one_request_witness:
  "(climb demo_env ^^ 2) (demo_silent 0) = demo_silent 2 \<and>
   (\<exists>m\<in>set (conv_members demo_env (demo_silent 2)).
      \<forall>self. is_deadlock_proposer demo_env (bumped ((demo_silent 2)\<lparr>cn_self_member_id := self\<rparr>)) \<longleftrightarrow> self = m)"
proof -
  have "svc_next_election_round (cn_stewards (demo_silent 0)) = 0" "svc_max_retries (cn_stewards (demo_silent 0)) = 2"
    by (simp_all add: demo_silent_def demo_stewards_def)
  moreover have "\<exists>m\<in>set (conv_members demo_env (demo_silent 2)).
      \<not> has_approved_removal (cn_queues (demo_silent 0)) m"
    by code_simp
  ultimately show ?thesis
    using silent_elections_end_in_one_request [of "demo_silent 0" demo_env] demo_silent_climbs by auto
qed

end
