(* ===== verification/Author_Agreement.thy ===== *)
theory Author_Agreement
  imports Epoch_Liveness
begin

text \<open>
  The author of a commit and a member that receives it. The author merges the commit its own group
  holds pending, without staging or validating it; the other stages, checks and merges the one on
  the wire. When both merge, they end the round alike.
\<close>

section \<open>The MLS hypothesis\<close>

text \<open>
  \<open>G\<close> relates the groups of two members in one epoch, whatever either holds pending; \<open>S\<close> relates a
  commit its author holds pending to the same commit as another member staged it. Handling
  messages and dropping pending work does not leave the epoch, and merging one commit on both
  sides ends in one epoch.
\<close>

definition epoch_mates ::
  "('g, 'o) openmls \<Rightarrow> ('g \<Rightarrow> 'g \<Rightarrow> bool) \<Rightarrow> ('o \<Rightarrow> 'o \<Rightarrow> bool) \<Rightarrow> bool" where
  "epoch_mates om G S \<longleftrightarrow>
     (\<forall>g g'. G g g' \<longrightarrow>
        om_epoch om g = om_epoch om g' \<and> om_members om g = om_members om g' \<and>
        om_member_at om g = om_member_at om g' \<and>
        (\<forall>m. G g (snd (om_process_message om m g'))) \<and>
        (\<forall>p. G g (snd (om_store_pending_proposal om p g'))) \<and>
        G g (snd (om_clear_pending_commit om g')) \<and> G g (snd (om_clear_pending_proposals om g')) \<and>
        (\<forall>s s' h h'. om_pending_commit om g = Some s \<and> S s s' \<and>
           om_merge_pending_commit om g = (Inr (), h) \<and> om_merge_staged_commit om s' g' = (Inr (), h') \<longrightarrow>
           G h h')) \<and>
     (\<forall>s s'. S s s' \<longrightarrow> om_staged_removed_leaves om s = om_staged_removed_leaves om s')"

text \<open>What \<open>receiver\<close> stages from the candidate is what the author holds pending.\<close>

definition announces ::
  "('g, 'o) openmls \<Rightarrow> ('o \<Rightarrow> 'o \<Rightarrow> bool) \<Rightarrow> ('g, 'o) mls_service \<Rightarrow> commit_candidate \<Rightarrow>
   ('g, 'o) mls_service \<Rightarrow> bool" where
  "announces om S author cand receiver \<longleftrightarrow>
     (\<forall>sender sr acts mls1 s'.
        stage_remote_commit om (cc_mls_proposals cand) (cc_commit_message cand) receiver =
          (Inr (Staged sender sr acts), mls1) \<and> ms_pending_staged_commit mls1 = Some s' \<longrightarrow>
        (\<exists>s. om_pending_commit om (ms_group author) = Some s \<and> S s s'))"

lemma group_after [simp]: "ms_group (snd (on_group wrap f mls)) = snd (f (ms_group mls))"
  by (simp add: on_group_def split: prod.split sum.split)

lemma mates_try:
  assumes "G g (ms_group (snd r))"
    and "\<And>v d. r = (Inr v, d) \<Longrightarrow> G g (ms_group d) \<Longrightarrow> G g (ms_group (snd (k v d)))"
  shows "G g (ms_group (snd (try_then r k)))"
proof (cases r)
  case (Pair a d)
  with assms show ?thesis by (cases a) auto
qed

lemma mates_keep:
  assumes "epoch_mates om G S" and "G g g'"
  shows "G g (snd (om_process_message om m g'))" "G g (snd (om_store_pending_proposal om p g'))"
    "G g (snd (om_clear_pending_commit om g'))" "G g (snd (om_clear_pending_proposals om g'))"
  using assms unfolding epoch_mates_def by blast+

lemma mates_views:
  assumes "epoch_mates om G S" and "G (ms_group mls) (ms_group mls')"
  shows "populated_leaves om mls = populated_leaves om mls'" "mls_epoch om mls = mls_epoch om mls'"
    "mls_members om mls = mls_members om mls'" "mls_delta om mls b r = mls_delta om mls' b r"
    "S s s' \<Longrightarrow> removed_members_of om mls s = removed_members_of om mls' s'"
proof -
  have "om_members om (ms_group mls) = om_members om (ms_group mls')"
    "om_epoch om (ms_group mls) = om_epoch om (ms_group mls')"
    "om_member_at om (ms_group mls) = om_member_at om (ms_group mls')"
    "S s s' \<Longrightarrow> om_staged_removed_leaves om s = om_staged_removed_leaves om s'"
    using assms unfolding epoch_mates_def by blast+
  then show "populated_leaves om mls = populated_leaves om mls'" "mls_epoch om mls = mls_epoch om mls'"
    "mls_members om mls = mls_members om mls'" "mls_delta om mls b r = mls_delta om mls' b r"
    "S s s' \<Longrightarrow> removed_members_of om mls s = removed_members_of om mls' s'"
    by (simp_all add: populated_leaves_def mls_epoch_def mls_members_def mls_delta_def removed_members_of_def)
qed

lemma mates_discard:
  assumes "epoch_mates om G S" and "G g (ms_group mls)"
  shows "G g (ms_group (snd (discard_own_commit om mls)))"
  unfolding discard_own_commit_def
  by (rule mates_try) (simp_all add: mates_keep [OF assms(1)] assms(2))

lemma mates_stage_proposals:
  assumes "epoch_mates om G S" and "G g (ms_group mls)"
  shows "G g (ms_group (snd (stage_proposals om ps senders mls)))"
  using assms(2)
proof (induction ps arbitrary: senders mls)
  case (Cons b bs)
  show ?case
  proof (cases "protocol_message_of om b")
    case (Inr m)
    have store: "G g (ms_group (snd (try_then (on_group MlsStorage (om_store_pending_proposal om p) d)
        (\<lambda>_ d'. stage_proposals om bs ss d'))))" if "G g (ms_group d)" for p d ss
      by (rule mates_try) (simp_all add: mates_keep [OF assms(1)] Cons.IH that)
    show ?thesis
      unfolding stage_proposals.simps Inr sum.case
      by (rule mates_try) (simp_all add: mates_keep [OF assms(1)] Cons.prems store split_beta
          split: mls_sender.split processed_content.split)
  qed (use Cons.prems in simp)
qed simp

lemma mates_stage:
  assumes "epoch_mates om G S" and "G g (ms_group mls)"
  shows "G g (ms_group (snd (stage_remote_commit om ps cm mls)))"
  unfolding stage_remote_commit_def
proof (rule mates_try, rule mates_stage_proposals [OF assms], goal_cases)
  case (1 senders d)
  have read: "G g (ms_group (snd (try_then (on_group ProcessMessage (om_process_message om m) d) k)))"
    if "\<And>v e. G g (ms_group e) \<Longrightarrow> G g (ms_group (snd (k v e)))"
    for m and k :: "_ \<Rightarrow> _ \<Rightarrow> (mls_error + staged_candidate_result) \<times> _"
    by (rule mates_try) (simp_all add: mates_keep [OF assms(1)] 1(2) that)
  show ?case
    using 1(2) by (cases senders; cases "protocol_message_of om cm")
      (auto simp: split_beta Let_def intro!: read split: mls_sender.split processed_content.split)
qed

section \<open>Both merge\<close>

lemma pending_after_discard:
  "ms_pending_staged_commit (snd (discard_own_commit om mls)) = ms_pending_staged_commit mls"
proof -
  have keep: "ms_pending_staged_commit (snd (on_group wrap f m)) = ms_pending_staged_commit m" for wrap f m
    by (simp add: on_group_def split: prod.split sum.split)
  show ?thesis
    using keep [of MlsStorage "om_clear_pending_commit om" mls]
    by (cases "on_group MlsStorage (om_clear_pending_commit om) mls";
        cases "fst (on_group MlsStorage (om_clear_pending_commit om) mls)") (auto simp: discard_own_commit_def keep)
qed

lemma merges_alike:
  assumes "epoch_mates om G S" and "G (ms_group mls) (ms_group mls')"
    and "om_pending_commit om (ms_group mls) = Some s" and "ms_pending_staged_commit mls' = Some s'" and "S s s'"
    and "merge_own_commit om mls = (Inr delta, d)" and "merge_staged_commit om mls' = (Inr delta', d')"
  shows "delta = delta' \<and> G (ms_group d) (ms_group d') \<and> ms_pending_staged_commit d' = None"
proof -
  obtain h h' where own: "om_merge_pending_commit om (ms_group mls) = (Inr (), h)"
    and other: "om_merge_staged_commit om s' (ms_group mls') = (Inr (), h')"
    and d: "d = mls\<lparr>ms_group := h\<rparr>" and d': "d' = mls'\<lparr>ms_pending_staged_commit := None, ms_group := h'\<rparr>"
    and delta: "delta = mls_delta om d (populated_leaves om mls) (removed_members_of om mls s)"
    and delta': "delta' = mls_delta om d' (populated_leaves om (mls'\<lparr>ms_pending_staged_commit := None\<rparr>))
        (removed_members_of om (mls'\<lparr>ms_pending_staged_commit := None\<rparr>) s')"
    using assms(3,4,6,7) by (auto simp: merge_own_commit_def merge_staged_commit_def Let_def try_then_eq_Inr
        on_group_def split: prod.splits sum.splits)
  have G: "G h h'" using assms(1-3,5) own other unfolding epoch_mates_def by blast
  then have "mls_delta om d b r = mls_delta om d' b r" for b r
    using mates_views(4) [OF assms(1), of d d'] by (simp add: d d')
  moreover have "populated_leaves om mls = populated_leaves om (mls'\<lparr>ms_pending_staged_commit := None\<rparr>)"
    "removed_members_of om mls s = removed_members_of om (mls'\<lparr>ms_pending_staged_commit := None\<rparr>) s'"
    using mates_views(1,5) [OF assms(1), of mls "mls'\<lparr>ms_pending_staged_commit := None\<rparr>"] assms(2,5) by simp_all
  ultimately show ?thesis using G by (simp add: delta delta' d d')
qed

lemma author_and_receiver_merge_alike:
  assumes "epoch_mates om G S" and "G (ms_group mls) (ms_group mls')"
    and "approved_actions x q = approved_actions x q'" and "q_urgent_commit_target q = q_urgent_commit_target q'"
    and "announces om S mls (bc_candidate_msg c) mls'"
    and "bc_candidate_msg c' = bc_candidate_msg c"
    and "apply_local_candidate om c ctx (q, mls) = (Inr r, st)"
    and "apply_incoming_candidate x om svc c' ctx' (q', mls') = (Inr (Terminal outcome committer batch), st')"
  obtains o1 b1 where "r = Terminal o1 committer b1" "o1 \<noteq> NoCandidate" "outcome \<noteq> NoCandidate"
    "G (ms_group (snd st)) (ms_group (snd st'))" "approved_actions x (fst st) = approved_actions x (fst st')"
    "q_urgent_commit_target (fst st) = q_urgent_commit_target (fst st')"
proof -
  obtain delta mls2 where own: "merge_own_commit om mls = (Inr delta, mls2)"
    using assms(7) by (cases "merge_own_commit om mls"; cases "fst (merge_own_commit om mls)")
      (auto simp: apply_local_candidate_def on_mls_def)
  then have author: "\<exists>o1 b1 h. o1 \<noteq> NoCandidate \<and> r = Terminal o1 (cc_steward_member_id (bc_candidate_msg c)) b1 \<and>
      fst st = snd (finalize_committed_batch h (rc_current_epoch ctx + 1) (store_membership_delta delta q)) \<and> snd st = mls2"
    using assms(7) by (auto simp: apply_local_candidate_def on_mls_def split_beta Let_def)
  from assms(8) show thesis
  proof (cases rule: apply_incoming_cases)
    case (merged sender sr acts batch' mls1 st2 delta' st3)
    note staged = stage_candidate_StagedD [OF merged(1)]
    have mls1: "G (ms_group mls) (ms_group mls1)"
      using mates_stage [OF assms(1,2)] staged(1) assms(6) by (metis snd_conv)
    have st2: "fst st2 = q'" "snd st2 = snd (discard_own_commit om mls1)"
      and merge: "merge_staged_commit om (snd st2) = (Inr delta', snd st3)" "fst st3 = q'"
      using merged(4,5) by (auto simp: on_mls_def split: prod.splits sum.splits)
    obtain s' where s': "ms_pending_staged_commit (snd st2) = Some s'"
      using merge(1) by (cases "ms_pending_staged_commit (snd st2)") (simp_all add: merge_staged_commit_def)
    then have "ms_pending_staged_commit mls1 = Some s'" by (simp add: st2 pending_after_discard)
    then obtain s where s: "om_pending_commit om (ms_group mls) = Some s" "S s s'"
      using assms(5,6) staged(1) unfolding announces_def by fastforce
    have "G (ms_group mls) (ms_group (snd st2))"
      unfolding st2 by (rule mates_discard [OF assms(1) mls1])
    from merges_alike [OF assms(1) this s(1) s' s(2) own merge(1)]
    have alike: "delta = delta'" "G (ms_group mls2) (ms_group (snd st3))" by auto
    obtain h' where "fst st' = snd (finalize_committed_batch h' (rc_current_epoch ctx' + 1)
        (store_membership_delta delta' q'))"
      using merged(6) merge(2) by (metis snd_conv)
    moreover have "committer = cc_steward_member_id (bc_candidate_msg c)" "outcome \<noteq> NoCandidate"
      using merged(7) staged(2) assms(6) by simp_all
    ultimately show thesis
      using author alike assms(3,4) merged(8) that by (auto simp: merged_work)
  qed (use assms(8) in \<open>auto dest: reject_staged_Drop\<close>)
qed

section \<open>Properties\<close>


text \<open>The steward at leaf 1 holds its removal of leaf 3 pending; the member at leaf 0 received it.\<close>

definition demo_epoch_mates :: "demo_group \<Rightarrow> demo_group \<Rightarrow> bool" where
  "demo_epoch_mates g g' \<longleftrightarrow> dg_epoch g = dg_epoch g' \<and> dg_members g = dg_members g'"

definition demo_author :: "(demo_group, demo_object) mls_service" where
  "demo_author = demo_service\<lparr>ms_group :=
     (ms_group demo_service)\<lparr>dg_own := 1, dg_pending := [3], dg_commit := Some [3]\<rparr>\<rparr>"

definition demo_own_candidate :: buffered_commit_candidate where
  "demo_own_candidate = (demo_buffered (demo_removal_candidate 1 [3]))\<lparr>bc_is_local_candidate := True\<rparr>"

definition demo_authored :: conversation_queues where
  "demo_authored = demo_queues\<lparr>q_commit_round := \<lparr>cb_epoch = 5, cb_candidates = [demo_own_candidate]\<rparr>\<rparr>"

lemma demo_mates: "epoch_mates demo_mls demo_epoch_mates (=)"
  by (auto simp: epoch_mates_def demo_epoch_mates_def demo_mls_def demo_remove_def split: option.splits)

lemma demo_announced:
  "announces demo_mls (=) demo_author (demo_removal_candidate 1 [3]) demo_service"
proof -
  let ?r = "stage_remote_commit demo_mls (cc_mls_proposals (demo_removal_candidate 1 [3]))
      (cc_commit_message (demo_removal_candidate 1 [3])) demo_service"
  have "ms_pending_staged_commit (snd ?r) = om_pending_commit demo_mls (ms_group demo_author)" by code_simp
  then show ?thesis by (auto simp: announces_def)
qed


end
