(* ===== verification/Takeover.thy ===== *)
theory Takeover
  imports Component_Safety
begin

text \<open>
  The takeover of buffered requests: a backup steward proposes what the epoch steward
  has left unproposed past the takeover window.
\<close>

section \<open>One sponsored request\<close>

definition disarmed :: "('g, 'o, 'c, 's) conversation \<Rightarrow> ('g, 'o, 'c, 's) conversation" where
  "disarmed c = on_timing (\<lambda>t. t\<lparr>tm_buffered_propose_anchor := None\<rparr>) c"

definition sponsor ::
  "('g, 'o, 'c, 's) environment \<Rightarrow> conversation_update_request \<Rightarrow> ('g, 'o, 'c, 's) conversation \<Rightarrow>
   ('g, 'o, 'c, 's) conversation" where
  "sponsor E request c = snd (initiate_proposal E request CreatorDeferred c)"

text \<open>The service opens a session for the request, under an id that is not being voted on.\<close>

definition opens_session ::
  "('g, 'o, 'c, 's) environment \<Rightarrow> conversation_update_request \<Rightarrow> ('g, 'o, 'c, 's) conversation \<Rightarrow> bool" where
  "opens_session E request c \<longleftrightarrow>
     (\<exists>p published s. ce_create_proposal (env_ce E) (cn_id c) (x_encode_request (env_x E) request)
        (cn_self_member_id c) (word_of_nat (length (conv_members E c)))
        (duration_as_secs (cfg_proposal_expiration (cn_config c))) (cfg_liveness_criteria_yes (cn_config c))
        (cfg_consensus_timeout (cn_config c)) (now_secs c) (cn_consensus c) = (Inr p, published, s) \<and>
      \<not> is_voting (cn_queues c) (cp_proposal_id p))"

lemma active_targets_track:
  "active_proposal_targets x q \<subseteq> active_proposal_targets x (track_voting_proposal x pid r q)"
  "\<not> is_voting q pid \<Longrightarrow> in_flight_target x r = Some t \<Longrightarrow>
     t \<in> active_proposal_targets x (track_voting_proposal x pid r q)"
  by (auto simp: active_proposal_targets_def track_voting_proposal_def is_voting_def imap_insert_new
      imap_values_def map_filter_simps map_filter_def)

lemma queues_kept [simp]:
  "cn_queues (snd (send_app_message E msg c)) = cn_queues c"
  "cn_queues (snd (submit_proposal E request p c)) = cn_queues c"
  by (auto simp: send_app_message_def submit_proposal_def try_then_def on_service_def on_engine_def
      outcome_publish_def broadcast_def split: prod.split sum.split)

lemma sponsor_submitted:
  assumes "\<not> is_emergency (proposal_kind_of request)" and "check_proposal_allowed E c (proposal_kind_of request) = Inr n"
    and "\<not> (\<exists>t. in_flight_target (env_x E) request = Some t \<and> t \<in> active_proposal_targets (env_x E) (cn_queues c))"
    and "submit_proposal E request \<lparr>pp_expected_voters = n, pp_proposal_expiration = cfg_proposal_expiration (cn_config c),
      pp_consensus_timeout = cfg_consensus_timeout (cn_config c),
      pp_liveness_criteria_yes = cfg_liveness_criteria_yes (cn_config c)\<rparr> c = (Inr (pid, msg), d)"
  shows "cn_queues (sponsor E request c) = track_voting_proposal (env_x E) pid request (cn_queues c)"
proof -
  let ?e = "register_consensus_timeout pid (cfg_consensus_timeout (cn_config c))
    (on_queues (track_voting_proposal (env_x E) pid request) d)"
  have d: "cn_queues d = cn_queues c"
    using queues_kept(2) assms(4) by (metis snd_conv)
  obtain a e where send: "send_app_message E msg ?e = (a, e)" by (cases "send_app_message E msg ?e")
  then have "cn_queues e = cn_queues ?e"
    using queues_kept(1) by (metis snd_conv)
  moreover have "cn_queues (sponsor E request c) = cn_queues e"
    using assms send by (cases a) (auto simp: sponsor_def initiate_proposal_def Let_def register_auto_vote_def
        on_timing_def emit_event_def split: option.split)
  ultimately have "cn_queues (sponsor E request c) = cn_queues ?e" by simp
  then show ?thesis using d by (simp add: register_consensus_timeout_def on_timing_def on_queues_def)
qed

lemma sponsor_queues:
  assumes "\<not> is_emergency (proposal_kind_of request)"
  shows "cn_queues (sponsor E request c) = cn_queues c \<or>
    (\<exists>pid. cn_queues (sponsor E request c) = track_voting_proposal (env_x E) pid request (cn_queues c))"
proof (cases "\<exists>t. in_flight_target (env_x E) request = Some t \<and> t \<in> active_proposal_targets (env_x E) (cn_queues c)")
  case False
  show ?thesis
  proof (cases "check_proposal_allowed E c (proposal_kind_of request)")
    case (Inl e)
    then show ?thesis by (simp add: sponsor_def initiate_proposal_def Let_def)
  next
    case (Inr n)
    let ?s = "submit_proposal E request \<lparr>pp_expected_voters = n, pp_proposal_expiration = cfg_proposal_expiration (cn_config c),
      pp_consensus_timeout = cfg_consensus_timeout (cn_config c),
      pp_liveness_criteria_yes = cfg_liveness_criteria_yes (cn_config c)\<rparr> c"
    show ?thesis
    proof (cases "fst ?s")
      case (Inl e)
      then have "sponsor E request c = snd ?s \<or> sponsor E request c = c"
        using Inr by (cases ?s) (auto simp: sponsor_def initiate_proposal_def Let_def)
      then show ?thesis by auto
    next
      case (Inr r)
      then have "?s = (Inr (fst r, snd r), snd ?s)" by (simp add: prod_eq_iff)
      then show ?thesis using sponsor_submitted [OF assms] \<open>check_proposal_allowed _ _ _ = Inr n\<close> False by blast
    qed
  qed
qed (auto simp: sponsor_def initiate_proposal_def)

lemma sponsor_opens:
  assumes "\<not> is_emergency (proposal_kind_of request)" and "in_flight_target (env_x E) request = Some t"
    and "cn_state c = Working" and "\<not> has_active_emergency (cn_queues c)" and "opens_session E request c"
  shows "t \<in> active_proposal_targets (env_x E) (cn_queues (sponsor E request c))"
proof (cases "t \<in> active_proposal_targets (env_x E) (cn_queues c)")
  case True
  then show ?thesis using assms(2) by (simp add: sponsor_def initiate_proposal_def)
next
  case False
  have allowed: "check_proposal_allowed E c (proposal_kind_of request) = Inr (word_of_nat (length (conv_members E c)))"
    using assms(3,4) by (simp add: check_proposal_allowed_def partial_freeze_blocks_def)
  from assms(5) obtain p d where
    "submit_proposal E request \<lparr>pp_expected_voters = word_of_nat (length (conv_members E c)),
      pp_proposal_expiration = cfg_proposal_expiration (cn_config c),
      pp_consensus_timeout = cfg_consensus_timeout (cn_config c),
      pp_liveness_criteria_yes = cfg_liveness_criteria_yes (cn_config c)\<rparr> c =
      (Inr (cp_proposal_id p, Some (ProposalPayload p)), d)" and fresh: "\<not> is_voting (cn_queues c) (cp_proposal_id p)"
    by (auto simp: opens_session_def submit_proposal_def on_engine_def)
  then have "cn_queues (sponsor E request c) = track_voting_proposal (env_x E) (cp_proposal_id p) request (cn_queues c)"
    using sponsor_submitted [OF assms(1) allowed] False assms(2) by simp
  then show ?thesis using active_targets_track(2) [OF fresh assms(2)] by simp
qed

lemma sponsor_keeps:
  assumes "\<not> is_emergency (proposal_kind_of request)"
  shows "active_proposal_targets (env_x E) (cn_queues c) \<subseteq> active_proposal_targets (env_x E) (cn_queues (sponsor E request c))"
    and "has_active_emergency (cn_queues (sponsor E request c)) = has_active_emergency (cn_queues c)"
    and "cn_state (sponsor E request c) = cn_state c"
proof -
  show "active_proposal_targets (env_x E) (cn_queues c) \<subseteq> active_proposal_targets (env_x E) (cn_queues (sponsor E request c))"
    using sponsor_queues [OF assms, of E c] active_targets_track(1) by (metis order_refl)
  show "has_active_emergency (cn_queues (sponsor E request c)) = has_active_emergency (cn_queues c)"
    using sponsor_queues [OF assms, of E c]
    by (elim disjE exE; simp add: has_active_emergency_def track_voting_proposal_def)
  have "phase_of (sponsor E request c) = phase_of c" by (simp add: sponsor_def)
  then show "cn_state (sponsor E request c) = cn_state c" using phase_of_eqD by blast
qed

lemma sponsor_all:
  assumes "\<And>r. r \<in> set requests \<Longrightarrow> \<not> is_emergency (proposal_kind_of r)"
    and "cn_state c = Working" and "\<not> has_active_emergency (cn_queues c)"
    and "i < length requests" and "opens_session E (requests ! i) (fold (sponsor E) (take i requests) c)"
    and "in_flight_target (env_x E) (requests ! i) = Some t"
  shows "t \<in> active_proposal_targets (env_x E) (cn_queues (fold (sponsor E) requests c))"
  using assms
proof (induction requests arbitrary: c i)
  case (Cons r rs)
  have keeps: "active_proposal_targets (env_x E) (cn_queues d) \<subseteq> active_proposal_targets (env_x E) (cn_queues (fold (sponsor E) rs d))" for d
    using Cons.prems(1) by (induction rs arbitrary: d) (auto dest: subsetD [OF sponsor_keeps(1)])
  show ?case
  proof (cases i)
    case 0
    then have "t \<in> active_proposal_targets (env_x E) (cn_queues (sponsor E r c))"
      using Cons.prems(1) [of r] Cons.prems(2,3,5,6) by (intro sponsor_opens) simp_all
    then show ?thesis using keeps by auto
  next
    case (Suc j)
    have "t \<in> active_proposal_targets (env_x E) (cn_queues (fold (sponsor E) rs (sponsor E r c)))"
      by (rule Cons.IH [of _ j]) (use Cons.prems Suc sponsor_keeps(2,3) [of r E c] in auto)
    then show ?thesis by simp
  qed
qed simp

lemma actionable_request:
  assumes "r \<in> set (actionable_buffered_updates E c)" and "pending_keyed (env_x E) (q_pending_updates (cn_queues c))"
  shows "\<not> is_emergency (proposal_kind_of r) \<and>
    (\<exists>t. target_member_id_of (env_x E) r = Some t \<and> in_flight_target (env_x E) r = Some t)"
proof -
  obtain k p where p: "(k, p) \<in> set (q_pending_updates (cn_queues c))" "r = pu_request p"
    "still_valid_update (conv_members E c) k r"
    using assms(1) by (auto simp: actionable_buffered_updates_def)
  then have "target_member_id_of (env_x E) r = Some k"
    using assms(2) by (auto simp: pending_keyed_def list_all_iff)
  moreover have "\<not> is_emergency (proposal_kind_of r)"
    using p(3) by (cases r rule: proposal_kind_of.cases) (simp_all add: still_valid_update_def is_emergency_def)
  ultimately show ?thesis by (simp add: in_flight_target_def)
qed

section \<open>The driver\<close>

text \<open>
  C30. A silent epoch steward is covered: in \<^verbatim>\<open>Working\<close>, with no approved work and no active
  emergency, when a backup steward first sees requests it could propose it waits for the takeover
  window. On the first poll after the window it takes all of them up, and each of them whose own
  session the consensus service opens is then voted on, whatever becomes of the others.
\<close>

theorem silent_steward_is_covered:
  fixes E :: "('g, 'o, 'c, 's) environment" and c :: "('g, 'o, 'c, 's) conversation"
  defines "requests \<equiv> actionable_buffered_updates E c" and "armed \<equiv> drive_buffered_proposals E c"
    and "deadline \<equiv> timestamp_add (cn_now c) (cfg_backup_takeover_window (cn_config c))"
  assumes "cn_state c = Working" and "approved_proposals_count (cn_queues c) = 0"
    and "\<not> has_active_emergency (cn_queues c)"
    and "requests \<noteq> []" and "\<not> is_epoch_steward E c" and "is_steward c"
    and "tm_buffered_propose_anchor (cn_timing c) = None" and "deadline \<le> t"
    and "queues_inv (env_x E) (cn_queues c)"
  shows "(\<forall>u<deadline. drive_buffered_proposals E (armed\<lparr>cn_now := u\<rparr>) = armed\<lparr>cn_now := u\<rparr>) \<and>
    (\<forall>i<length requests.
       opens_session E (requests ! i) (fold (sponsor E) (take i requests) (disarmed (armed\<lparr>cn_now := t\<rparr>))) \<longrightarrow>
       (\<exists>target. target_member_id_of (env_x E) (requests ! i) = Some target \<and>
          target \<in> active_proposal_targets (env_x E) (cn_queues (drive_buffered_proposals E (armed\<lparr>cn_now := t\<rparr>)))))"
proof -
  have armed: "armed = on_timing (\<lambda>t. t\<lparr>tm_buffered_propose_anchor := Some (cn_now c)\<rparr>) c"
    using assms(4-10) by (simp add: armed_def drive_buffered_proposals_def requests_def)
  have same: "actionable_buffered_updates E (armed\<lparr>cn_now := u\<rparr>) = requests"
    "is_epoch_steward E (armed\<lparr>cn_now := u\<rparr>) = is_epoch_steward E c" "is_steward (armed\<lparr>cn_now := u\<rparr>) = is_steward c"
    "actionable_buffered_updates E (disarmed (armed\<lparr>cn_now := u\<rparr>)) = requests" for u
    by (simp_all add: armed on_timing_def requests_def actionable_buffered_updates_def conv_members_def
        is_epoch_steward_def conv_epoch_def is_steward_def disarmed_def)
  have wait: "drive_buffered_proposals E (armed\<lparr>cn_now := u\<rparr>) = armed\<lparr>cn_now := u\<rparr>" if "u < deadline" for u
    using that assms(4-9) unfolding drive_buffered_proposals_def Let_def same
    by (simp add: armed on_timing_def deadline_def)
  have "drive_buffered_proposals E (armed\<lparr>cn_now := t\<rparr>) = drain_buffered_updates E (disarmed (armed\<lparr>cn_now := t\<rparr>))"
    using assms(4-11) unfolding drive_buffered_proposals_def Let_def same
    by (simp add: armed on_timing_def deadline_def disarmed_def)
  then have over: "drive_buffered_proposals E (armed\<lparr>cn_now := t\<rparr>) = fold (sponsor E) requests (disarmed (armed\<lparr>cn_now := t\<rparr>))"
    by (simp add: drain_buffered_updates_def same sponsor_def [abs_def])
  have request: "\<not> is_emergency (proposal_kind_of r) \<and>
      (\<exists>target. target_member_id_of (env_x E) r = Some target \<and> in_flight_target (env_x E) r = Some target)"
    if "r \<in> set requests" for r
    using that assms(12) actionable_request [of r E c] unfolding requests_def queues_inv_def by blast
  have start: "cn_state (disarmed (armed\<lparr>cn_now := t\<rparr>)) = Working"
    "\<not> has_active_emergency (cn_queues (disarmed (armed\<lparr>cn_now := t\<rparr>)))"
    using assms(4,6) by (simp_all add: armed disarmed_def on_timing_def)
  have "\<exists>target. target_member_id_of (env_x E) (requests ! i) = Some target \<and>
      target \<in> active_proposal_targets (env_x E) (cn_queues (drive_buffered_proposals E (armed\<lparr>cn_now := t\<rparr>)))"
    if "i < length requests"
      "opens_session E (requests ! i) (fold (sponsor E) (take i requests) (disarmed (armed\<lparr>cn_now := t\<rparr>)))" for i
    using that request [of "requests ! i"] request start
      sponsor_all [of requests "disarmed (armed\<lparr>cn_now := t\<rparr>)" i E] unfolding over by (auto intro: nth_mem)
  with wait show ?thesis by blast
qed

text \<open>Member 2 backs member 1 up, and has buffered a request to remove member 3.\<close>

definition demo_buffering ::
  "(demo_group, demo_object, demo_engine_state, in_memory_peer_score_storage) conversation" where
  "demo_buffering = demo_conversation\<lparr>cn_self_member_id := member_id_of 2,
     cn_queues := snd (insert_pending_update demo_codec (Some (RemoveMember (member_id_of 3))) 5 (queues_new ''c'' 4))\<rparr>"

theorem silent_steward_is_covered_witness:
  "member_id_of 3 \<in> active_proposal_targets demo_codec (cn_queues (drive_buffered_proposals demo_env
     ((drive_buffered_proposals demo_env demo_buffering)\<lparr>cn_now := 2\<rparr>)))"
proof -
  let ?c = demo_buffering
  have requests: "actionable_buffered_updates demo_env ?c = [Some (RemoveMember (member_id_of 3))]"
    and backup: "\<not> is_epoch_steward demo_env ?c" "is_steward ?c" "\<not> has_active_emergency (cn_queues ?c)"
      "approved_proposals_count (cn_queues ?c) = 0"
    by code_simp+
  have parts: "cn_state ?c = Working" "tm_buffered_propose_anchor (cn_timing ?c) = None" "cn_now ?c = 0"
    "cfg_backup_takeover_window (cn_config ?c) = 2"
    by (simp_all add: demo_buffering_def demo_conversation_def conversation_new_def timing_new_def demo_config_def)
  have "queues_inv (env_x demo_env) (cn_queues ?c)"
    by (simp add: demo_buffering_def demo_env_def queues_inv_insert_pending queues_inv_new)
  moreover have "opens_session demo_env r (disarmed ((drive_buffered_proposals demo_env ?c)\<lparr>cn_now := 2\<rparr>))" for r
  proof -
    have "q_voting_proposals (cn_queues (drive_buffered_proposals demo_env ?c)) = []"
      using requests backup parts by (simp add: drive_buffered_proposals_def on_timing_def)
        (simp add: demo_buffering_def insert_pending_update_def queues_new_def)
    then show ?thesis
      by (simp add: opens_session_def disarmed_def on_timing_def demo_env_def demo_engine_def Let_def is_voting_def
          imap_contains_def)
  qed
  ultimately show ?thesis
    using silent_steward_is_covered [of ?c demo_env 2] requests backup parts
    by (simp add: timestamp_add_def demo_env_def)
qed

end
