(* ===== verification/Sync_Safety.thy ===== *)
theory Sync_Safety
  imports Example_Conversation
begin

text \<open>
  The bootstrap of a joiner: what a conversation sync must satisfy to be adopted, and that the
  sync a steward builds satisfies it at a joiner that sees the same members.
\<close>

section \<open>Lemmas\<close>

lemma validate_sync_pool:
  assumes "validate_conversation_sync x name sync epoch members = Inr True"
  obtains config where
    "steward_list_config_new (unat (sy_sn_min sync)) (unat (sy_sn_max sync)) = Inr config"
    "sy_election_epoch sync \<le> epoch"
    "set (sy_unsettled_members sync) \<subseteq> set members"
    "\<exists>s \<in> set (sy_steward_members sync). s \<in> set members"
    "steward_list_validate x (sy_steward_members sync) (sy_election_epoch sync) (string_bytes name)
       (filter (\<lambda>m. m \<notin> set (sy_unsettled_members sync)) members) config (sy_retry_round sync) = Inr True"
    "\<And>t. sy_timing sync = Some t \<Longrightarrow> first_zero_timing_field t = None"
    "scoring_config_validate \<lparr>sco_default_score = synced_default_peer_score sync,
       sco_threshold = sy_threshold_peer_score sync\<rparr> = Inr ()"
proof -
  let ?new = "steward_list_config_new (unat (sy_sn_min sync)) (unat (sy_sn_max sync))"
  obtain config where c: "?new = Inr config"
    using assms by (cases ?new) (auto simp: validate_conversation_sync_def Let_def split: if_splits)
  let ?val = "steward_list_validate x (sy_steward_members sync) (sy_election_epoch sync) (string_bytes name)
       (filter (\<lambda>m. m \<notin> set (sy_unsettled_members sync)) members) config (sy_retry_round sync)"
  obtain b where b: "?val = Inr b"
    using assms c by (cases ?val) (auto simp: validate_conversation_sync_def Let_def split: if_splits)
  show ?thesis
    using assms c b
    by (intro that [OF c])
       (auto simp: validate_conversation_sync_def Let_def list_all_iff list_ex_iff
          split: if_splits option.splits sum.splits)
qed

lemma validated_list_members:
  assumes "steward_list_validate x ps e cid pool config r = Inr True"
  shows "set ps \<subseteq> set pool"
  using assms set_take_subset [of "length ps" "sort_by (steward_cmp x e r cid) pool"]
  by (auto simp: steward_list_validate_eq split: if_splits)

section \<open>Properties\<close>

text \<open>
  C14. What an adopted sync guarantees: it is not from a future election; the members it leaves
  out of the election are members of the group; its list is exactly the one the joiner derives
  itself from the remaining members, with the carried seed and bounds; so every steward on it is
  a current member and none is one of the left-out members. The tolerance for departed
  stewards that the source describes is empty: a list naming one never validates.
\<close>

theorem accepted_sync_is_rederived:
  assumes "validate_conversation_sync x name sync epoch members = Inr True"
  shows "sy_election_epoch sync \<le> epoch \<and>
    set (sy_unsettled_members sync) \<subseteq> set members \<and>
    sy_steward_members sync \<noteq> [] \<and>
    set (sy_steward_members sync) \<subseteq> set members - set (sy_unsettled_members sync) \<and>
    (\<exists>config l. steward_list_config_new (unat (sy_sn_min sync)) (unat (sy_sn_max sync)) = Inr config \<and>
       steward_list_generate x (sy_election_epoch sync) (string_bytes name)
         (filter (\<lambda>m. m \<notin> set (sy_unsettled_members sync)) members)
         (length (sy_steward_members sync)) config (sy_retry_round sync) = Inr l \<and>
       sl_members l = sy_steward_members sync)"
  using assms
proof (rule validate_sync_pool)
  fix config
  let ?pool = "filter (\<lambda>m. m \<notin> set (sy_unsettled_members sync)) members"
  assume c: "steward_list_config_new (unat (sy_sn_min sync)) (unat (sy_sn_max sync)) = Inr config"
    and v: "steward_list_validate x (sy_steward_members sync) (sy_election_epoch sync)
      (string_bytes name) ?pool config (sy_retry_round sync) = Inr True"
    and e: "sy_election_epoch sync \<le> epoch" and u: "set (sy_unsettled_members sync) \<subseteq> set members"
    and some: "\<exists>s \<in> set (sy_steward_members sync). s \<in> set members"
  have n: "length (sy_steward_members sync) = compute_list_size config (length ?pool)" and pool: "?pool \<noteq> []"
    using v unfolding steward_list_validate_eq by (auto split: if_splits)
  have ok: "is_valid_size config (compute_list_size config (length ?pool)) (length ?pool)"
    by (rule compute_list_size_valid [OF steward_list_config_new_ok [OF c]])
  have "\<exists>l. steward_list_generate x (sy_election_epoch sync) (string_bytes name) ?pool
       (length (sy_steward_members sync)) config (sy_retry_round sync) = Inr l \<and>
       sl_members l = sy_steward_members sync"
    using v ok n pool by (simp add: steward_list_validate_eq steward_list_generate_eq split: if_splits)
  then show ?thesis
    using c e u some validated_list_members [OF v] by auto
qed

definition demo_sync :: conversation_sync where
  "demo_sync =
     \<lparr>sy_steward_members = [[1], [3]], sy_election_epoch = 13, sy_sn_min = 1, sy_sn_max = 2,
      sy_allow_subset_candidates = False, sy_peer_scores = [], sy_timing = None, sy_retry_round = 0,
      sy_max_reelection_attempts = 2, sy_liveness_criteria_yes = True, sy_threshold_peer_score = 0,
      sy_pending_update_max_epochs = 3, sy_unsettled_members = [[2]], sy_default_peer_score = 0\<rparr>"

theorem accepted_sync_is_rederived_witness:
  "validate_conversation_sync demo_externals [] demo_sync 14 [[3], [2], [1]] = Inr True \<and>
   set (sy_steward_members demo_sync) \<subseteq> {[3], [2], [1]} - {[2]}"
proof -
  have v: "validate_conversation_sync demo_externals [] demo_sync 14 [[3], [2], [1]] = Inr True"
    by code_simp
  have u: "sy_unsettled_members demo_sync = [[2]]" by (simp add: demo_sync_def)
  from v accepted_sync_is_rederived [OF v, unfolded u] show ?thesis by simp
qed

lemma generated_list_validates:
  assumes "steward_list_generate x e salt pool (compute_list_size cfg (length pool)) cfg r = Inr l"
    and "mset pool' = mset pool" and "\<And>n. compute_list_size cfg' n = compute_list_size cfg n"
  shows "steward_list_validate x (sl_members l) e salt pool' cfg' r = Inr True"
proof -
  let ?cmp = "steward_cmp x e r salt"
  have gen: "pool \<noteq> []" "sl_members l = take (compute_list_size cfg (length pool)) (sort_by ?cmp pool)"
    using assms(1) by (auto simp: steward_list_generate_eq split: if_splits dest: arg_cong [of _ _ sl_members])
  have len: "length (sl_members l) = compute_list_size cfg (length pool)"
    by (rule generate_members_length [OF assms(1)])
  have "length pool' = length pool" "pool' \<noteq> []"
    using assms(2) gen(1) by (metis size_mset, metis mset_zero_iff)
  moreover have "sort_by ?cmp pool' = sort_by ?cmp pool" using assms(2) by (rule steward_order.sort_by_mset)
  ultimately show ?thesis using gen len assms(3) by (simp add: steward_list_validate_eq)
qed

text \<open>
  C16. A joiner accepts the sync a steward builds: when the steward's list is the one elected
  from the members settled at its election epoch, its windows survive the millisecond encoding
  and its score configuration is valid, the sync validates at every member that sees the same
  group, in whatever order, at any epoch from the election on.
\<close>

theorem built_sync_validates_at_joiner:
  assumes "steward_list_generate (env_x E) (sl_election_epoch l) (string_bytes (cn_id c)) pool
      (compute_list_size (sl_config l) (length pool)) (sl_config l) (sl_retry_round l) = Inr l"
    and "mset pool = mset (settled_members (cn_queues c) (conv_members E c) (sl_election_epoch l))"
    and "config_bounds_ok (sl_config l)" and "slc_sn_max (sl_config l) < 2 ^ 32"
    and "first_zero_timing_field (timing_config_from (cn_config c)) = None"
    and "scoring_config_validate (pss_config (cn_scoring c)) = Inr ()"
    and "mset members = mset (conv_members E c)" and "sl_election_epoch l \<le> epoch"
  shows "validate_conversation_sync (env_x E) (cn_id c) (conversation_sync_of E c scores l) epoch members =
    Inr True"
proof -
  let ?sync = "conversation_sync_of E c scores l" and ?e = "sl_election_epoch l"
  let ?cfg = "\<lparr>slc_sn_min = slc_sn_min (sl_config l), slc_sn_max = slc_sn_max (sl_config l),
      slc_allow_subset_candidates = False\<rparr>"
  have same: "set members = set (conv_members E c)" using assms(7) by (rule mset_eq_setD)
  have bounds: "1 \<le> slc_sn_min (sl_config l)" "slc_sn_min (sl_config l) \<le> slc_sn_max (sl_config l)"
    using assms(3) by (simp_all add: config_bounds_ok_def)
  have cfg: "steward_list_config_new (unat (sy_sn_min ?sync)) (unat (sy_sn_max ?sync)) = Inr ?cfg"
    using bounds assms(4) by (simp add: conversation_sync_of_def steward_list_config_new_def unat_of_nat)
  have size: "compute_list_size ?cfg n = compute_list_size (sl_config l) n" for n
    by (simp add: compute_list_size_def size_bounds_def)
  define jpool where "jpool = filter (\<lambda>m. m \<notin> set (sy_unsettled_members ?sync)) members"
  have "jpool = filter (\<lambda>m. is_settled (cn_queues c) m ?e) members"
    unfolding jpool_def using same by (intro filter_cong) (auto simp: conversation_sync_of_def)
  then have mpool: "mset jpool = mset pool"
    using assms(2,7) by (simp add: settled_members_def mset_filter)
  have valid: "steward_list_validate (env_x E) (sy_steward_members ?sync) (sy_election_epoch ?sync)
      (string_bytes (cn_id c)) jpool ?cfg (sy_retry_round ?sync) = Inr True"
    using generated_list_validates [OF assms(1) mpool size] by (simp add: conversation_sync_of_def)
  have "pool \<noteq> []" using assms(1) by (auto simp: steward_list_generate_eq split: if_splits)
  moreover have "length (sl_members l) = compute_list_size (sl_config l) (length pool)"
    by (rule generate_members_length [OF assms(1)])
  ultimately have "sl_members l \<noteq> []"
    using assms(3) by (metis compute_list_size_pos length_greater_0_conv list.size(3) less_irrefl)
  then have present: "list_ex (\<lambda>s. s \<in> set members) (sy_steward_members ?sync)"
    using validated_list_members [OF valid]
    by (cases "sl_members l") (auto simp: conversation_sync_of_def jpool_def)
  have unsettled: "list_all (\<lambda>u. u \<in> set members) (sy_unsettled_members ?sync)"
    using same by (auto simp: conversation_sync_of_def list_all_iff)
  have score: "\<lparr>sco_default_score = synced_default_peer_score ?sync,
      sco_threshold = sy_threshold_peer_score ?sync\<rparr> = pss_config (cn_scoring c)"
    using assms(6) by (auto simp: synced_default_peer_score_def conversation_sync_of_def
        scoring_config_validate_def split: if_splits)
  show ?thesis
    unfolding validate_conversation_sync_def Let_def jpool_def [symmetric] cfg score
    using valid present unsettled assms(5,6,8)
    by (simp add: conversation_sync_of_def not_less)
qed

definition demo_elected :: steward_list where
  "demo_elected = \<lparr>sl_members = map member_id_of [0, 1], sl_config = steward_list_config_default,
     sl_election_epoch = 5, sl_retry_round = 0\<rparr>"

theorem built_sync_validates_at_joiner_witness:
  "validate_conversation_sync demo_codec ''c''
     (conversation_sync_of demo_env (demo_conversation\<lparr>cn_config := conversation_config_default\<rparr>) []
        demo_elected) 6 (map member_id_of [3, 2, 1, 0]) = Inr True"
proof -
  let ?c = "demo_conversation\<lparr>cn_config := conversation_config_default\<rparr>"
    and ?pool = "map member_id_of [0, 1, 2, 3]" and ?joiner = "map member_id_of [3, 2, 1, 0]"
  have gen: "steward_list_generate (env_x demo_env) (sl_election_epoch demo_elected) (string_bytes ''c'') ?pool
      (compute_list_size (sl_config demo_elected) (length ?pool)) (sl_config demo_elected)
      (sl_retry_round demo_elected) = Inr demo_elected"
    by code_simp
  have queues: "cn_queues ?c = queues_new ''c'' 4" and config: "cn_config ?c = conversation_config_default"
    and scoring: "cn_scoring ?c = demo_scores" and name: "cn_id ?c = ''c''"
    and mls: "cn_mls ?c = demo_service"
    by (simp_all add: demo_conversation_def conversation_new_def)
  have members: "conv_members demo_env ?c = ?pool"
    by (simp add: conv_members_def mls demo_env_def mls_members_def demo_service_def demo_mls_def
        demo_member_def)
  have pool: "mset ?pool = mset (settled_members (cn_queues ?c) (conv_members demo_env ?c)
      (sl_election_epoch demo_elected))"
    unfolding members queues by (simp add: settled_members_def is_settled_def queues_new_def)
  have timing: "first_zero_timing_field (timing_config_from (cn_config ?c)) = None"
    unfolding config by (simp add: first_zero_timing_field_def timing_config_from_def
        duration_as_millis_def config_defaults)
  have score: "scoring_config_validate (pss_config (cn_scoring ?c)) = Inr ()"
    unfolding scoring by code_simp
  have joiner: "mset ?joiner = mset (conv_members demo_env ?c)" unfolding members by simp
  have "config_bounds_ok (sl_config demo_elected)" "slc_sn_max (sl_config demo_elected) < 2 ^ 32"
    "sl_election_epoch demo_elected \<le> 6"
    by (simp_all add: demo_elected_def steward_list_config_default_def config_bounds_ok_def)
  from built_sync_validates_at_joiner [OF gen [folded name] pool this(1,2) timing score joiner this(3)]
  show ?thesis by (simp add: demo_env_def name)
qed

end
