(* ===== verification/Display_Labels.thy ===== *)
theory Display_Labels
  imports Conversation
begin

text \<open>
  \<^verbatim>\<open>conversation/display.rs\<close>: the labels an integrator dispatches on. A label determines the
  variant of the message it came from, and the label of an emergency agrees with the label of
  its evidence.
\<close>

section \<open>Labels\<close>

fun member_role_label :: "member_role \<Rightarrow> string" where
  "member_role_label EpochStewardRole = ''epoch_steward''"
| "member_role_label BackupStewardRole = ''backup_steward''"
| "member_role_label StewardRole = ''steward''"
| "member_role_label MemberRole = ''member''"

fun payload_message_type :: "app_payload \<Rightarrow> string" where
  "payload_message_type (ConversationMessage _ _) = ''ConversationMessage''"
| "payload_message_type (MembershipChange _ _ _) = ''MembershipChange''"
| "payload_message_type (BanRequest _ _) = ''BanRequest''"
| "payload_message_type (ProposalPayload _) = ''Proposal''"
| "payload_message_type (VoteMessage _) = ''Vote''"
| "payload_message_type (VotePayload _ _ _ _) = ''VotePayload''"
| "payload_message_type (UserVote _ _ _) = ''UserVote''"
| "payload_message_type (ProposalAdded _ _) = ''ProposalAdded''"
| "payload_message_type (CommitCandidatePayload _) = ''CommitCandidate''"
| "payload_message_type (ConversationSyncPayload _) = ''ConversationSync''"
| "payload_message_type ConversationSyncRequest = ''ConversationSyncRequest''"
| "payload_message_type (MemberWelcomePayload _) = ''MemberWelcome''"

definition emergency_label :: "violation_evidence option \<Rightarrow> string" where
  "emergency_label evidence =
     (case evidence of
        None \<Rightarrow> ''Emergency: Unknown Violation''
      | Some e \<Rightarrow>
          (case violation_try_from (ve_violation_type e) of
             Some BrokenCommitViolation \<Rightarrow> ''Emergency: Broken Commit''
           | Some BrokenMlsProposalViolation \<Rightarrow> ''Emergency: Broken MLS Proposal''
           | Some CensorshipInactivityViolation \<Rightarrow> ''Emergency: Censorship/Inactivity''
           | Some ScoreBelowThreshold \<Rightarrow> ''Emergency: Score Below Threshold''
           | _ \<Rightarrow> ''Emergency: Unknown Violation''))"

fun request_message_type :: "conversation_update_request \<Rightarrow> string" where
  "request_message_type (Some (MemberInvite _)) = ''Add Member''"
| "request_message_type (Some (RemoveMember _)) = ''Remove Member''"
| "request_message_type (Some (EmergencyCriteria evidence)) = emergency_label evidence"
| "request_message_type (Some (StewardElection _)) = ''Steward Election''"
| "request_message_type None = ''Unknown''"

definition violation_type_label :: "violation_evidence \<Rightarrow> string" where
  "violation_type_label e =
     (case violation_try_from (ve_violation_type e) of
        Some BrokenCommitViolation \<Rightarrow> ''Broken Commit''
      | Some BrokenMlsProposalViolation \<Rightarrow> ''Broken MLS Proposal''
      | Some CensorshipInactivityViolation \<Rightarrow> ''Censorship/Inactivity''
      | Some ScoreBelowThreshold \<Rightarrow> ''Score Below Threshold''
      | _ \<Rightarrow> ''Unknown Violation'')"

section \<open>Labels determine variants\<close>

lemma member_role_label_inj: "member_role_label r = member_role_label r' \<longleftrightarrow> r = r'"
  by (cases r; cases r') simp_all

text \<open>A dispatcher keyed by the label reaches the variant that carried it.\<close>

lemma payload_label_variant:
  "payload_message_type p = ''CommitCandidate'' \<longleftrightarrow> (\<exists>cand. p = CommitCandidatePayload cand)"
  "payload_message_type p = ''ConversationSync'' \<longleftrightarrow> (\<exists>sync. p = ConversationSyncPayload sync)"
  "payload_message_type p = ''Proposal'' \<longleftrightarrow> (\<exists>proposal. p = ProposalPayload proposal)"
  "payload_message_type p = ''Vote'' \<longleftrightarrow> (\<exists>vote. p = VoteMessage vote)"
  by (cases p; simp)+

lemma emergency_label_of_evidence:
  "emergency_label (Some e) = ''Emergency: '' @ violation_type_label e"
  by (simp add: emergency_label_def violation_type_label_def split: option.split violation_type.split)

end
